theory Spec2Isabelle
  imports Main
begin

section \<open>JavaScript values used by the profiler\<close>

text \<open>
  The profiler works on JavaScript numbers and strings. The numbers it handles are
  integer counts, identifiers and time stamps, on which double arithmetic is exact below
  \<open>2^53\<close>; they are modelled as \<open>int\<close>. The one division of the program,
  \<open>Math.floor(sum / count)\<close>, can divide by zero, so a number is an integer, \<open>NaN\<close>
  or an infinity. Strings are lists of characters; a character stands for the code point
  of its number (the Latin-1 block).
\<close>

datatype jsnum = Num int | NaN | PosInfinity | NegInfinity

datatype jsval = JNum jsnum | JStr string

text \<open>An object used as a record of attributes: a map from property names to values.\<close>

type_synonym attrs = "string \<rightharpoonup> jsval"

text \<open>\<open>Math.floor(a / b)\<close> on integers.\<close>

definition floor_div :: "int \<Rightarrow> int \<Rightarrow> jsnum" where
  "floor_div a b =
     (if b = 0 then (if a = 0 then NaN else if 0 < a then PosInfinity else NegInfinity)
      else Num (a div b))"

text \<open>\<open>x * 1000\<close>.\<close>

fun times1000 :: "jsnum \<Rightarrow> jsnum" where
  "times1000 (Num n) = Num (n * 1000)"
| "times1000 NaN = NaN"
| "times1000 PosInfinity = PosInfinity"
| "times1000 NegInfinity = NegInfinity"

text \<open>Truthiness of a property value, as \<open>if (attrs[key])\<close> tests it.\<close>

fun truthy :: "jsval option \<Rightarrow> bool" where
  "truthy None = False"
| "truthy (Some (JStr s)) = (s \<noteq> [])"
| "truthy (Some (JNum (Num n))) = (n \<noteq> 0)"
| "truthy (Some (JNum NaN)) = False"
| "truthy (Some (JNum _)) = True"

subsection \<open>Numbers in template strings\<close>

definition digit_char :: "nat \<Rightarrow> char" where
  "digit_char d = ''0123456789'' ! d"

fun show_nat :: "nat \<Rightarrow> string" where
  "show_nat n = (if n < 10 then [digit_char n] else show_nat (n div 10) @ [digit_char (n mod 10)])"

declare show_nat.simps [simp del]

definition show_int :: "int \<Rightarrow> string" where
  "show_int i = (if i < 0 then CHR ''-'' # show_nat (nat (- i)) else show_nat (nat i))"

text \<open>A value that may be \<open>undefined\<close>, as a template string prints it.\<close>

definition template_str :: "string option \<Rightarrow> string" where
  "template_str s = (case s of None \<Rightarrow> ''undefined'' | Some t \<Rightarrow> t)"

text \<open>The property name \<open>`location.${i}`\<close>.\<close>

definition location_key :: "nat \<Rightarrow> string" where
  "location_key i = ''location.'' @ show_nat i"

section \<open>Naming a metric from its type and unit\<close>

text \<open>
  The Unicode properties \<open>White_Space\<close> and \<open>L\<close> (letter), on the code points below 256.
\<close>

definition White_Space :: "char \<Rightarrow> bool" where
  "White_Space c = (let n = (of_char c :: nat) in (9 \<le> n \<and> n \<le> 13) \<or> n = 32 \<or> n = 133 \<or> n = 160)"

definition Letter :: "char \<Rightarrow> bool" where
  "Letter c = (let n = (of_char c :: nat) in
     (65 \<le> n \<and> n \<le> 90) \<or> (97 \<le> n \<and> n \<le> 122) \<or> n = 170 \<or> n = 181 \<or> n = 186 \<or>
     (192 \<le> n \<and> n \<le> 214) \<or> (216 \<le> n \<and> n \<le> 246) \<or> (248 \<le> n \<and> n \<le> 255))"

text \<open>
  \<open>str.replace(/(\p{White_Space})|(\p{L})|(_)/u, f)\<close>: the pattern has no \<open>g\<close> flag, so
  only the leftmost match is replaced. The pattern matches one character that is white
  space, a letter or an underscore; \<open>f\<close> returns an underscore for white space and the
  character itself for a letter or an underscore. A character the pattern does not match
  is never handed to \<open>f\<close> and stays where it is.
\<close>

fun replace_first :: "string \<Rightarrow> string" where
  "replace_first [] = []"
| "replace_first (c # cs) =
     (if White_Space c then CHR ''_'' # cs
      else if Letter c then c # cs
      else if c = CHR ''_'' then c # cs
      else c # replace_first cs)"

definition normalizeAttrNameFromSampleValueType :: "string \<Rightarrow> string \<Rightarrow> string" where
  "normalizeAttrNameFromSampleValueType typeName unitName =
     replace_first (typeName @ ''_'' @ unitName)"

text \<open>
  The normalization the comments of the function describe: every white space character
  becomes an underscore, letters, digits and underscores stay, every other character is
  removed.
\<close>

definition Digit :: "char \<Rightarrow> bool" where
  "Digit c = (let n = (of_char c :: nat) in 48 \<le> n \<and> n \<le> 57)"

definition normalize_described :: "string \<Rightarrow> string \<Rightarrow> string" where
  "normalize_described typeName unitName =
     concat (map (\<lambda>c. if White_Space c then ''_''
                        else if Letter c \<or> Digit c \<or> c = CHR ''_'' then [c] else [])
                 (typeName @ ''_'' @ unitName))"

section \<open>The inspector variant: marshalling a CPU profile\<close>

text \<open>
  A node of the CPU profile as the inspector delivers it, with the \<open>parent\<close> property
  the marshaller adds. Node objects are reached only through \<open>nodeMap\<close>, which holds
  one object per id, and a parent is always an object of \<open>nodeMap\<close>: the reference is
  modelled as the parent's id (\<open>None\<close> is \<open>null\<close>).
\<close>

record callFrame =
  functionName :: string
  lineNumber :: int

record cpu_node =
  node_id :: nat
  node_callFrame :: callFrame
  children :: "nat list option"
  parent :: "nat option"

record cpu_profile =
  nodes :: "cpu_node list"
  samples :: "nat list"
  startTime :: int
  endTime :: int
  timeDeltas :: "int list"

type_synonym cpu_nodeMap = "nat \<rightharpoonup> cpu_node"

text \<open>First loop: \<open>node.parent = null; nodeMap[id] = node\<close>.\<close>

fun index_nodes :: "cpu_node list \<Rightarrow> cpu_nodeMap \<Rightarrow> cpu_nodeMap" where
  "index_nodes [] nodeMap = nodeMap"
| "index_nodes (node # rest) nodeMap =
     index_nodes rest (nodeMap(node_id node \<mapsto> node\<lparr>parent := None\<rparr>))"

text \<open>The inner loop over \<open>n.children\<close>: a child id without a node is skipped.\<close>

fun set_parent_of :: "nat \<Rightarrow> nat list \<Rightarrow> cpu_nodeMap \<Rightarrow> cpu_nodeMap" where
  "set_parent_of n [] nodeMap = nodeMap"
| "set_parent_of n (child # rest) nodeMap =
     set_parent_of n rest
       (case nodeMap child of
          None \<Rightarrow> nodeMap
        | Some childNode \<Rightarrow> nodeMap(child \<mapsto> childNode\<lparr>parent := Some n\<rparr>))"

text \<open>Second loop: \<open>n = nodeMap[node.id]\<close>, and every child of \<open>n\<close> gets \<open>n\<close> as parent.\<close>

fun link_children :: "cpu_node list \<Rightarrow> cpu_nodeMap \<Rightarrow> cpu_nodeMap" where
  "link_children [] nodeMap = nodeMap"
| "link_children (node # rest) nodeMap =
     link_children rest
       (case nodeMap (node_id node) of
          None \<Rightarrow> nodeMap
        | Some n \<Rightarrow>
            (case children n of
               None \<Rightarrow> nodeMap
             | Some cs \<Rightarrow> set_parent_of (node_id n) cs nodeMap))"

definition build_cpu_nodeMap :: "cpu_node list \<Rightarrow> cpu_nodeMap" where
  "build_cpu_nodeMap ns = link_children ns (index_nodes ns Map.empty)"

definition locationFromCallFrame :: "callFrame \<Rightarrow> string" where
  "locationFromCallFrame cf =
     (if functionName cf \<noteq> [] then functionName cf else ''(unknown)'') @ '':'' @ show_int (lineNumber cf)"

text \<open>
  The first loop of \<open>_addLocation\<close>:
  \<open>for (let node = nodeMap[sampleId]; node; node = node.parent) location.push(...)\<close>.
  It does not end when the parent references form a cycle; then the result is \<open>None\<close>.
\<close>

partial_function (option) collect_locations ::
    "cpu_nodeMap \<Rightarrow> nat option \<Rightarrow> string list \<Rightarrow> string list option" where
  "collect_locations nodeMap cur location =
     (case cur of
        None \<Rightarrow> Some location
      | Some i \<Rightarrow>
          (case nodeMap i of
             None \<Rightarrow> Some location
           | Some node \<Rightarrow>
               collect_locations nodeMap (parent node)
                 (location @ [locationFromCallFrame (node_callFrame node)])))"

text \<open>
  The second loop of \<open>_addLocation\<close>: \<open>event[`location.${i}`] = location[j]\<close> with
  \<open>j = location.length - 1 - i\<close>.
\<close>

definition set_location :: "string list \<Rightarrow> nat \<Rightarrow> attrs \<Rightarrow> attrs" where
  "set_location location i event =
     event(location_key i \<mapsto> JStr (location ! (length location - 1 - i)))"

definition assign_locations :: "string list \<Rightarrow> attrs \<Rightarrow> attrs" where
  "assign_locations location event = fold (set_location location) [0 ..< length location] event"

definition addLocation :: "attrs \<Rightarrow> nat \<Rightarrow> cpu_nodeMap \<Rightarrow> attrs option" where
  "addLocation event sampleId nodeMap =
     (case collect_locations nodeMap (Some sampleId) [] of
        None \<Rightarrow> None
      | Some location \<Rightarrow> Some (assign_locations location event))"

text \<open>The object literal of one \<open>ProfileCPU\<close> event.\<close>

definition cpu_event :: "int \<Rightarrow> cpu_profile \<Rightarrow> nat \<Rightarrow> jsnum \<Rightarrow> attrs" where
  "cpu_event harvestSeq profile i delta =
     [''harvest_seq'' \<mapsto> JNum (Num harvestSeq),
      ''sample_seq'' \<mapsto> JNum (Num (int i)),
      ''sample_period_cpu_nanoseconds'' \<mapsto> JNum (times1000 delta),
      ''duration_ns'' \<mapsto> JNum (Num ((endTime profile - startTime profile) * 1000)),
      ''time_ns'' \<mapsto> JNum (Num (startTime profile * 1000)),
      ''cpu_nanoseconds'' \<mapsto> JNum (times1000 delta),
      ''samples_count'' \<mapsto> JNum (Num (int (length (samples profile))))]"

text \<open>
  The loop over the samples, from index \<open>i\<close> with the samples still to do, the running
  \<open>count\<close> and \<open>sum\<close> (here \<open>acc_sum\<close>), and the events pushed so far.
\<close>

fun cpu_samples_loop ::
    "int \<Rightarrow> cpu_profile \<Rightarrow> cpu_nodeMap \<Rightarrow> nat \<Rightarrow> nat list \<Rightarrow> int \<Rightarrow> int \<Rightarrow> attrs list
     \<Rightarrow> attrs list option" where
  "cpu_samples_loop harvestSeq profile nodeMap i [] count acc_sum events = Some events"
| "cpu_samples_loop harvestSeq profile nodeMap i (sampleId # rest) count acc_sum events =
     (if int i < int (length (timeDeltas profile)) - 1 then
        (let delta = timeDeltas profile ! (i + 1) in
         case addLocation (cpu_event harvestSeq profile i (Num delta)) sampleId nodeMap of
           None \<Rightarrow> None
         | Some event \<Rightarrow>
             cpu_samples_loop harvestSeq profile nodeMap (i + 1) rest (count + 1) (acc_sum + delta)
               (events @ [event]))
      else
        (let delta = floor_div acc_sum count in
         case addLocation (cpu_event harvestSeq profile i delta) sampleId nodeMap of
           None \<Rightarrow> None
         | Some event \<Rightarrow>
             cpu_samples_loop harvestSeq profile nodeMap (i + 1) rest count acc_sum
               (events @ [event])))"

definition marshalCpuProfileToEvents :: "int \<Rightarrow> cpu_profile \<Rightarrow> attrs list option" where
  "marshalCpuProfileToEvents harvestSeq profile =
     cpu_samples_loop harvestSeq profile (build_cpu_nodeMap (nodes profile)) 0 (samples profile)
       0 0 []"

text \<open>
  The parent chain of a node, as a specification of the walk: the nodes from the node
  with id \<open>i\<close> up to the root, when the walk ends.
\<close>

inductive parent_chain :: "cpu_nodeMap \<Rightarrow> nat option \<Rightarrow> cpu_node list \<Rightarrow> bool" where
  chain_null: "parent_chain nodeMap None []"
| chain_missing: "nodeMap i = None \<Longrightarrow> parent_chain nodeMap (Some i) []"
| chain_step: "nodeMap i = Some node \<Longrightarrow> parent_chain nodeMap (parent node) chain
     \<Longrightarrow> parent_chain nodeMap (Some i) (node # chain)"

text \<open>
  The walk of \<open>_addLocation\<close> ends for every sample of the profile: from each sample's
  node the parent references lead to a root. It is so when the nodes form a tree.
\<close>

definition walks_end :: "cpu_profile \<Rightarrow> bool" where
  "walks_end profile =
     (\<forall>s \<in> set (samples profile).
        \<exists>chain. parent_chain (build_cpu_nodeMap (nodes profile)) (Some s) chain)"

text \<open>The example of the specification: a root with one child \<open>foo\<close>, sampled once.\<close>

definition example_cpu_profile :: cpu_profile where
  "example_cpu_profile =
     \<lparr>nodes =
        [\<lparr>node_id = 1, node_callFrame = \<lparr>functionName = ''root'', lineNumber = 0\<rparr>,
          children = Some [2], parent = None\<rparr>,
         \<lparr>node_id = 2, node_callFrame = \<lparr>functionName = ''foo'', lineNumber = 10\<rparr>,
          children = Some [], parent = None\<rparr>],
      samples = [2], startTime = 100, endTime = 300, timeDeltas = [5, 15]\<rparr>"

text \<open>
  The delta the specification gives sample \<open>i\<close>: the delta one position ahead when there
  is one, else the mean, rounded down, of the deltas consumed so far (those at the
  positions \<open>1, ..., i\<close>). The mean of no delta at all is not a number.
\<close>

definition floor_mean :: "int list \<Rightarrow> jsnum" where
  "floor_mean ds = (if ds = [] then NaN else Num (sum_list ds div int (length ds)))"

definition consumed_deltas :: "int list \<Rightarrow> nat \<Rightarrow> int list" where
  "consumed_deltas ds i = take i (drop 1 ds)"

definition sample_delta :: "int list \<Rightarrow> nat \<Rightarrow> jsnum" where
  "sample_delta ds i =
     (if i + 1 < length ds then Num (ds ! (i + 1)) else floor_mean (consumed_deltas ds i))"

section \<open>The inspector variant: marshalling a heap sampling profile\<close>

text \<open>
  The heap profile is a tree of node objects, each holding its children. Linking sets
  \<open>child.parent = parent\<close> once on every node below the head, before the node's own
  children are visited, so a linked node object is the node together with its linked
  parent (\<open>None\<close> for the head, whose \<open>parent\<close> is never set). Two nodes may carry the
  same id; then \<open>nodeMap\<close> holds the one visited last, while parent references still lead
  to the enclosing objects. A \<open>children\<close> property that is not an array behaves as the empty list.
\<close>

datatype heap_node =
  HeapNode (heap_id: nat) (selfSize: int) (heap_callFrame: callFrame) (heap_children: "heap_node list")

datatype linked_heap_node =
  Linked (the_node: heap_node) (heap_parent: "linked_heap_node option")

type_synonym heap_nodeMap = "nat \<rightharpoonup> linked_heap_node"

record heap_sample =
  sample_nodeId :: nat

record heap_profile =
  head :: heap_node
  heap_samples :: "heap_sample list"

lemma size_heap_child:
  "i < length (heap_children n) \<Longrightarrow> size (heap_children n ! i) < size n"
  by (cases n) (simp add: less_Suc_eq_le size_list_estimation' [OF nth_mem])

lemma size_heap_child_mem [termination_simp]:
  "x \<in> set (heap_children n) \<Longrightarrow> size x < size n"
  by (auto simp: in_set_conv_nth size_heap_child)

function buildHeapNodeMap :: "linked_heap_node \<Rightarrow> heap_nodeMap \<Rightarrow> nat \<Rightarrow> heap_nodeMap" where
  "buildHeapNodeMap parentNode nodeMap childIndex =
     (if childIndex \<ge> length (heap_children (the_node parentNode)) then nodeMap
      else
        (let child = Linked (heap_children (the_node parentNode) ! childIndex) (Some parentNode) in
         buildHeapNodeMap parentNode
           (buildHeapNodeMap child (nodeMap(heap_id (the_node child) \<mapsto> child)) 0)
           (childIndex + 1)))"
  by pat_completeness auto
termination
  by (relation "measures [\<lambda>(p, m, i). size (the_node p),
                          \<lambda>(p, m, i). length (heap_children (the_node p)) - i]")
     (auto simp: size_heap_child)

declare buildHeapNodeMap.simps [simp del]

text \<open>
  \<open>_calculateInclusiveSize\<close>:
  \<open>for (let node = nodeMap[nodeId]; node; node = node.parent) size += node.selfSize\<close>.
\<close>

fun add_selfSizes :: "linked_heap_node option \<Rightarrow> int \<Rightarrow> int" where
  "add_selfSizes None inclusive = inclusive"
| "add_selfSizes (Some (Linked n p)) inclusive = add_selfSizes p (inclusive + selfSize n)"

definition calculateInclusiveSize :: "nat \<Rightarrow> heap_nodeMap \<Rightarrow> int" where
  "calculateInclusiveSize nodeId nodeMap = add_selfSizes (nodeMap nodeId) 0"

text \<open>\<open>_addLocation\<close> on linked heap nodes: the same two loops.\<close>

fun heap_collect_locations :: "linked_heap_node option \<Rightarrow> string list \<Rightarrow> string list" where
  "heap_collect_locations None location = location"
| "heap_collect_locations (Some (Linked n p)) location =
     heap_collect_locations p (location @ [locationFromCallFrame (heap_callFrame n)])"

definition heap_addLocation :: "attrs \<Rightarrow> nat \<Rightarrow> heap_nodeMap \<Rightarrow> attrs" where
  "heap_addLocation event sampleId nodeMap =
     assign_locations (heap_collect_locations (nodeMap sampleId) []) event"

text \<open>The object literal of one \<open>ProfileHeap\<close> event; \<open>now_ms\<close> is the \<open>endTime\<close> read from \<open>Date.now()\<close>.\<close>

definition heap_event :: "int \<Rightarrow> int \<Rightarrow> int \<Rightarrow> nat \<Rightarrow> nat \<Rightarrow> int \<Rightarrow> attrs" where
  "heap_event harvestSeq heapSampleStartTime now_ms n i inclusive =
     [''harvest_seq'' \<mapsto> JNum (Num harvestSeq),
      ''sample_seq'' \<mapsto> JNum (Num (int i)),
      ''sample_period_inuse_space_bytes'' \<mapsto> JNum (Num inclusive),
      ''duration_ns'' \<mapsto> JNum (Num ((now_ms - heapSampleStartTime) * 1000)),
      ''time_ns'' \<mapsto> JNum (Num (heapSampleStartTime * 1000)),
      ''inuse_space_bytes'' \<mapsto> JNum (Num inclusive),
      ''samples_count'' \<mapsto> JNum (Num (int n))]"

text \<open>
  The loop over the samples; \<open>now i\<close> is what \<open>Date.now()\<close> returns in iteration \<open>i\<close>
  and \<open>n\<close> is \<open>samples.length\<close>.
\<close>

fun heap_samples_loop ::
    "int \<Rightarrow> int \<Rightarrow> (nat \<Rightarrow> int) \<Rightarrow> heap_nodeMap \<Rightarrow> nat \<Rightarrow> nat \<Rightarrow> heap_sample list \<Rightarrow> attrs list
     \<Rightarrow> attrs list" where
  "heap_samples_loop harvestSeq heapSampleStartTime now nodeMap n i [] events = events"
| "heap_samples_loop harvestSeq heapSampleStartTime now nodeMap n i (sample # rest) events =
     (let inclusive = calculateInclusiveSize (sample_nodeId sample) nodeMap;
          now_ms = now i
      in heap_samples_loop harvestSeq heapSampleStartTime now nodeMap n (i + 1) rest
           (events @ [heap_addLocation
                        (heap_event harvestSeq heapSampleStartTime now_ms n i inclusive)
                        (sample_nodeId sample) nodeMap]))"

definition build_heap_nodeMap :: "heap_node \<Rightarrow> heap_nodeMap" where
  "build_heap_nodeMap hd_node =
     buildHeapNodeMap (Linked hd_node None) [heap_id hd_node \<mapsto> Linked hd_node None] 0"

definition marshalHeapSamplingProfileToEvents ::
    "int \<Rightarrow> int \<Rightarrow> (nat \<Rightarrow> int) \<Rightarrow> heap_profile \<Rightarrow> attrs list" where
  "marshalHeapSamplingProfileToEvents harvestSeq heapSampleStartTime now profile =
     heap_samples_loop harvestSeq heapSampleStartTime now (build_heap_nodeMap (head profile))
       (length (heap_samples profile)) 0 (heap_samples profile) []"

text \<open>
  The tree as a specification sees it: the chains from a node up to the head, one per
  node of the tree, in the order the nodes are visited. \<open>ancestors\<close> are the nodes above
  \<open>n\<close>, nearest first.
\<close>

fun chains_from :: "heap_node list \<Rightarrow> heap_node \<Rightarrow> heap_node list list" where
  "chains_from ancestors n =
     (n # ancestors) # concat (map (chains_from (n # ancestors)) (heap_children n))"

declare chains_from.simps [simp del]

fun chain_id :: "heap_node list \<Rightarrow> nat" where
  "chain_id [] = 0"
| "chain_id (n # ancestors) = heap_id n"

text \<open>
  The linked node object of a chain, and the assignment \<open>nodeMap[node.id] = node\<close>
  for the first node of a chain.
\<close>

fun link_chain :: "heap_node list \<Rightarrow> linked_heap_node option" where
  "link_chain [] = None"
| "link_chain (n # ancestors) = Some (Linked n (link_chain ancestors))"

definition insert_chain :: "heap_node list \<Rightarrow> heap_nodeMap \<Rightarrow> heap_nodeMap" where
  "insert_chain c nodeMap =
     (case link_chain c of None \<Rightarrow> nodeMap | Some l \<Rightarrow> nodeMap(chain_id c \<mapsto> l))"

text \<open>The chain of the node that \<open>nodeMap\<close> holds for an id: the last one visited.\<close>

definition chain_of :: "heap_node \<Rightarrow> nat \<Rightarrow> heap_node list option" where
  "chain_of hd_node i = find (\<lambda>c. chain_id c = i) (rev (chains_from [] hd_node))"

text \<open>Every node of the list is a child of the node that follows it.\<close>

fun child_linked :: "heap_node list \<Rightarrow> bool" where
  "child_linked (a # b # rest) = (a \<in> set (heap_children b) \<and> child_linked (b # rest))"
| "child_linked _ = True"

text \<open>The tree with \<open>d\<close> added to the \<open>selfSize\<close> of every node with id \<open>t\<close>.\<close>

fun increase_selfSize :: "nat \<Rightarrow> int \<Rightarrow> heap_node \<Rightarrow> heap_node" where
  "increase_selfSize t d (HeapNode i s cf cs) =
     HeapNode i (if i = t then s + d else s) cf (map (increase_selfSize t d) cs)"

text \<open>A heap tree: a head with the children \<open>a\<close> and \<open>b\<close>, and \<open>c\<close> below \<open>a\<close>.\<close>

definition example_heap_profile :: heap_profile where
  "example_heap_profile =
     \<lparr>head =
        HeapNode 1 10 \<lparr>functionName = ''(root)'', lineNumber = 0\<rparr>
          [HeapNode 2 20 \<lparr>functionName = ''a'', lineNumber = 3\<rparr>
             [HeapNode 4 40 \<lparr>functionName = ''c'', lineNumber = 7\<rparr> []],
           HeapNode 3 30 \<lparr>functionName = ''b'', lineNumber = 5\<rparr> []],
      heap_samples = [\<lparr>sample_nodeId = 4\<rparr>, \<lparr>sample_nodeId = 3\<rparr>]\<rparr>"

section \<open>The pprof variant: recording the samples of a profile\<close>

text \<open>
  The profile of the pprof encoder, as far as \<open>_recordSamples\<close> reads it. Indices into
  the string table, ids and counts are natural numbers; values, periods and line numbers
  are integers.
\<close>

record value_type =
  type_index :: nat
  unit_index :: nat

record pprof_line =
  functionId :: nat
  line_number :: int

record pprof_location =
  location_id :: nat
  location_lines :: "pprof_line list"

record pprof_function =
  function_id :: nat
  function_name :: nat

record pprof_sample =
  sample_values :: "int list"
  locationId :: "nat list"

record pprof_profile =
  timeNanos :: int
  durationNanos :: int
  period :: int
  periodType :: value_type
  sampleType :: "value_type list"
  profile_samples :: "pprof_sample list"
  profile_locations :: "pprof_location list"
  profile_functions :: "pprof_function list"
  stringTable :: "string list"

datatype js_error = TypeError | EngineError | IOError

definition DESTINATION_TYPE_NIL :: nat where "DESTINATION_TYPE_NIL = 0"
definition DESTINATION_TYPE_LOCAL_FILE :: nat where "DESTINATION_TYPE_LOCAL_FILE = 1"
definition DESTINATION_TYPE_INGEST_OTEL :: nat where "DESTINATION_TYPE_INGEST_OTEL = 2"
definition DESTINATION_TYPE_INGEST_MELT :: nat where "DESTINATION_TYPE_INGEST_MELT = 3"

text \<open>\<open>profile.stringTable.strings[index]\<close>, which is \<open>undefined\<close> out of range.\<close>

definition getString :: "pprof_profile \<Rightarrow> nat \<Rightarrow> string option" where
  "getString prof index =
     (if index < length (stringTable prof) then Some (stringTable prof ! index) else None)"

definition getLocation :: "pprof_profile \<Rightarrow> nat \<Rightarrow> pprof_location option" where
  "getLocation prof lid = find (\<lambda>loc. location_id loc = lid) (profile_locations prof)"

definition locationFromLine :: "pprof_profile \<Rightarrow> pprof_line \<Rightarrow> string" where
  "locationFromLine prof l =
     (case find (\<lambda>fn. function_id fn = functionId l) (profile_functions prof) of
        None \<Rightarrow> ''(unknown)''
      | Some fn \<Rightarrow> template_str (getString prof (function_name fn)))
     @ '':'' @ show_int (line_number l)"

text \<open>The name of a value type, as both loops of \<open>_recordSamples\<close> compute it.\<close>

definition value_type_name :: "pprof_profile \<Rightarrow> value_type \<Rightarrow> string" where
  "value_type_name prof vt =
     normalizeAttrNameFromSampleValueType
       (template_str (getString prof (type_index vt)))
       (template_str (getString prof (unit_index vt)))"

definition sample_key :: "pprof_profile \<Rightarrow> nat \<Rightarrow> string" where
  "sample_key prof j = value_type_name prof (sampleType prof ! j)"

definition initial_attrs :: "int \<Rightarrow> pprof_profile \<Rightarrow> attrs" where
  "initial_attrs harvestSeq prof =
     [''harvest_seq'' \<mapsto> JNum (Num harvestSeq),
      ''time_ns'' \<mapsto> JNum (Num (timeNanos prof)),
      ''duration_ns'' \<mapsto> JNum (Num (durationNanos prof)),
      ''sample_period_'' @ value_type_name prof (periodType prof) \<mapsto> JNum (Num (period prof))]"

text \<open>
  \<open>obj[key] = value\<close> for a number \<open>value\<close> on a plain object (\<open>attrs\<close> and \<open>u\<close> are
  object literals): the property is created or overwritten, except for the key
  \<open>__proto__\<close>. That name is the accessor the object inherits from \<open>Object.prototype\<close>;
  its setter ignores a value that is neither an object nor \<open>null\<close>, so the assignment
  stores nothing and the object gets no property of that name.
\<close>

definition set_property :: "string \<Rightarrow> 'v \<Rightarrow> (string \<rightharpoonup> 'v) \<Rightarrow> (string \<rightharpoonup> 'v)" where
  "set_property key val obj = (if key = ''__proto__'' then obj else obj(key \<mapsto> val))"

text \<open>
  The loop over \<open>sample.value\<close>, from index \<open>j\<close> with the values still to do:
  \<open>attrs[key] = sample.value[j]; u[key] = v\<close>. Reading \<open>profile.sampleType[j].type\<close>
  throws a \<open>TypeError\<close> when the sample has more values than the profile has sample types.
\<close>

fun write_values ::
    "pprof_profile \<Rightarrow> int list \<Rightarrow> nat \<Rightarrow> attrs \<Rightarrow> (string \<rightharpoonup> int) \<Rightarrow> int
     \<Rightarrow> js_error + attrs \<times> (string \<rightharpoonup> int)" where
  "write_values prof [] j attrs u v = Inr (attrs, u)"
| "write_values prof (x # xs) j attrs u v =
     (if j < length (sampleType prof) then
        write_values prof xs (j + 1)
          (set_property (sample_key prof j) (JNum (Num x)) attrs)
          (set_property (sample_key prof j) v u) v
      else Inl TypeError)"

text \<open>
  \<open>_cleanupKeys(attrs, keys, val)\<close>: every key of \<open>keys\<close> whose mark is not \<open>val\<close> is
  deleted from \<open>attrs\<close> and from \<open>keys\<close>; the result is the flipped mark with the two
  objects as they are afterwards. The keys are handled independently of each other, so
  the \<open>for ... in\<close> loop is written key by key.
\<close>

definition cleanupKeys ::
    "attrs \<Rightarrow> (string \<rightharpoonup> int) \<Rightarrow> int \<Rightarrow> attrs \<times> (string \<rightharpoonup> int) \<times> int" where
  "cleanupKeys attrs keys val =
     ((\<lambda>key. case keys key of
               None \<Rightarrow> attrs key
             | Some mark \<Rightarrow> if mark \<noteq> val then None else attrs key),
      (\<lambda>key. case keys key of
               None \<Rightarrow> None
             | Some mark \<Rightarrow> if mark \<noteq> val then None else Some mark),
      1 - val)"

text \<open>
  The loop over \<open>sample.locationId\<close>, from index \<open>j\<close>: a location that is found and has
  a line is written, another one is deleted when the record holds a truthy value for it.
\<close>

fun write_locations :: "pprof_profile \<Rightarrow> nat list \<Rightarrow> nat \<Rightarrow> attrs \<Rightarrow> attrs" where
  "write_locations prof [] j attrs = attrs"
| "write_locations prof (lid # rest) j attrs =
     write_locations prof rest (j + 1)
       (case getLocation prof lid of
          None \<Rightarrow>
            (if truthy (attrs (location_key j)) then attrs(location_key j := None) else attrs)
        | Some loc \<Rightarrow>
            (case location_lines loc of
               [] \<Rightarrow>
                 (if truthy (attrs (location_key j)) then attrs(location_key j := None)
                  else attrs)
             | l # ls \<Rightarrow> attrs(location_key j \<mapsto> JStr (locationFromLine prof l))))"

text \<open>\<open>for (let j = len; j < prevLoc; j += 1) delete attrs[`location.${j}`]\<close>.\<close>

definition delete_location :: "nat \<Rightarrow> attrs \<Rightarrow> attrs" where
  "delete_location j attrs = attrs(location_key j := None)"

definition clear_stale_locations :: "nat \<Rightarrow> nat \<Rightarrow> attrs \<Rightarrow> attrs" where
  "clear_stale_locations len prevLoc attrs = fold delete_location [len ..< prevLoc] attrs"

text \<open>
  The state of the loop over the samples: the record \<open>attrs\<close>, the marks \<open>u\<close>, the
  current mark \<open>v\<close> and \<open>prevLoc\<close>. One iteration up to the emission:
\<close>

record sample_loop_state =
  st_attrs :: attrs
  st_u :: "string \<rightharpoonup> int"
  st_v :: int
  st_prevLoc :: nat

definition sample_step ::
    "pprof_profile \<Rightarrow> nat \<Rightarrow> pprof_sample \<Rightarrow> sample_loop_state \<Rightarrow> js_error + sample_loop_state" where
  "sample_step prof i smp st =
     (case write_values prof (sample_values smp) 0
             ((st_attrs st)(''sample_seq'' \<mapsto> JNum (Num (int i)))) (st_u st) (st_v st) of
        Inl e \<Rightarrow> Inl e
      | Inr (attrs2, u2) \<Rightarrow>
          (case cleanupKeys attrs2 u2 (st_v st) of
             (attrs3, u3, v') \<Rightarrow>
               Inr \<lparr>st_attrs =
                      clear_stale_locations (length (locationId smp)) (st_prevLoc st)
                        (write_locations prof (locationId smp) 0 attrs3),
                    st_u = u3, st_v = v', st_prevLoc = length (locationId smp)\<rparr>))"

text \<open>
  The loop over the samples. \<open>api.recordCustomEvent(eventType, attrs)\<close> is called only for
  the MELT destination; the emitted record is the content of \<open>attrs\<close> at the call. The
  result is the list of records emitted, and the error that ended the loop, if any.
\<close>

fun samples_loop ::
    "pprof_profile \<Rightarrow> nat \<Rightarrow> nat \<Rightarrow> pprof_sample list \<Rightarrow> sample_loop_state \<Rightarrow> attrs list
     \<Rightarrow> attrs list \<times> js_error option" where
  "samples_loop prof destination i [] st emitted = (emitted, None)"
| "samples_loop prof destination i (smp # rest) st emitted =
     (case sample_step prof i smp st of
        Inl e \<Rightarrow> (emitted, Some e)
      | Inr st' \<Rightarrow>
          samples_loop prof destination (i + 1) rest st'
            (if destination = DESTINATION_TYPE_INGEST_MELT then emitted @ [st_attrs st']
             else emitted))"

definition recordSamples :: "int \<Rightarrow> pprof_profile \<Rightarrow> nat \<Rightarrow> attrs list \<times> js_error option" where
  "recordSamples harvestSeq prof destination =
     samples_loop prof destination 0 (profile_samples prof)
       \<lparr>st_attrs = initial_attrs harvestSeq prof, st_u = Map.empty, st_v = 0, st_prevLoc = 0\<rparr>
       []"




text \<open>
  A profile with the sample types \<open>cpu/nanoseconds\<close> and \<open>wall/count\<close>: the first
  sample has both values and two locations, the second one value and one location.
\<close>

definition example_pprof_profile :: pprof_profile where
  "example_pprof_profile =
     \<lparr>timeNanos = 1000, durationNanos = 500, period = 10,
      periodType = \<lparr>type_index = 0, unit_index = 1\<rparr>,
      sampleType = [\<lparr>type_index = 0, unit_index = 1\<rparr>, \<lparr>type_index = 2, unit_index = 3\<rparr>],
      profile_samples =
        [\<lparr>sample_values = [5, 7], locationId = [1, 2]\<rparr>,
         \<lparr>sample_values = [9], locationId = [2]\<rparr>],
      profile_locations =
        [\<lparr>location_id = 1, location_lines = [\<lparr>functionId = 1, line_number = 3\<rparr>]\<rparr>,
         \<lparr>location_id = 2, location_lines = [\<lparr>functionId = 2, line_number = 8\<rparr>]\<rparr>],
      profile_functions =
        [\<lparr>function_id = 1, function_name = 4\<rparr>, \<lparr>function_id = 2, function_name = 5\<rparr>],
      stringTable = [''cpu'', ''nanoseconds'', ''wall'', ''count'', ''main'', ''work'']\<rparr>"



text \<open>
  The same profile with the first sample type renamed to \<open>harvest/seq\<close>, whose key is
  \<open>harvest_seq\<close>.
\<close>

definition example_harvest_seq_profile :: pprof_profile where
  "example_harvest_seq_profile =
     example_pprof_profile
       \<lparr>sampleType := [\<lparr>type_index = 6, unit_index = 7\<rparr>, \<lparr>type_index = 2, unit_index = 3\<rparr>],
        stringTable := [''cpu'', ''nanoseconds'', ''wall'', ''count'', ''main'', ''work'',
                        ''harvest'', ''seq'']\<rparr>"

section \<open>The pprof variant: the profiler and its harvests\<close>

unbundle bit_operations_syntax

definition PROFILING_TYPE_CPU :: nat where "PROFILING_TYPE_CPU = 1"
definition PROFILING_TYPE_HEAP :: nat where "PROFILING_TYPE_HEAP = 2"

text \<open>
  The profiler object. A file handle is known by the directory and the name it was
  opened with (\<open>path.join(outputDirectory, name)\<close>); a timer is there or not. The last
  two fields are not fields of the object: they are the state of the two engines of the
  pprof library, started by \<open>time.start()\<close> and \<open>heap.start(...)\<close>.
\<close>

record profiler =
  harvestSeq :: nat
  selectedProfiles :: nat
  destination :: nat
  outputDirectory :: string
  cpuFile :: "(string \<times> string) option"
  heapFile :: "(string \<times> string) option"
  cpuTimer :: bool
  heapTimer :: bool
  time_started :: bool
  heap_started :: bool

text \<open>
  What the collaborators answer during one harvest: the profile that \<open>time.stop(true)\<close>
  or \<open>heap.profile()\<close> returns, or the error it throws; the error of encoding, writing
  and closing the file, if any; the error of opening the next file, if any.
\<close>

record harvest_env =
  env_profile :: "js_error + pprof_profile"
  env_write :: "js_error option"
  env_open :: "js_error option"

text \<open>
  What one harvest does: the error it throws, the profiler afterwards, the events handed
  to \<open>api.recordCustomEvent\<close>, the files written and the files opened.
\<close>

record harvest_outcome =
  thrown :: "js_error option"
  after :: profiler
  recorded :: "(string \<times> attrs) list"
  wrote :: "(string \<times> string) list"
  opened :: "(string \<times> string) list"

definition returns :: "profiler \<Rightarrow> harvest_outcome" where
  "returns st = \<lparr>thrown = None, after = st, recorded = [], wrote = [], opened = []\<rparr>"

definition throws :: "js_error \<Rightarrow> profiler \<Rightarrow> harvest_outcome" where
  "throws e st = \<lparr>thrown = Some e, after = st, recorded = [], wrote = [], opened = []\<rparr>"

definition collectCpuSamples :: "profiler \<Rightarrow> harvest_env \<Rightarrow> harvest_outcome" where
  "collectCpuSamples st env =
     (if selectedProfiles st AND PROFILING_TYPE_CPU = 0 then returns st
      else if destination st = DESTINATION_TYPE_NIL then returns st
      else
        (case env_profile env of
           Inl e \<Rightarrow> throws e st
         | Inr prof \<Rightarrow>
             if destination st = DESTINATION_TYPE_LOCAL_FILE then
               (case cpuFile st of
                  None \<Rightarrow> throws TypeError st
                | Some file \<Rightarrow>
                    (case env_write env of
                       Some e \<Rightarrow> throws e st
                     | None \<Rightarrow>
                         (case env_open env of
                            Some e \<Rightarrow> (throws e st)\<lparr>wrote := [file]\<rparr>
                          | None \<Rightarrow>
                              (let next_file =
                                 (outputDirectory st, ''cpu.pprof'' @ show_nat (harvestSeq st))
                               in \<lparr>thrown = None, after = st\<lparr>cpuFile := Some next_file\<rparr>,
                                   recorded = [], wrote = [file], opened = [next_file]\<rparr>))))
             else
               (case recordSamples (int (harvestSeq st)) prof (destination st) of
                  (emitted, err) \<Rightarrow>
                    \<lparr>thrown = err, after = st, recorded = map (Pair ''ProfileCPU'') emitted,
                     wrote = [], opened = []\<rparr>)))"

definition collectHeapSamples :: "profiler \<Rightarrow> harvest_env \<Rightarrow> harvest_outcome" where
  "collectHeapSamples st env =
     (if selectedProfiles st AND PROFILING_TYPE_HEAP = 0 then returns st
      else if destination st = DESTINATION_TYPE_NIL then returns st
      else
        (case env_profile env of
           Inl e \<Rightarrow> throws e st
         | Inr prof \<Rightarrow>
             if destination st = DESTINATION_TYPE_LOCAL_FILE then
               (case heapFile st of
                  None \<Rightarrow> throws TypeError st
                | Some file \<Rightarrow>
                    (case env_write env of
                       Some e \<Rightarrow> throws e st
                     | None \<Rightarrow>
                         (case env_open env of
                            Some e \<Rightarrow> (throws e st)\<lparr>wrote := [file]\<rparr>
                          | None \<Rightarrow>
                              (let next_file =
                                 (outputDirectory st, ''heap.pprof'' @ show_nat (harvestSeq st))
                               in \<lparr>thrown = None, after = st\<lparr>heapFile := Some next_file\<rparr>,
                                   recorded = [], wrote = [file], opened = [next_file]\<rparr>))))
             else
               (case recordSamples (int (harvestSeq st)) prof (destination st) of
                  (emitted, err) \<Rightarrow>
                    \<lparr>thrown = err, after = st, recorded = map (Pair ''ProfileHeap'') emitted,
                     wrote = [], opened = []\<rparr>)))"

text \<open>
  The two timer callbacks of \<open>_scheduleHarvests\<close>:
  \<open>try { await profiler._collectCpuSamples(); profiler.harvestSeq += 1 } catch (err) { log }\<close>.
  The error stays in the outcome as the one that was caught and logged.
\<close>

definition count_harvest :: "harvest_outcome \<Rightarrow> harvest_outcome" where
  "count_harvest out =
     (case thrown out of
        None \<Rightarrow> out\<lparr>after := (after out)\<lparr>harvestSeq := harvestSeq (after out) + 1\<rparr>\<rparr>
      | Some e \<Rightarrow> out)"

definition harvestCpuSamples :: "profiler \<Rightarrow> harvest_env \<Rightarrow> harvest_outcome" where
  "harvestCpuSamples st env = count_harvest (collectCpuSamples st env)"

definition harvestHeapSamples :: "profiler \<Rightarrow> harvest_env \<Rightarrow> harvest_outcome" where
  "harvestHeapSamples st env = count_harvest (collectHeapSamples st env)"

text \<open>
  A run of the timers: each firing is a call of the callback of the CPU or of the heap
  timer, with what the collaborators answer during it.
\<close>

datatype trigger = CpuTimer harvest_env | HeapTimer harvest_env

fun fire :: "profiler \<Rightarrow> trigger \<Rightarrow> harvest_outcome" where
  "fire st (CpuTimer env) = harvestCpuSamples st env"
| "fire st (HeapTimer env) = harvestHeapSamples st env"

fun run_timers :: "profiler \<Rightarrow> trigger list \<Rightarrow> harvest_outcome list" where
  "run_timers st [] = []"
| "run_timers st (t # ts) = fire st t # run_timers (after (fire st t)) ts"

fun state_after :: "profiler \<Rightarrow> trigger list \<Rightarrow> profiler" where
  "state_after st [] = st"
| "state_after st (t # ts) = state_after (after (fire st t)) ts"

text \<open>A harvest completed: the collection returned and no error was caught.\<close>

definition completed :: "harvest_outcome \<Rightarrow> bool" where
  "completed out = (thrown out = None)"

text \<open>
  The profiler of the examples: both engines selected and the MELT destination, as
  \<open>start\<close> leaves it when nothing fails; and a harvest in which the engine returns the
  example profile.
\<close>

definition example_env :: harvest_env where
  "example_env = \<lparr>env_profile = Inr example_pprof_profile, env_write = None, env_open = None\<rparr>"

text \<open>\<open>_openLocalFiles\<close> and \<open>start\<close>, with the errors the collaborators throw.\<close>

record start_env =
  time_start_error :: "js_error option"
  heap_start_error :: "js_error option"
  open_cpu_error :: "js_error option"
  open_heap_error :: "js_error option"

definition openLocalFiles :: "profiler \<Rightarrow> start_env \<Rightarrow> harvest_outcome" where
  "openLocalFiles st env =
     (let cpu = (outputDirectory st, ''cpu.pprof'');
          heap = (outputDirectory st, ''heap.pprof'')
      in
        if selectedProfiles st AND PROFILING_TYPE_CPU \<noteq> 0 then
          (case open_cpu_error env of
             Some e \<Rightarrow> throws e st
           | None \<Rightarrow>
               if selectedProfiles st AND PROFILING_TYPE_HEAP \<noteq> 0 then
                 (case open_heap_error env of
                    Some e \<Rightarrow> (throws e (st\<lparr>cpuFile := Some cpu\<rparr>))\<lparr>opened := [cpu]\<rparr>
                  | None \<Rightarrow>
                      (returns (st\<lparr>cpuFile := Some cpu, heapFile := Some heap\<rparr>))
                        \<lparr>opened := [cpu, heap]\<rparr>)
               else (returns (st\<lparr>cpuFile := Some cpu\<rparr>))\<lparr>opened := [cpu]\<rparr>)
        else if selectedProfiles st AND PROFILING_TYPE_HEAP \<noteq> 0 then
          (case open_heap_error env of
             Some e \<Rightarrow> throws e st
           | None \<Rightarrow> (returns (st\<lparr>heapFile := Some heap\<rparr>))\<lparr>opened := [heap]\<rparr>)
        else returns st)"

definition scheduleHarvests :: "profiler \<Rightarrow> profiler" where
  "scheduleHarvests st =
     st\<lparr>cpuTimer := (if selectedProfiles st AND PROFILING_TYPE_CPU \<noteq> 0 then True else cpuTimer st),
        heapTimer := (if selectedProfiles st AND PROFILING_TYPE_HEAP \<noteq> 0 then True else heapTimer st)\<rparr>"

definition start_cpu :: "profiler \<Rightarrow> start_env \<Rightarrow> js_error + profiler" where
  "start_cpu st env =
     (if selectedProfiles st AND PROFILING_TYPE_CPU \<noteq> 0 then
        (case time_start_error env of
           Some e \<Rightarrow> Inl e
         | None \<Rightarrow> Inr (st\<lparr>time_started := True\<rparr>))
      else Inr st)"

definition start_heap :: "profiler \<Rightarrow> start_env \<Rightarrow> js_error + profiler" where
  "start_heap st env =
     (if selectedProfiles st AND PROFILING_TYPE_HEAP \<noteq> 0 then
        (case heap_start_error env of
           Some e \<Rightarrow> Inl e
         | None \<Rightarrow> Inr (st\<lparr>heap_started := True\<rparr>))
      else Inr st)"

text \<open>
  \<open>Profiler.prototype.start\<close> of the pprof variant. An error thrown by a collaborator
  leaves the function at once: nothing after the throwing call runs.
\<close>

definition start :: "profiler \<Rightarrow> start_env \<Rightarrow> harvest_outcome" where
  "start st env =
     (if selectedProfiles st = 0 then returns st
      else
        (case start_cpu st env of
           Inl e \<Rightarrow> throws e st
         | Inr st1 \<Rightarrow>
             (case start_heap st1 env of
                Inl e \<Rightarrow> throws e st1
              | Inr st2 \<Rightarrow>
                  if destination st2 = DESTINATION_TYPE_LOCAL_FILE then
                    (let out = openLocalFiles st2 env in
                     case thrown out of
                       Some e \<Rightarrow> out
                     | None \<Rightarrow> out\<lparr>after := scheduleHarvests (after out)\<rparr>)
                  else returns (scheduleHarvests st2))))"

text \<open>A new profiler, as the constructor leaves it, for the given configuration.\<close>

definition new_profiler :: "nat \<Rightarrow> nat \<Rightarrow> string \<Rightarrow> profiler" where
  "new_profiler selected dest dir =
     \<lparr>harvestSeq = 0, selectedProfiles = selected, destination = dest, outputDirectory = dir,
      cpuFile = None, heapFile = None, cpuTimer = False, heapTimer = False,
      time_started = False, heap_started = False\<rparr>"

definition no_start_errors :: start_env where
  "no_start_errors =
     \<lparr>time_start_error = None, heap_start_error = None, open_cpu_error = None,
      open_heap_error = None\<rparr>"

definition example_melt_profiler :: profiler where
  "example_melt_profiler =
     after (start (new_profiler 3 DESTINATION_TYPE_INGEST_MELT ''/out'') no_start_errors)"

text \<open>A CPU harvest, a heap harvest and a CPU harvest again.\<close>

definition example_timers :: "trigger list" where
  "example_timers = [CpuTimer example_env, HeapTimer example_env, CpuTimer example_env]"

text \<open>A profiler with the CPU engine only, writing local files.\<close>

definition example_file_start :: harvest_outcome where
  "example_file_start =
     start (new_profiler 1 DESTINATION_TYPE_LOCAL_FILE ''/out'') no_start_errors"

text \<open>A harvest in which no collaborator throws.\<close>

definition harvest_succeeds :: "harvest_env \<Rightarrow> bool" where
  "harvest_succeeds env =
     ((case env_profile env of Inl e \<Rightarrow> False | Inr prof \<Rightarrow> True) \<and>
      env_write env = None \<and> env_open env = None)"

text \<open>A start in which the heap engine throws.\<close>

definition heap_start_fails :: start_env where
  "heap_start_fails = no_start_errors\<lparr>heap_start_error := Some EngineError\<rparr>"

text \<open>
  A firing of a timer harvests when the collection passes its two guards: the engine of
  the timer is selected and a destination is set. Otherwise \<open>_collectCpuSamples\<close> and
  \<open>_collectHeapSamples\<close> return at once: the engine is not asked for a profile and
  nothing is written or recorded.
\<close>

definition harvests :: "profiler \<Rightarrow> trigger \<Rightarrow> bool" where
  "harvests st t =
     (destination st \<noteq> DESTINATION_TYPE_NIL \<and>
      (case t of
         CpuTimer env \<Rightarrow> selectedProfiles st AND PROFILING_TYPE_CPU \<noteq> 0
       | HeapTimer env \<Rightarrow> selectedProfiles st AND PROFILING_TYPE_HEAP \<noteq> 0))"

text \<open>What the collaborators answer during a firing.\<close>

fun the_env :: "trigger \<Rightarrow> harvest_env" where
  "the_env (CpuTimer env) = env"
| "the_env (HeapTimer env) = env"

text \<open>A harvest in which the engine throws instead of returning a profile.\<close>

definition example_failing_env :: harvest_env where
  "example_failing_env = \<lparr>env_profile = Inl EngineError, env_write = None, env_open = None\<rparr>"

text \<open>No sample type of the profile gives the metric key \<open>harvest_seq\<close>.\<close>

definition no_harvest_seq_metric :: "pprof_profile \<Rightarrow> bool" where
  "no_harvest_seq_metric prof =
     (''harvest_seq'' \<notin> sample_key prof ` {..< length (sampleType prof)})"

text \<open>A started profiler with both engines selected and no destination set.\<close>

definition example_nil_profiler :: profiler where
  "example_nil_profiler =
     after (start (new_profiler 3 DESTINATION_TYPE_NIL ''/out'') no_start_errors)"

text \<open>
  A harvest in which the engine returns the profile with the sample type
  \<open>harvest/seq\<close>.
\<close>

definition example_harvest_seq_env :: harvest_env where
  "example_harvest_seq_env =
     \<lparr>env_profile = Inr example_harvest_seq_profile, env_write = None, env_open = None\<rparr>"

section \<open>The inspector variant: starting and stopping\<close>

text \<open>
  The inspector variant drives the engines through \<open>session.post(method, callback)\<close>.
  Each step runs in the callback of the step before, so the calls happen one after the
  other; the model runs them in that order and keeps a trace of what happened. Which
  methods the engine rejects is given by \<open>fails\<close>; the error of a rejected method is
  its name. The engine's CPU profiler runs from a successful \<open>Profiler.start\<close> to a
  successful \<open>Profiler.stop\<close>. \<open>Surfaced err running\<close> is the call of the callback of
  \<open>start\<close> with \<open>err\<close>, taken while the CPU profiler is running or not.
\<close>

datatype inspector_action =
    Connect
  | Disconnect
  | Post string
  | Surfaced "string option" bool
  | Scheduled
  | ClearCpuTimer
  | ClearHeapTimer
  | StopCallback
  | Uncaught js_error

record inspector_profiler =
  insp_selectedProfiles :: nat
  cpu_profiling :: bool
  heap_sampling :: bool
  trace :: "inspector_action list"

definition did :: "inspector_action \<Rightarrow> inspector_profiler \<Rightarrow> inspector_profiler" where
  "did a st = st\<lparr>trace := trace st @ [a]\<rparr>"

definition engine_effect :: "string \<Rightarrow> inspector_profiler \<Rightarrow> inspector_profiler" where
  "engine_effect method st =
     (if method = ''Profiler.start'' then st\<lparr>cpu_profiling := True\<rparr>
      else if method = ''Profiler.stop'' then st\<lparr>cpu_profiling := False\<rparr>
      else if method = ''HeapProfiler.startSampling'' then st\<lparr>heap_sampling := True\<rparr>
      else if method = ''HeapProfiler.stopSampling'' then st\<lparr>heap_sampling := False\<rparr>
      else st)"

definition post ::
    "(string \<Rightarrow> bool) \<Rightarrow> string \<Rightarrow> inspector_profiler \<Rightarrow> string option \<times> inspector_profiler" where
  "post fails method st =
     (if fails method then (Some method, did (Post method) st)
      else (None, engine_effect method (did (Post method) st)))"

text \<open>A chain of posts, each in the callback of the one before; the first error ends it.\<close>

fun post_all ::
    "(string \<Rightarrow> bool) \<Rightarrow> string list \<Rightarrow> inspector_profiler \<Rightarrow> string option \<times> inspector_profiler" where
  "post_all fails [] st = (None, st)"
| "post_all fails (method # rest) st =
     (case post fails method st of
        (Some err, st') \<Rightarrow> (Some err, st')
      | (None, st') \<Rightarrow> post_all fails rest st')"

definition maybeStartCpuProfiler ::
    "(string \<Rightarrow> bool) \<Rightarrow> inspector_profiler \<Rightarrow> string option \<times> inspector_profiler" where
  "maybeStartCpuProfiler fails st =
     (if insp_selectedProfiles st AND PROFILING_TYPE_CPU = 0 then (None, st)
      else post_all fails
             [''Profiler.setSamplingInterval'', ''Profiler.enable'', ''Profiler.start''] st)"

definition maybeStopCpuProfiler ::
    "(string \<Rightarrow> bool) \<Rightarrow> inspector_profiler \<Rightarrow> string option \<times> inspector_profiler" where
  "maybeStopCpuProfiler fails st =
     (if insp_selectedProfiles st AND PROFILING_TYPE_CPU = 0 then (None, st)
      else post_all fails [''Profiler.stop'', ''Profiler.disable''] st)"

definition maybeStartHeapProfiler ::
    "(string \<Rightarrow> bool) \<Rightarrow> inspector_profiler \<Rightarrow> string option \<times> inspector_profiler" where
  "maybeStartHeapProfiler fails st =
     (if insp_selectedProfiles st AND PROFILING_TYPE_HEAP = 0 then (None, st)
      else post_all fails [''HeapProfiler.enable'', ''HeapProfiler.startSampling''] st)"

definition maybeStopHeapProfiler ::
    "(string \<Rightarrow> bool) \<Rightarrow> inspector_profiler \<Rightarrow> string option \<times> inspector_profiler" where
  "maybeStopHeapProfiler fails st =
     (if insp_selectedProfiles st AND PROFILING_TYPE_HEAP = 0 then (None, st)
      else post_all fails [''HeapProfiler.stopSampling'', ''HeapProfiler.disable''] st)"

text \<open>
  \<open>Profiler.prototype.stop(callback)\<close>: an error of stopping an engine is logged and
  the shutdown goes on. At the end \<open>callback()\<close> is called; when \<open>stop\<close> was called
  without a callback this call throws a \<open>TypeError\<close> that nothing catches.
\<close>

definition inspector_stop ::
    "bool \<Rightarrow> (string \<Rightarrow> bool) \<Rightarrow> inspector_profiler \<Rightarrow> inspector_profiler" where
  "inspector_stop has_callback fails st =
     (case maybeStopCpuProfiler fails st of
        (err1, st1) \<Rightarrow>
          (case maybeStopHeapProfiler fails (did ClearCpuTimer st1) of
             (err2, st2) \<Rightarrow>
               did (if has_callback then StopCallback else Uncaught TypeError)
                 (did Disconnect (did ClearHeapTimer st2))))"

text \<open>
  \<open>Profiler.prototype.start(callback)\<close>: when the heap profiler does not start, the
  code runs \<open>callback(err)\<close> and then \<open>profiler.stop()\<close>, without a callback.
\<close>

definition inspector_start :: "(string \<Rightarrow> bool) \<Rightarrow> inspector_profiler \<Rightarrow> inspector_profiler" where
  "inspector_start fails st =
     (if insp_selectedProfiles st = 0 then st
      else
        (case maybeStartCpuProfiler fails (did Connect st) of
           (Some err, st1) \<Rightarrow> did (Surfaced (Some err) (cpu_profiling st1)) st1
         | (None, st1) \<Rightarrow>
             (case maybeStartHeapProfiler fails st1 of
                (Some err, st2) \<Rightarrow>
                  inspector_stop False fails (did (Surfaced (Some err) (cpu_profiling st2)) st2)
              | (None, st2) \<Rightarrow>
                  did (Surfaced None (cpu_profiling st2)) (did Scheduled st2))))"

definition new_inspector_profiler :: "nat \<Rightarrow> inspector_profiler" where
  "new_inspector_profiler selected =
     \<lparr>insp_selectedProfiles = selected, cpu_profiling = False, heap_sampling = False, trace = []\<rparr>"

section \<open>The inspector variant: the harvests\<close>

text \<open>
  The two fields of the profiler object that a harvest of the inspector variant reads and
  writes. The counter \<open>harvestSeq\<close> is one field, used by the CPU and by the heap
  harvests. As for \<open>start\<close> and \<open>stop\<close>, each step of a harvest runs in the callback
  of the step before; the model runs a harvest to its end before the next timer fires.
\<close>

record inspector_harvests =
  insp_harvestSeq :: nat
  insp_heapSampleStartTime :: int

text \<open>
  What the engine answers during one harvest. A reply of \<open>session.post\<close> is the pair of
  arguments its callback is called with: the error, if any, and the result, \<open>None\<close>
  when the callback gets no second argument. For the CPU harvest: the reply to
  \<open>Profiler.stop\<close>, whose result is \<open>{ profile }\<close>, and the error of \<open>Profiler.start\<close>,
  if any. For the heap harvest: the reply to \<open>HeapProfiler.getSamplingProfile\<close>, what
  \<open>Date.now()\<close> returns in each iteration of the marshaller, and what it returns after
  the events are recorded.
\<close>

record cpu_harvest_env =
  stop_reply :: "string option \<times> cpu_profile option"
  start_reply :: "string option"

record heap_harvest_env =
  sampling_reply :: "string option \<times> heap_profile option"
  marshal_now :: "nat \<Rightarrow> int"
  restart_now :: int

text \<open>
  How a harvest ends: the engine was read and resumed and the counter incremented; or a
  call was rejected, which is logged; or the callback threw.
\<close>

datatype harvest_end = Resumed | Rejected string | Raised js_error

record inspector_outcome =
  insp_end :: harvest_end
  insp_after :: inspector_harvests
  insp_recorded :: "(string \<times> attrs) list"

text \<open>
  \<open>_collectCpuSamples\<close> of the inspector variant. The callback of \<open>Profiler.stop\<close> is
  \<open>function (err, { profile })\<close>: binding its second parameter throws a \<open>TypeError\<close>
  when there is no second argument. With a second argument, an error is logged and the
  callback returns. Otherwise the profile is marshalled with the counter as it is, the
  events are recorded and \<open>Profiler.start\<close> is posted; only when that is accepted is the
  counter incremented. The result is \<open>None\<close> when the marshaller does not return.
\<close>

definition inspector_collectCpuSamples ::
    "inspector_harvests \<Rightarrow> cpu_harvest_env \<Rightarrow> inspector_outcome option" where
  "inspector_collectCpuSamples st env =
     (case stop_reply env of
        (err, result) \<Rightarrow>
          (case result of
             None \<Rightarrow> Some \<lparr>insp_end = Raised TypeError, insp_after = st, insp_recorded = []\<rparr>
           | Some profile \<Rightarrow>
               (case err of
                  Some e \<Rightarrow> Some \<lparr>insp_end = Rejected e, insp_after = st, insp_recorded = []\<rparr>
                | None \<Rightarrow>
                    (case marshalCpuProfileToEvents (int (insp_harvestSeq st)) profile of
                       None \<Rightarrow> None
                     | Some events \<Rightarrow>
                         (case start_reply env of
                            Some e \<Rightarrow>
                              Some \<lparr>insp_end = Rejected e, insp_after = st,
                                    insp_recorded = map (Pair ''ProfileCPU'') events\<rparr>
                          | None \<Rightarrow>
                              Some \<lparr>insp_end = Resumed,
                                    insp_after = st\<lparr>insp_harvestSeq := insp_harvestSeq st + 1\<rparr>,
                                    insp_recorded = map (Pair ''ProfileCPU'') events\<rparr>)))))"

text \<open>
  \<open>_collectHeapSamples\<close> of the inspector variant. An error is logged and the callback
  returns. Otherwise \<open>profile.profile.samples.length\<close> is read, which throws a
  \<open>TypeError\<close> when there is no result; the profile is marshalled with the counter and
  the start time as they are, the events are recorded, and then the counter is
  incremented and the start time set to \<open>Date.now()\<close>.
\<close>

definition inspector_collectHeapSamples ::
    "inspector_harvests \<Rightarrow> heap_harvest_env \<Rightarrow> inspector_outcome" where
  "inspector_collectHeapSamples st env =
     (case sampling_reply env of
        (err, result) \<Rightarrow>
          (case err of
             Some e \<Rightarrow> \<lparr>insp_end = Rejected e, insp_after = st, insp_recorded = []\<rparr>
           | None \<Rightarrow>
               (case result of
                  None \<Rightarrow> \<lparr>insp_end = Raised TypeError, insp_after = st, insp_recorded = []\<rparr>
                | Some profile \<Rightarrow>
                    \<lparr>insp_end = Resumed,
                     insp_after = \<lparr>insp_harvestSeq = insp_harvestSeq st + 1,
                                   insp_heapSampleStartTime = restart_now env\<rparr>,
                     insp_recorded =
                       map (Pair ''ProfileHeap'')
                         (marshalHeapSamplingProfileToEvents (int (insp_harvestSeq st))
                            (insp_heapSampleStartTime st) (marshal_now env) profile)\<rparr>)))"

text \<open>
  The timer callbacks of \<open>_scheduleHarvests\<close> call the two collections and nothing
  else. A run of the timers ends in \<open>None\<close> when one of its harvests does not return.
\<close>

datatype inspector_trigger = InspectorCpuTimer cpu_harvest_env | InspectorHeapTimer heap_harvest_env

fun inspector_fire :: "inspector_harvests \<Rightarrow> inspector_trigger \<Rightarrow> inspector_outcome option" where
  "inspector_fire st (InspectorCpuTimer env) = inspector_collectCpuSamples st env"
| "inspector_fire st (InspectorHeapTimer env) = Some (inspector_collectHeapSamples st env)"

fun inspector_run_timers ::
    "inspector_harvests \<Rightarrow> inspector_trigger list \<Rightarrow> inspector_outcome list option" where
  "inspector_run_timers st [] = Some []"
| "inspector_run_timers st (t # ts) =
     (case inspector_fire st t of
        None \<Rightarrow> None
      | Some out \<Rightarrow>
          (case inspector_run_timers (insp_after out) ts of
             None \<Rightarrow> None
           | Some outs \<Rightarrow> Some (out # outs)))"

text \<open>The profiler after a run with the given outcomes.\<close>

definition inspector_state_after ::
    "inspector_harvests \<Rightarrow> inspector_outcome list \<Rightarrow> inspector_harvests" where
  "inspector_state_after st outs = (if outs = [] then st else insp_after (last outs))"

text \<open>A harvest succeeded: the engine was read, the events recorded and the engine resumed.\<close>

definition succeeded :: "inspector_outcome \<Rightarrow> bool" where
  "succeeded out = (insp_end out = Resumed)"

text \<open>
  The CPU profile that a firing is given, if any, has parent references that lead to a
  root from every sample, so that the marshaller returns.
\<close>

definition delivers_tree :: "inspector_trigger \<Rightarrow> bool" where
  "delivers_tree t =
     (case t of
        InspectorCpuTimer env \<Rightarrow>
          (case snd (stop_reply env) of None \<Rightarrow> True | Some profile \<Rightarrow> walks_end profile)
      | InspectorHeapTimer env \<Rightarrow> True)"

text \<open>
  The profiler as the constructor leaves it, and harvests in which the engine accepts
  every call and returns the example profiles.
\<close>

definition new_inspector_harvests :: inspector_harvests where
  "new_inspector_harvests = \<lparr>insp_harvestSeq = 0, insp_heapSampleStartTime = 0\<rparr>"

definition example_cpu_harvest :: cpu_harvest_env where
  "example_cpu_harvest =
     \<lparr>stop_reply = (None, Some example_cpu_profile), start_reply = None\<rparr>"

definition example_heap_harvest :: heap_harvest_env where
  "example_heap_harvest =
     \<lparr>sampling_reply = (None, Some example_heap_profile), marshal_now = (\<lambda>i. 2000),
      restart_now = 2000\<rparr>"

text \<open>A CPU harvest in which the engine does not resume.\<close>

definition example_cpu_harvest_no_restart :: cpu_harvest_env where
  "example_cpu_harvest_no_restart =
     example_cpu_harvest\<lparr>start_reply := Some ''Profiler.start''\<rparr>"

section \<open>Theorems\<close>

text \<open>
  C9: the naming function is claimed to map every white space character to an underscore,
  to keep letters, digits and underscores and to remove every other character. On the
  type name \<open>cpu time\<close> and the unit name \<open>nano-seconds\<close> the function returns the
  concatenated name unchanged, with its space and its hyphen, where the described
  normalization gives \<open>cpu_time_nanoseconds\<close>.
\<close>

theorem normalize_keeps_space_and_punctuation:
  "normalizeAttrNameFromSampleValueType ''cpu time'' ''nano-seconds'' = ''cpu time_nano-seconds''
   \<and> normalize_described ''cpu time'' ''nano-seconds'' = ''cpu_time_nanoseconds''"
  by (simp add: normalizeAttrNameFromSampleValueType_def normalize_described_def
      White_Space_def Letter_def Digit_def)

subsection \<open>Numbers and location keys\<close>

lemma digit_char_inj: "a < 10 \<Longrightarrow> b < 10 \<Longrightarrow> digit_char a = digit_char b \<Longrightarrow> a = b"
  unfolding digit_char_def
  by (rule nth_eq_iff_index_eq [THEN iffD1, of "''0123456789''"]) simp_all

lemma show_nat_nonempty: "show_nat n \<noteq> []" "[] \<noteq> show_nat n"
  by (subst show_nat.simps, simp)+

lemma show_nat_inj: "show_nat m = show_nat n \<Longrightarrow> m = n"
proof (induction m arbitrary: n rule: show_nat.induct)
  case (1 m)
  show ?case
  proof (cases "m < 10")
    case True
    note m = this
    show ?thesis
    proof (cases "n < 10")
      case True
      with m "1.prems" show ?thesis
        by (simp add: show_nat.simps [of m] show_nat.simps [of n] digit_char_inj)
    next
      case False
      with m "1.prems" show ?thesis
        by (simp add: show_nat.simps [of m] show_nat.simps [of n] show_nat_nonempty)
    qed
  next
    case False
    note m = this
    show ?thesis
    proof (cases "n < 10")
      case True
      with m "1.prems" show ?thesis
        by (simp add: show_nat.simps [of m] show_nat.simps [of n] show_nat_nonempty)
    next
      case False
      with m "1.prems" have a: "show_nat (m div 10) = show_nat (n div 10)"
        and b: "digit_char (m mod 10) = digit_char (n mod 10)"
        by (simp_all add: show_nat.simps [of m] show_nat.simps [of n])
      from "1.IH" [OF m a] have "m div 10 = n div 10" .
      moreover from b have "m mod 10 = n mod 10"
        by (intro digit_char_inj) simp_all
      ultimately show ?thesis
        by (metis div_mult_mod_eq)
    qed
  qed
qed

lemma location_key_inj: "location_key a = location_key b \<longleftrightarrow> a = b"
  by (auto simp: location_key_def dest: show_nat_inj)

lemma digit_char_not_underscore: "d < 10 \<Longrightarrow> CHR ''_'' \<noteq> digit_char d"
proof -
  assume "d < 10"
  then have "d \<in> {0,1,2,3,4,5,6,7,8,9}" by auto
  then show ?thesis by (auto simp: digit_char_def)
qed

lemma show_nat_no_underscore: "CHR ''_'' \<notin> set (show_nat n)"
proof (induction n rule: show_nat.induct)
  case (1 n)
  show ?case
  proof (cases "n < 10")
    case True
    then show ?thesis
      by (subst show_nat.simps) (simp add: digit_char_not_underscore)
  next
    case False
    moreover have "n mod 10 < 10" by simp
    ultimately show ?thesis
      using "1.IH" by (subst show_nat.simps) (simp add: digit_char_not_underscore)
  qed
qed

lemma location_key_no_underscore: "CHR ''_'' \<notin> set (location_key n)"
  by (simp add: location_key_def show_nat_no_underscore)

lemma collect_locations_chain:
  "parent_chain nodeMap cur chain \<Longrightarrow>
   collect_locations nodeMap cur location =
     Some (location @ map (\<lambda>n. locationFromCallFrame (node_callFrame n)) chain)"
proof (induction arbitrary: location rule: parent_chain.induct)
  case (chain_null nodeMap)
  show ?case by (subst collect_locations.simps) simp
next
  case (chain_missing nodeMap i)
  then show ?case by (subst collect_locations.simps) simp
next
  case (chain_step nodeMap i node chain)
  then show ?case by (subst collect_locations.simps) simp
qed

lemma fold_set_location_Suc:
  "fold (set_location location) [0 ..< Suc n] event key =
     (if key = location_key n then Some (JStr (location ! (length location - 1 - n)))
      else fold (set_location location) [0 ..< n] event key)"
proof -
  have "fold (set_location location) [0 ..< Suc n] event =
        set_location location n (fold (set_location location) [0 ..< n] event)"
    by simp
  also have "\<dots> = (fold (set_location location) [0 ..< n] event)
      (location_key n \<mapsto> JStr (location ! (length location - 1 - n)))"
    by (rule set_location_def)
  finally show ?thesis
    by (simp only: fun_upd_apply)
qed

lemma fold_set_location_other:
  "(\<And>i. i < n \<Longrightarrow> location_key i \<noteq> key) \<Longrightarrow>
   fold (set_location location) [0 ..< n] event key = event key"
proof (induction n)
  case 0
  show ?case by simp
next
  case (Suc n)
  have "location_key n \<noteq> key" using Suc.prems by simp
  moreover have "fold (set_location location) [0 ..< n] event key = event key"
    using Suc.prems by (intro Suc.IH) simp
  ultimately show ?case by (simp only: fold_set_location_Suc) auto
qed

lemma fold_set_location_hit:
  "k < n \<Longrightarrow>
   fold (set_location location) [0 ..< n] event (location_key k) =
     Some (JStr (location ! (length location - 1 - k)))"
proof (induction n)
  case 0
  then show ?case by simp
next
  case (Suc n)
  show ?case
  proof (cases "k = n")
    case True
    then show ?thesis by (simp only: fold_set_location_Suc) simp
  next
    case False
    with Suc.prems have "k < n" by simp
    with Suc.IH False show ?thesis
      by (simp only: fold_set_location_Suc location_key_inj) simp
  qed
qed

lemma assign_locations_hit:
  "k < length location \<Longrightarrow>
   assign_locations location event (location_key k) = Some (JStr (rev location ! k))"
  unfolding assign_locations_def
  by (simp add: fold_set_location_hit rev_nth)

lemma assign_locations_beyond:
  "length location \<le> k \<Longrightarrow>
   assign_locations location event (location_key k) = event (location_key k)"
  unfolding assign_locations_def
  by (rule fold_set_location_other) (simp add: location_key_inj)

lemma assign_locations_other:
  "(\<And>i. key \<noteq> location_key i) \<Longrightarrow> assign_locations location event key = event key"
  unfolding assign_locations_def
  by (rule fold_set_location_other) metis

subsection \<open>The CPU marshaller of the inspector variant\<close>

lemma consumed_deltas_ahead:
  "int i < int (length ds) - 1 \<Longrightarrow>
   consumed_deltas ds (Suc i) = consumed_deltas ds i @ [ds ! (Suc i)]"
  by (simp add: consumed_deltas_def take_Suc_conv_app_nth)

lemma consumed_deltas_done:
  "\<not> int i < int (length ds) - 1 \<Longrightarrow> consumed_deltas ds (Suc i) = consumed_deltas ds i"
  by (simp add: consumed_deltas_def)

lemma floor_div_mean: "floor_div (sum_list xs) (int (length xs)) = floor_mean xs"
  by (simp add: floor_div_def floor_mean_def)

lemma sample_delta_ahead:
  "int i < int (length ds) - 1 \<Longrightarrow> sample_delta ds i = Num (ds ! (Suc i))"
  by (simp add: sample_delta_def)

lemma sample_delta_done:
  "\<not> int i < int (length ds) - 1 \<Longrightarrow> sample_delta ds i = floor_mean (consumed_deltas ds i)"
  by (auto simp add: sample_delta_def)

lemma addLocation_chain:
  "parent_chain nodeMap (Some s) chain \<Longrightarrow>
   addLocation event s nodeMap =
     Some (assign_locations (map (\<lambda>n. locationFromCallFrame (node_callFrame n)) chain) event)"
  by (simp add: addLocation_def collect_locations_chain)

lemma cpu_samples_loop_some:
  "cpu_samples_loop h p nodeMap i rest count acc events = Some evs \<Longrightarrow>
   count = int (length (consumed_deltas (timeDeltas p) i)) \<Longrightarrow>
   acc = sum_list (consumed_deltas (timeDeltas p) i) \<Longrightarrow>
   length evs = length events + length rest \<and>
   (\<forall>k < length events. evs ! k = events ! k) \<and>
   (\<forall>k < length rest.
      addLocation (cpu_event h p (i + k) (sample_delta (timeDeltas p) (i + k))) (rest ! k) nodeMap
        = Some (evs ! (length events + k)))"
proof (induction rest arbitrary: i count acc events)
  case Nil
  then show ?case by simp
next
  case (Cons s rest)
  let ?ds = "timeDeltas p"
  show ?case
  proof (cases "int i < int (length ?ds) - 1")
    case True
    from Cons.prems(1) True obtain event where
      ev: "addLocation (cpu_event h p i (Num (?ds ! (i + 1)))) s nodeMap = Some event" and
      rec: "cpu_samples_loop h p nodeMap (i + 1) rest (count + 1) (acc + ?ds ! (i + 1))
              (events @ [event]) = Some evs"
      by (auto simp: Let_def split: option.splits)
    have c: "count + 1 = int (length (consumed_deltas ?ds (i + 1)))"
      using Cons.prems(2) True by (simp add: consumed_deltas_ahead)
    have a: "acc + ?ds ! (i + 1) = sum_list (consumed_deltas ?ds (i + 1))"
      using Cons.prems(3) True by (simp add: consumed_deltas_ahead)
    note IH = Cons.IH [OF rec c a]
    have len: "length evs = length (s # rest) + length events" using IH by simp
    have old: "\<forall>k < length events. evs ! k = events ! k"
      using IH by (auto simp: nth_append)
    have here: "evs ! length events = event"
      using IH by (auto simp: nth_append dest: spec [of _ "length events"])
    have "addLocation (cpu_event h p (i + k) (sample_delta ?ds (i + k))) ((s # rest) ! k) nodeMap
            = Some (evs ! (length events + k))" if "k < length (s # rest)" for k
    proof (cases k)
      case 0
      then show ?thesis using ev here True by (simp add: sample_delta_ahead)
    next
      case (Suc k')
      with that have "k' < length rest" by simp
      with IH Suc show ?thesis by simp
    qed
    with len old show ?thesis by simp
  next
    case False
    from Cons.prems(1) False obtain event where
      ev: "addLocation (cpu_event h p i (floor_div acc count)) s nodeMap = Some event" and
      rec: "cpu_samples_loop h p nodeMap (i + 1) rest count acc (events @ [event]) = Some evs"
      by (auto simp: Let_def split: option.splits)
    have c: "count = int (length (consumed_deltas ?ds (i + 1)))"
      using Cons.prems(2) False by (simp add: consumed_deltas_done)
    have a: "acc = sum_list (consumed_deltas ?ds (i + 1))"
      using Cons.prems(3) False by (simp add: consumed_deltas_done)
    note IH = Cons.IH [OF rec c a]
    have d: "floor_div acc count = sample_delta ?ds i"
      using Cons.prems(2,3) False by (simp add: sample_delta_done floor_div_mean)
    have len: "length evs = length (s # rest) + length events" using IH by simp
    have old: "\<forall>k < length events. evs ! k = events ! k"
      using IH by (auto simp: nth_append)
    have here: "evs ! length events = event"
      using IH by (auto simp: nth_append dest: spec [of _ "length events"])
    have "addLocation (cpu_event h p (i + k) (sample_delta ?ds (i + k))) ((s # rest) ! k) nodeMap
            = Some (evs ! (length events + k))" if "k < length (s # rest)" for k
    proof (cases k)
      case 0
      then show ?thesis using ev here d by simp
    next
      case (Suc k')
      with that have "k' < length rest" by simp
      with IH Suc show ?thesis by simp
    qed
    with len old show ?thesis by simp
  qed
qed

lemma cpu_samples_loop_returns:
  "(\<forall>s \<in> set rest. \<exists>chain. parent_chain nodeMap (Some s) chain) \<Longrightarrow>
   \<exists>evs. cpu_samples_loop h p nodeMap i rest count acc events = Some evs"
proof (induction rest arbitrary: i count acc events)
  case Nil
  show ?case by simp
next
  case (Cons s rest)
  then obtain chain where chain: "parent_chain nodeMap (Some s) chain" by auto
  have rest: "\<forall>s \<in> set rest. \<exists>chain. parent_chain nodeMap (Some s) chain"
    using Cons.prems by simp
  show ?case
    using Cons.IH [OF rest] by (simp add: addLocation_chain [OF chain] Let_def)
qed

lemma consumed_deltas_0: "consumed_deltas ds 0 = []"
  by (simp add: consumed_deltas_def)

lemma marshal_events:
  assumes "walks_end profile"
  shows "\<exists>events. marshalCpuProfileToEvents h profile = Some events \<and>
     length events = length (samples profile) \<and>
     (\<forall>i < length (samples profile).
        addLocation (cpu_event h profile i (sample_delta (timeDeltas profile) i))
          (samples profile ! i) (build_cpu_nodeMap (nodes profile)) = Some (events ! i))"
proof -
  let ?nm = "build_cpu_nodeMap (nodes profile)"
  from assms obtain events where
    ev: "cpu_samples_loop h profile ?nm 0 (samples profile) 0 0 [] = Some events"
    unfolding walks_end_def using cpu_samples_loop_returns by blast
  from cpu_samples_loop_some [OF ev] have
    "length events = length (samples profile) \<and>
     (\<forall>i < length (samples profile).
        addLocation (cpu_event h profile i (sample_delta (timeDeltas profile) i))
          (samples profile ! i) ?nm = Some (events ! i))"
    by (simp add: consumed_deltas_0)
  with ev show ?thesis by (simp add: marshalCpuProfileToEvents_def)
qed

lemma fixed_key_not_location:
  "''cpu_nanoseconds'' \<noteq> location_key j"
  "''sample_period_cpu_nanoseconds'' \<noteq> location_key j"
  "''harvest_seq'' \<noteq> location_key j"
  "''sample_seq'' \<noteq> location_key j"
  "''duration_ns'' \<noteq> location_key j"
  "''time_ns'' \<noteq> location_key j"
  "''samples_count'' \<noteq> location_key j"
  by (simp_all add: location_key_def)

lemma addLocation_other:
  "addLocation event s nodeMap = Some e \<Longrightarrow> (\<And>j. key \<noteq> location_key j) \<Longrightarrow> e key = event key"
  by (auto simp: addLocation_def assign_locations_other split: option.splits)

lemma cpu_event_no_location: "cpu_event h profile i delta (location_key j) = None"
  by (simp add: cpu_event_def fixed_key_not_location [symmetric])

text \<open>
  C1: when every walk to the root ends, the CPU marshaller returns one event per sample,
  and the two delta metrics of sample \<open>i\<close> are 1000 times the delta at position
  \<open>i + 1\<close> of \<open>timeDeltas\<close> when that position exists, and otherwise 1000 times
  the mean, rounded down, of the deltas consumed so far. For \<open>timeDeltas = [d0, d1, d2]\<close>
  the samples 0, 1 and 2 get \<open>d1\<close>, \<open>d2\<close> and \<open>floor ((d1 + d2) / 2)\<close>.
\<close>

theorem cpu_delta_rule:
  assumes "walks_end profile" and "i < length (samples profile)"
  shows "(\<exists>events. marshalCpuProfileToEvents h profile = Some events \<and>
      length events = length (samples profile) \<and>
      (events ! i) ''cpu_nanoseconds'' =
        Some (JNum (times1000 (sample_delta (timeDeltas profile) i))) \<and>
      (events ! i) ''sample_period_cpu_nanoseconds'' =
        Some (JNum (times1000 (sample_delta (timeDeltas profile) i)))) \<and>
    sample_delta [d0, d1, d2] 0 = Num d1 \<and>
    sample_delta [d0, d1, d2] 1 = Num d2 \<and>
    sample_delta [d0, d1, d2] 2 = Num ((d1 + d2) div 2)"
proof -
  from marshal_events [OF assms(1), of h] obtain events where
    ev: "marshalCpuProfileToEvents h profile = Some events" and
    len: "length events = length (samples profile)" and
    al: "addLocation (cpu_event h profile i (sample_delta (timeDeltas profile) i))
          (samples profile ! i) (build_cpu_nodeMap (nodes profile)) = Some (events ! i)"
    using assms(2) by blast
  have "(events ! i) ''cpu_nanoseconds'' =
        Some (JNum (times1000 (sample_delta (timeDeltas profile) i)))"
    by (simp add: addLocation_other [OF al] fixed_key_not_location cpu_event_def)
  moreover have "(events ! i) ''sample_period_cpu_nanoseconds'' =
        Some (JNum (times1000 (sample_delta (timeDeltas profile) i)))"
    by (simp add: addLocation_other [OF al] fixed_key_not_location cpu_event_def)
  moreover have "sample_delta [d0, d1, d2] 0 = Num d1 \<and>
    sample_delta [d0, d1, d2] 1 = Num d2 \<and>
    sample_delta [d0, d1, d2] 2 = Num ((d1 + d2) div 2)"
    by (simp add: sample_delta_def floor_mean_def consumed_deltas_def)
  ultimately show ?thesis using ev len by simp
qed

lemma example_nodeMap:
  "build_cpu_nodeMap (nodes example_cpu_profile) =
     [1 \<mapsto> \<lparr>node_id = 1, node_callFrame = \<lparr>functionName = ''root'', lineNumber = 0\<rparr>,
          children = Some [2], parent = None\<rparr>,
      2 \<mapsto> \<lparr>node_id = 2, node_callFrame = \<lparr>functionName = ''foo'', lineNumber = 10\<rparr>,
          children = Some [], parent = Some 1\<rparr>]"
  by (simp add: build_cpu_nodeMap_def example_cpu_profile_def fun_upd_twist)

lemma example_chain:
  "parent_chain (build_cpu_nodeMap (nodes example_cpu_profile)) (Some 2)
     [\<lparr>node_id = 2, node_callFrame = \<lparr>functionName = ''foo'', lineNumber = 10\<rparr>,
          children = Some [], parent = Some 1\<rparr>,
      \<lparr>node_id = 1, node_callFrame = \<lparr>functionName = ''root'', lineNumber = 0\<rparr>,
          children = Some [2], parent = None\<rparr>]"
  unfolding example_nodeMap
  by (rule chain_step, simp, simp, rule chain_step, simp, simp, rule chain_null)

lemma example_walks_end: "walks_end example_cpu_profile"
  unfolding walks_end_def using example_chain
  by (auto simp: example_cpu_profile_def)

text \<open>The example profile: its one sample gets the delta 15, that is 15000 ns.\<close>

theorem cpu_delta_rule_witness:
  "\<exists>events. marshalCpuProfileToEvents 7 example_cpu_profile = Some events \<and>
     length events = 1 \<and>
     (events ! 0) ''cpu_nanoseconds'' = Some (JNum (Num 15000)) \<and>
     (events ! 0) ''sample_period_cpu_nanoseconds'' = Some (JNum (Num 15000))"
proof -
  have i: "0 < length (samples example_cpu_profile)"
    by (simp add: example_cpu_profile_def)
  have d: "sample_delta (timeDeltas example_cpu_profile) 0 = Num 15"
    by (simp add: example_cpu_profile_def sample_delta_def)
  show ?thesis
    using cpu_delta_rule [OF example_walks_end i, of 7 0 0 0]
    by (simp add: d) (simp add: example_cpu_profile_def)
qed

text \<open>
  C10: when \<open>timeDeltas\<close> has fewer than two entries, no delta is ever consumed, and
  the delta metrics of every event are \<open>Math.floor(0 / 0) * 1000\<close>, which is \<open>NaN\<close>.
\<close>

theorem cpu_delta_nan_without_lookahead:
  assumes "walks_end profile" and "i < length (samples profile)"
    and "length (timeDeltas profile) < 2"
  shows "\<exists>events. marshalCpuProfileToEvents h profile = Some events \<and>
      (events ! i) ''cpu_nanoseconds'' = Some (JNum (times1000 (floor_div 0 0))) \<and>
      (events ! i) ''sample_period_cpu_nanoseconds'' = Some (JNum (times1000 (floor_div 0 0))) \<and>
      times1000 (floor_div 0 0) = NaN"
proof -
  from marshal_events [OF assms(1), of h] obtain events where
    ev: "marshalCpuProfileToEvents h profile = Some events" and
    al: "addLocation (cpu_event h profile i (sample_delta (timeDeltas profile) i))
          (samples profile ! i) (build_cpu_nodeMap (nodes profile)) = Some (events ! i)"
    using assms(2) by blast
  have "consumed_deltas (timeDeltas profile) i = []"
    using assms(3) by (simp add: consumed_deltas_def)
  then have d: "sample_delta (timeDeltas profile) i = floor_div 0 0"
    using assms(3) by (simp add: sample_delta_def floor_mean_def floor_div_def)
  have "(events ! i) ''cpu_nanoseconds'' = Some (JNum (times1000 (floor_div 0 0)))"
    by (simp add: addLocation_other [OF al] fixed_key_not_location cpu_event_def d)
  moreover have "(events ! i) ''sample_period_cpu_nanoseconds'' =
      Some (JNum (times1000 (floor_div 0 0)))"
    by (simp add: addLocation_other [OF al] fixed_key_not_location cpu_event_def d)
  moreover have "times1000 (floor_div 0 0) = NaN"
    by (simp add: floor_div_def)
  ultimately show ?thesis using ev by simp
qed

lemma walks_end_timeDeltas: "walks_end (profile\<lparr>timeDeltas := ds\<rparr>) = walks_end profile"
  by (simp add: walks_end_def)

text \<open>The example profile with the single delta 5.\<close>

theorem cpu_delta_nan_without_lookahead_witness:
  "\<exists>events. marshalCpuProfileToEvents 7 (example_cpu_profile\<lparr>timeDeltas := [5]\<rparr>) = Some events \<and>
      (events ! 0) ''cpu_nanoseconds'' = Some (JNum NaN) \<and>
      (events ! 0) ''sample_period_cpu_nanoseconds'' = Some (JNum NaN)"
proof -
  let ?p = "example_cpu_profile\<lparr>timeDeltas := [5]\<rparr>"
  have w: "walks_end ?p" by (simp add: walks_end_timeDeltas example_walks_end)
  have i: "0 < length (samples ?p)" by (simp add: example_cpu_profile_def)
  have l: "length (timeDeltas ?p) < 2" by simp
  show ?thesis
    using cpu_delta_nan_without_lookahead [OF w i l, of 7] by (simp add: floor_div_def)
qed

text \<open>
  C3: when every walk to the root ends, the \<open>location.j\<close> attributes of the event of
  sample \<open>i\<close> are the \<open>functionName:lineNumber\<close> strings of the parent chain of the
  sample's node, reversed: \<open>location.0\<close> is the root, the highest index is the sample's
  node, every index below the length of the chain is present and no other
  \<open>location.j\<close> is.
\<close>

theorem stack_attributes_follow_parent_chain:
  assumes "walks_end profile" and "i < length (samples profile)"
    and "parent_chain (build_cpu_nodeMap (nodes profile)) (Some (samples profile ! i)) chain"
  shows "\<exists>events. marshalCpuProfileToEvents h profile = Some events \<and>
      length events = length (samples profile) \<and>
      (\<forall>j < length chain. (events ! i) (location_key j) =
         Some (JStr (rev (map (\<lambda>n. locationFromCallFrame (node_callFrame n)) chain) ! j))) \<and>
      (\<forall>j \<ge> length chain. (events ! i) (location_key j) = None)"
proof -
  let ?location = "map (\<lambda>n. locationFromCallFrame (node_callFrame n)) chain"
  from marshal_events [OF assms(1), of h] obtain events where
    ev: "marshalCpuProfileToEvents h profile = Some events" and
    len: "length events = length (samples profile)" and
    al: "addLocation (cpu_event h profile i (sample_delta (timeDeltas profile) i))
          (samples profile ! i) (build_cpu_nodeMap (nodes profile)) = Some (events ! i)"
    using assms(2) by blast
  from al have e: "events ! i =
      assign_locations ?location (cpu_event h profile i (sample_delta (timeDeltas profile) i))"
    by (simp add: addLocation_chain [OF assms(3)])
  have "\<forall>j < length chain. (events ! i) (location_key j) = Some (JStr (rev ?location ! j))"
    by (simp add: e assign_locations_hit)
  moreover have "\<forall>j \<ge> length chain. (events ! i) (location_key j) = None"
    by (simp add: e assign_locations_beyond cpu_event_no_location)
  ultimately show ?thesis using ev len by simp
qed

text \<open>The example profile: \<open>location.0 = root:0\<close> and \<open>location.1 = foo:10\<close>.\<close>

theorem stack_attributes_follow_parent_chain_witness:
  "\<exists>events. marshalCpuProfileToEvents 7 example_cpu_profile = Some events \<and>
      length events = 1 \<and>
      (events ! 0) (location_key 0) = Some (JStr ''root:0'') \<and>
      (events ! 0) (location_key 1) = Some (JStr ''foo:10'') \<and>
      (events ! 0) (location_key 2) = None"
proof -
  have i: "0 < length (samples example_cpu_profile)"
    by (simp add: example_cpu_profile_def)
  have c: "parent_chain (build_cpu_nodeMap (nodes example_cpu_profile))
     (Some (samples example_cpu_profile ! 0))
     [\<lparr>node_id = 2, node_callFrame = \<lparr>functionName = ''foo'', lineNumber = 10\<rparr>,
          children = Some [], parent = Some 1\<rparr>,
      \<lparr>node_id = 1, node_callFrame = \<lparr>functionName = ''root'', lineNumber = 0\<rparr>,
          children = Some [2], parent = None\<rparr>]"
    using example_chain by (simp add: example_cpu_profile_def)
  from stack_attributes_follow_parent_chain [OF example_walks_end i c, of 7]
  obtain events where
    ev: "marshalCpuProfileToEvents 7 example_cpu_profile = Some events" and
    len: "length events = length (samples example_cpu_profile)" and
    lo: "\<forall>j < 2. (events ! 0) (location_key j) =
         Some (JStr ([''root:0'', ''foo:10''] ! j))" and
    hi: "\<forall>j \<ge> 2. (events ! 0) (location_key j) = None"
    by (auto simp: locationFromCallFrame_def show_int_def show_nat.simps digit_char_def)
  from lo have "(events ! 0) (location_key 0) = Some (JStr ''root:0'')"
    and "(events ! 0) (location_key 1) = Some (JStr ''foo:10'')"
    by (simp_all del: One_nat_def)
  moreover from hi have "(events ! 0) (location_key 2) = None" by simp
  ultimately show ?thesis using ev len by (simp add: example_cpu_profile_def)
qed

subsection \<open>The heap marshaller of the inspector variant\<close>

lemma insert_chain_Cons:
  "insert_chain (n # anc) m = m(heap_id n \<mapsto> Linked n (link_chain anc))"
  by (simp add: insert_chain_def)

lemma buildHeapNodeMap_chains_aux:
  "\<forall>n anc. parentNode = Linked n (link_chain anc) \<longrightarrow>
     buildHeapNodeMap parentNode m i =
       fold insert_chain (concat (map (chains_from (n # anc)) (drop i (heap_children n)))) m"
proof (induction parentNode m i rule: buildHeapNodeMap.induct)
  case (1 parentNode nodeMap childIndex)
  show ?case
  proof (intro allI impI)
    fix n anc
    assume p: "parentNode = Linked n (link_chain anc)"
    let ?cs = "heap_children n"
    show "buildHeapNodeMap parentNode nodeMap childIndex =
       fold insert_chain (concat (map (chains_from (n # anc)) (drop childIndex ?cs))) nodeMap"
    proof (cases "childIndex \<ge> length ?cs")
      case True
      then show ?thesis
        by (subst buildHeapNodeMap.simps) (simp add: p)
    next
      case False
      let ?c = "?cs ! childIndex"
      let ?child = "Linked ?c (Some parentNode)"
      have notge: "\<not> length (heap_children (the_node parentNode)) \<le> childIndex"
        using False p by simp
      have child: "?child = Linked ?c (link_chain (n # anc))" by (simp add: p)
      have child': "Linked (heap_children (the_node parentNode) ! childIndex) (Some parentNode) = ?child"
        by (simp add: p)
      have inner: "buildHeapNodeMap ?child (nodeMap(heap_id (the_node ?child) \<mapsto> ?child)) 0 =
          fold insert_chain (concat (map (chains_from (?c # n # anc)) (drop 0 (heap_children ?c))))
            (nodeMap(heap_id (the_node ?child) \<mapsto> ?child))"
        using "1.IH"(1) [OF notge child' [symmetric], rule_format, of ?c "n # anc"] child
        by simp
      have outer: "buildHeapNodeMap parentNode
            (buildHeapNodeMap ?child (nodeMap(heap_id (the_node ?child) \<mapsto> ?child)) 0)
            (childIndex + 1) =
          fold insert_chain (concat (map (chains_from (n # anc)) (drop (childIndex + 1) ?cs)))
            (buildHeapNodeMap ?child (nodeMap(heap_id (the_node ?child) \<mapsto> ?child)) 0)"
        using "1.IH"(2) [OF notge child' [symmetric], rule_format, of n anc] p by simp
      have ins: "nodeMap(heap_id (the_node ?child) \<mapsto> ?child) = insert_chain (?c # n # anc) nodeMap"
        by (simp add: insert_chain_Cons p)
      have d: "drop childIndex ?cs = ?c # drop (childIndex + 1) ?cs"
        using False by (simp add: Cons_nth_drop_Suc)
      have "buildHeapNodeMap parentNode nodeMap childIndex =
          buildHeapNodeMap parentNode
            (buildHeapNodeMap ?child (nodeMap(heap_id (the_node ?child) \<mapsto> ?child)) 0)
            (childIndex + 1)"
        using False by (subst buildHeapNodeMap.simps) (simp add: p Let_def)
      also note outer
      also note inner
      also note ins
      finally show ?thesis
        by (simp add: d chains_from.simps [of "n # anc" ?c])
    qed
  qed
qed

lemma chains_from_nonempty: "c \<in> set (chains_from anc n) \<Longrightarrow> c \<noteq> []"
proof (induction anc n arbitrary: c rule: chains_from.induct)
  case (1 ancestors n)
  from "1.prems" show ?case
    by (subst (asm) chains_from.simps) (auto dest: "1.IH")
qed

lemma build_heap_nodeMap_chains:
  "build_heap_nodeMap hd_node = fold insert_chain (chains_from [] hd_node) Map.empty"
proof -
  have "buildHeapNodeMap (Linked hd_node (link_chain [])) [heap_id hd_node \<mapsto> Linked hd_node None] 0 =
      fold insert_chain (concat (map (chains_from [hd_node]) (drop 0 (heap_children hd_node))))
        [heap_id hd_node \<mapsto> Linked hd_node None]"
    using buildHeapNodeMap_chains_aux by blast
  then show ?thesis
    by (simp add: build_heap_nodeMap_def chains_from.simps [of "[]" hd_node] insert_chain_Cons)
qed

lemma fold_insert_chain_lookup:
  "\<forall>c \<in> set cs. c \<noteq> [] \<Longrightarrow>
   fold insert_chain cs m i =
     (case find (\<lambda>c. chain_id c = i) (rev cs) of None \<Rightarrow> m i | Some c \<Rightarrow> link_chain c)"
proof (induction cs rule: rev_induct)
  case Nil
  show ?case by simp
next
  case (snoc c cs)
  then obtain n anc where c: "c = n # anc" by (cases c) auto
  from snoc show ?case by (simp add: c insert_chain_Cons)
qed

lemma add_selfSizes_chain:
  "add_selfSizes (link_chain c) acc = acc + sum_list (map selfSize c)"
  by (induction c arbitrary: acc) simp_all

lemma calculateInclusiveSize_chain:
  "calculateInclusiveSize i (build_heap_nodeMap hd_node) =
     (case chain_of hd_node i of None \<Rightarrow> 0 | Some c \<Rightarrow> sum_list (map selfSize c))"
proof -
  have "build_heap_nodeMap hd_node i =
      (case chain_of hd_node i of None \<Rightarrow> None | Some c \<Rightarrow> link_chain c)"
    unfolding build_heap_nodeMap_chains chain_of_def
    by (subst fold_insert_chain_lookup) (auto dest: chains_from_nonempty)
  then show ?thesis
    by (simp add: calculateInclusiveSize_def add_selfSizes_chain split: option.splits)
qed

lemma heap_samples_loop_length:
  "length (heap_samples_loop h st now nm n i rest events) = length events + length rest"
  by (induction rest arbitrary: i events) (simp_all add: Let_def)

lemma heap_samples_loop_nth:
  "k < length rest \<Longrightarrow>
   heap_samples_loop h st now nm n i rest events ! (length events + k) =
     heap_addLocation
       (heap_event h st (now (i + k)) n (i + k)
          (calculateInclusiveSize (sample_nodeId (rest ! k)) nm))
       (sample_nodeId (rest ! k)) nm"
proof -
  have old: "j < length events \<Longrightarrow>
      heap_samples_loop h st now nm n i rest events ! j = events ! j" for j i rest events
  proof (induction rest arbitrary: i events)
    case Nil
    show ?case by simp
  next
    case (Cons s rest)
    from Cons.prems show ?case by (simp add: Let_def Cons.IH nth_append)
  qed
  show "k < length rest \<Longrightarrow> ?thesis"
  proof (induction rest arbitrary: i events k)
    case Nil
    then show ?case by simp
  next
    case (Cons s rest)
    show ?case
    proof (cases k)
      case 0
      then show ?thesis by (simp add: Let_def old)
    next
      case (Suc k')
      with Cons.prems have "k' < length rest" by simp
      from Cons.IH [OF this, of "i + 1" "events @ [heap_addLocation
          (heap_event h st (now i) n i (calculateInclusiveSize (sample_nodeId s) nm))
          (sample_nodeId s) nm]"]
      show ?thesis by (simp add: Let_def Suc)
    qed
  qed
qed

lemma heap_children_increase:
  "heap_children (increase_selfSize t d n) = map (increase_selfSize t d) (heap_children n)"
  by (cases n) simp

lemma heap_id_increase: "heap_id (increase_selfSize t d n) = heap_id n"
  by (cases n) simp

lemma selfSize_increase:
  "selfSize (increase_selfSize t d n) = selfSize n + (if heap_id n = t then d else 0)"
  by (cases n) simp

lemma chains_from_increase:
  "chains_from (map (increase_selfSize t d) anc) (increase_selfSize t d n) =
     map (map (increase_selfSize t d)) (chains_from anc n)"
proof (induction anc n rule: chains_from.induct)
  case (1 ancestors n)
  have "concat (map (chains_from (increase_selfSize t d n # map (increase_selfSize t d) ancestors))
          (map (increase_selfSize t d) (heap_children n))) =
        map (map (increase_selfSize t d)) (concat (map (chains_from (n # ancestors)) (heap_children n)))"
    using "1.IH" by (simp add: map_concat comp_def cong: map_cong)
  then show ?case
    by (simp add: chains_from.simps [of _ "increase_selfSize t d n"] chains_from.simps [of _ n]
        heap_children_increase)
qed

lemma chain_id_increase: "chain_id (map (increase_selfSize t d) c) = chain_id c"
  by (cases c) (simp_all add: heap_id_increase)

lemma find_map_same:
  "(\<And>x. P (f x) = P x) \<Longrightarrow> find P (map f xs) = map_option f (find P xs)"
  by (induction xs) simp_all

lemma chain_of_increase:
  "chain_of (increase_selfSize t d hd_node) i =
     map_option (map (increase_selfSize t d)) (chain_of hd_node i)"
proof -
  have "chains_from [] (increase_selfSize t d hd_node) =
      map (map (increase_selfSize t d)) (chains_from [] hd_node)"
    using chains_from_increase [of t d "[]" hd_node] by simp
  then show ?thesis
    by (simp add: chain_of_def rev_map chain_id_increase
        find_map_same [where P = "\<lambda>c. chain_id c = i"])
qed

lemma sum_selfSize_increase:
  "sum_list (map (selfSize \<circ> increase_selfSize t d) c) =
     sum_list (map selfSize c) + d * int (length (filter (\<lambda>n. heap_id n = t) c))"
  by (induction c) (simp_all add: selfSize_increase algebra_simps)

lemma chains_from_path:
  "child_linked (n # anc) \<Longrightarrow> c \<in> set (chains_from anc n) \<Longrightarrow>
   child_linked c \<and> last c = last (n # anc)"
proof (induction anc n arbitrary: c rule: chains_from.induct)
  case (1 ancestors n)
  from "1.prems"(2) consider "c = n # ancestors"
    | x where "x \<in> set (heap_children n)" "c \<in> set (chains_from (n # ancestors) x)"
    by (subst (asm) chains_from.simps) auto
  then show ?case
  proof cases
    case 1
    with "1.prems"(1) show ?thesis by simp
  next
    case 2
    have "child_linked (x # n # ancestors)" using 2(1) "1.prems"(1) by simp
    from "1.IH" [OF 2(1) this 2(2)] show ?thesis by simp
  qed
qed

lemma find_Some_mem: "find P xs = Some x \<Longrightarrow> x \<in> set xs \<and> P x"
  by (induction xs) (auto split: if_splits)

lemma chain_of_path:
  assumes "chain_of hd_node i = Some c"
  shows "chain_id c = i \<and> child_linked c \<and> last c = hd_node"
proof -
  from assms have "c \<in> set (chains_from [] hd_node)" and "chain_id c = i"
    by (auto simp: chain_of_def dest: find_Some_mem)
  with chains_from_path [of hd_node "[]" c] show ?thesis by simp
qed

lemma heap_fixed_key_not_location:
  "''inuse_space_bytes'' \<noteq> location_key j"
  "''sample_period_inuse_space_bytes'' \<noteq> location_key j"
  by (simp_all add: location_key_def)

lemma heap_event_size:
  "heap_addLocation (heap_event h st e n i sz) s nm ''inuse_space_bytes'' = Some (JNum (Num sz))"
  "heap_addLocation (heap_event h st e n i sz) s nm ''sample_period_inuse_space_bytes'' =
     Some (JNum (Num sz))"
  by (simp_all add: heap_addLocation_def assign_locations_other heap_fixed_key_not_location
      heap_event_def)

lemma marshalHeap_nth:
  "i < length (heap_samples profile) \<Longrightarrow>
   marshalHeapSamplingProfileToEvents h st now profile ! i =
     heap_addLocation
       (heap_event h st (now i) (length (heap_samples profile)) i
          (calculateInclusiveSize (sample_nodeId (heap_samples profile ! i))
             (build_heap_nodeMap (head profile))))
       (sample_nodeId (heap_samples profile ! i)) (build_heap_nodeMap (head profile))"
  using heap_samples_loop_nth [of i "heap_samples profile" h st now _ _ 0 "[]"]
  by (simp add: marshalHeapSamplingProfileToEvents_def)

text \<open>
  C2: let \<open>chain\<close> be the chain of the node that the node map holds for the id of
  sample \<open>i\<close>: it starts at that node, every node of it is a child of the next, and it
  ends at the head. Then both size attributes of the sample's event are the sum of
  \<open>selfSize\<close> over the chain, and adding \<open>d\<close> to the \<open>selfSize\<close> of the one node
  of the chain with id \<open>t\<close> adds exactly \<open>d\<close> to the size.
\<close>

theorem heap_inclusive_size:
  assumes "i < length (heap_samples profile)"
    and "chain_of (head profile) (sample_nodeId (heap_samples profile ! i)) = Some chain"
  shows "chain_id chain = sample_nodeId (heap_samples profile ! i) \<and>
    child_linked chain \<and> last chain = head profile \<and>
    (marshalHeapSamplingProfileToEvents h st now profile ! i) ''inuse_space_bytes'' =
      Some (JNum (Num (sum_list (map selfSize chain)))) \<and>
    (marshalHeapSamplingProfileToEvents h st now profile ! i) ''sample_period_inuse_space_bytes'' =
      Some (JNum (Num (sum_list (map selfSize chain)))) \<and>
    (length (filter (\<lambda>n. heap_id n = t) chain) = 1 \<longrightarrow>
      (marshalHeapSamplingProfileToEvents h st now
         (profile\<lparr>head := increase_selfSize t d (head profile)\<rparr>) ! i) ''inuse_space_bytes'' =
        Some (JNum (Num (sum_list (map selfSize chain) + d))))"
proof -
  let ?s = "sample_nodeId (heap_samples profile ! i)"
  have sz: "calculateInclusiveSize ?s (build_heap_nodeMap (head profile)) =
      sum_list (map selfSize chain)"
    by (simp add: calculateInclusiveSize_chain assms(2))
  have sz': "calculateInclusiveSize ?s (build_heap_nodeMap (increase_selfSize t d (head profile))) =
      sum_list (map selfSize chain) + d * int (length (filter (\<lambda>n. heap_id n = t) chain))"
    by (simp add: calculateInclusiveSize_chain chain_of_increase assms(2) sum_selfSize_increase)
  have i': "i < length (heap_samples (profile\<lparr>head := increase_selfSize t d (head profile)\<rparr>))"
    using assms(1) by simp
  show ?thesis
    using chain_of_path [OF assms(2)]
    by (simp add: marshalHeap_nth [OF assms(1)] marshalHeap_nth [OF i'] heap_event_size sz sz')
qed

text \<open>
  The example tree: the sample at node 4 has the size \<open>40 + 20 + 10\<close>, and 5 more when
  5 is added to its ancestor 2.
\<close>

theorem heap_inclusive_size_witness:
  "(marshalHeapSamplingProfileToEvents 0 0 (\<lambda>i. 5) example_heap_profile ! 0) ''inuse_space_bytes'' =
      Some (JNum (Num 70)) \<and>
   (marshalHeapSamplingProfileToEvents 0 0 (\<lambda>i. 5)
      (example_heap_profile\<lparr>head := increase_selfSize 2 5 (head example_heap_profile)\<rparr>) ! 0)
      ''inuse_space_bytes'' = Some (JNum (Num 75))"
proof -
  let ?c = "HeapNode 4 40 \<lparr>functionName = ''c'', lineNumber = 7\<rparr> []"
  let ?a = "HeapNode 2 20 \<lparr>functionName = ''a'', lineNumber = 3\<rparr> [?c]"
  have i: "0 < length (heap_samples example_heap_profile)"
    by (simp add: example_heap_profile_def)
  have c: "chain_of (head example_heap_profile)
      (sample_nodeId (heap_samples example_heap_profile ! 0)) =
      Some [?c, ?a, head example_heap_profile]"
    by (simp add: example_heap_profile_def chain_of_def chains_from.simps)
  show ?thesis
    using heap_inclusive_size [OF i c, of 0 0 "\<lambda>i. 5" 2 5]
    by (simp add: example_heap_profile_def)
qed

subsection \<open>Recording samples in the pprof variant\<close>

lemma replace_first_underscore:
  "CHR ''_'' \<in> set s \<Longrightarrow> CHR ''_'' \<in> set (replace_first s)"
  by (induction s) auto

lemma value_type_name_underscore: "CHR ''_'' \<in> set (value_type_name prof vt)"
  by (simp add: value_type_name_def normalizeAttrNameFromSampleValueType_def
      replace_first_underscore)

lemma sample_key_not_location: "sample_key prof j \<noteq> location_key N"
proof
  assume "sample_key prof j = location_key N"
  moreover have "CHR ''_'' \<in> set (sample_key prof j)"
    by (simp add: sample_key_def value_type_name_underscore)
  ultimately show False
    using location_key_no_underscore [of N] by simp
qed

lemma location_key_not_sample_key: "location_key N \<noteq> sample_key prof j"
  using sample_key_not_location [of prof j N] by simp

lemma sample_seq_not_location: "''sample_seq'' \<noteq> location_key N"
  by (simp add: location_key_def)

lemma set_property_apply:
  "set_property key val obj k =
     (if k = key \<and> key \<noteq> ''__proto__'' then Some val else obj k)"
  by (simp add: set_property_def)

lemma write_values_Inr:
  "write_values prof xs j attrs u v = Inr (attrs', u') \<Longrightarrow>
   (\<forall>j' \<in> {j ..< j + length xs}. j' < length (sampleType prof)) \<and>
   (\<forall>k. k \<notin> sample_key prof ` {j ..< j + length xs} \<or> k = ''__proto__'' \<longrightarrow>
        attrs' k = attrs k \<and> u' k = u k) \<and>
   (\<forall>k \<in> sample_key prof ` {j ..< j + length xs}.
        k \<noteq> ''__proto__'' \<longrightarrow> u' k = Some v \<and> attrs' k \<noteq> None)"
proof (induction xs arbitrary: j attrs u)
  case Nil
  then show ?case by simp
next
  case (Cons x xs)
  let ?a = "set_property (sample_key prof j) (JNum (Num x)) attrs"
  let ?u = "set_property (sample_key prof j) v u"
  from Cons.prems have j: "j < length (sampleType prof)"
    and rec: "write_values prof xs (Suc j) ?a ?u v = Inr (attrs', u')"
    by (auto split: if_splits)
  note IH = Cons.IH [OF rec]
  have split: "{j ..< j + length (x # xs)} = insert j {Suc j ..< Suc j + length xs}"
    by auto
  have a: "\<forall>j' \<in> {j ..< j + length (x # xs)}. j' < length (sampleType prof)"
    unfolding split using IH j by simp
  have b: "attrs' k = attrs k \<and> u' k = u k"
    if "k \<notin> sample_key prof ` {j ..< j + length (x # xs)} \<or> k = ''__proto__''" for k
  proof -
    from that have "k \<noteq> sample_key prof j \<or> k = ''__proto__''"
      and "k \<notin> sample_key prof ` {Suc j ..< Suc j + length xs} \<or> k = ''__proto__''"
      unfolding split by auto
    with IH have "attrs' k = ?a k \<and> u' k = ?u k" and "?a k = attrs k \<and> ?u k = u k"
      by (auto simp: set_property_apply)
    then show ?thesis by simp
  qed
  have c: "u' k = Some v \<and> attrs' k \<noteq> None"
    if "k \<in> sample_key prof ` {j ..< j + length (x # xs)}" and "k \<noteq> ''__proto__''" for k
  proof (cases "k \<in> sample_key prof ` {Suc j ..< Suc j + length xs}")
    case True
    with IH that(2) show ?thesis by blast
  next
    case False
    with that have k: "k = sample_key prof j" unfolding split by auto
    from IH False have "attrs' k = ?a k \<and> u' k = ?u k" by blast
    with k that(2) show ?thesis by (simp add: set_property_apply)
  qed
  from a b c show ?case by blast
qed

lemma write_locations_frame:
  "(\<And>N. j \<le> N \<Longrightarrow> N < j + length ids \<Longrightarrow> k \<noteq> location_key N) \<Longrightarrow>
   write_locations prof ids j attrs k = attrs k"
proof (induction ids arbitrary: j attrs)
  case Nil
  show ?case by simp
next
  case (Cons lid rest)
  have here: "k \<noteq> location_key j" using Cons.prems [of j] by simp
  have later: "\<And>N. Suc j \<le> N \<Longrightarrow> N < Suc j + length rest \<Longrightarrow> k \<noteq> location_key N"
    using Cons.prems by simp
  show ?case
    using here by (simp add: Cons.IH [OF later] split: option.splits list.splits)
qed

lemma delete_location_apply:
  "delete_location j attrs k = (if k = location_key j then None else attrs k)"
  by (simp add: delete_location_def)

lemma fold_delete_location:
  "fold delete_location ns attrs k = (if k \<in> location_key ` set ns then None else attrs k)"
proof (induction ns arbitrary: attrs)
  case Nil
  show ?case by simp
next
  case (Cons n ns)
  have "fold delete_location (n # ns) attrs k = fold delete_location ns (delete_location n attrs) k"
    by simp
  also have "\<dots> = (if k \<in> location_key ` set ns then None else delete_location n attrs k)"
    by (rule Cons.IH)
  also have "\<dots> = (if k \<in> location_key ` set (n # ns) then None else attrs k)"
    by (auto simp only: delete_location_apply list.set image_insert insert_iff split: if_splits)
  finally show ?case .
qed

lemma clear_stale_locations_apply:
  "clear_stale_locations len prevLoc attrs k =
     (if k \<in> location_key ` {len ..< prevLoc} then None else attrs k)"
  by (simp only: clear_stale_locations_def fold_delete_location set_upt)

lemma cleanupKeys_attrs:
  "cleanupKeys attrs keys val = (attrs', keys', v') \<Longrightarrow> attrs k = None \<Longrightarrow> attrs' k = None"
  by (auto simp: cleanupKeys_def split: option.splits)

lemma sample_step_locations:
  assumes "sample_step prof i smp st = Inr st'"
    and "\<forall>N \<ge> st_prevLoc st. st_attrs st (location_key N) = None"
  shows "(\<forall>N \<ge> length (locationId smp). st_attrs st' (location_key N) = None) \<and>
    st_prevLoc st' = length (locationId smp)"
proof -
  from assms(1) obtain attrs2 u2 attrs3 u3 v' where
    wv: "write_values prof (sample_values smp) 0
           ((st_attrs st)(''sample_seq'' \<mapsto> JNum (Num (int i)))) (st_u st) (st_v st) = Inr (attrs2, u2)"
    and cl: "cleanupKeys attrs2 u2 (st_v st) = (attrs3, u3, v')"
    and st': "st' = \<lparr>st_attrs =
                      clear_stale_locations (length (locationId smp)) (st_prevLoc st)
                        (write_locations prof (locationId smp) 0 attrs3),
                    st_u = u3, st_v = v', st_prevLoc = length (locationId smp)\<rparr>"
    by (auto simp: sample_step_def split: sum.splits prod.splits)
  have "st_attrs st' (location_key N) = None" if N: "N \<ge> length (locationId smp)" for N
  proof (cases "N < st_prevLoc st")
    case True
    with N show ?thesis by (simp add: st' clear_stale_locations_apply)
  next
    case False
    then have "st_attrs st (location_key N) = None" using assms(2) by simp
    then have "((st_attrs st)(''sample_seq'' \<mapsto> JNum (Num (int i)))) (location_key N) = None"
      using sample_seq_not_location [of N] by simp
    moreover have "location_key N \<notin> sample_key prof ` {0 ..< 0 + length (sample_values smp)}"
      by (auto simp: location_key_not_sample_key)
    ultimately have "attrs2 (location_key N) = None"
      using write_values_Inr [OF wv] by simp
    then have "attrs3 (location_key N) = None" by (rule cleanupKeys_attrs [OF cl])
    moreover have "write_locations prof (locationId smp) 0 attrs3 (location_key N) =
        attrs3 (location_key N)"
      using N by (intro write_locations_frame) (simp add: location_key_inj)
    ultimately show ?thesis
      by (simp add: st' clear_stale_locations_apply)
  qed
  then show ?thesis by (simp add: st')
qed

lemma samples_loop_invariant:
  assumes step: "\<forall>done smp st st'. Inv done st \<longrightarrow>
      sample_step prof (length done) smp st = Inr st' \<longrightarrow>
      Inv (done @ [smp]) st' \<and> Q done smp (st_attrs st')"
  shows "Inv done st \<Longrightarrow>
    length (fst (samples_loop prof dest (length done) rest st emitted)) \<le> length emitted + length rest \<and>
    (\<forall>k < length emitted.
       fst (samples_loop prof dest (length done) rest st emitted) ! k = emitted ! k) \<and>
    (dest = DESTINATION_TYPE_INGEST_MELT \<longrightarrow>
      (\<forall>k. length emitted + k < length (fst (samples_loop prof dest (length done) rest st emitted)) \<longrightarrow>
         Q (done @ take k rest) (rest ! k)
           (fst (samples_loop prof dest (length done) rest st emitted) ! (length emitted + k)))) \<and>
    (dest \<noteq> DESTINATION_TYPE_INGEST_MELT \<longrightarrow>
      fst (samples_loop prof dest (length done) rest st emitted) = emitted)"
proof (induction rest arbitrary: "done" st emitted)
  case Nil
  show ?case by simp
next
  case (Cons smp rest)
  show ?case
  proof (cases "sample_step prof (length done) smp st")
    case (Inl e)
    then show ?thesis by simp
  next
    case (Inr st')
    from step Cons.prems Inr have inv': "Inv (done @ [smp]) st'"
      and q: "Q done smp (st_attrs st')" by blast+
    let ?em = "if dest = DESTINATION_TYPE_INGEST_MELT then emitted @ [st_attrs st'] else emitted"
    let ?out = "fst (samples_loop prof dest (length (done @ [smp])) rest st' ?em)"
    have out: "fst (samples_loop prof dest (length done) (smp # rest) st emitted) = ?out"
      using Inr by simp
    note IH = Cons.IH [OF inv', of ?em]
    show ?thesis
    proof (cases "dest = DESTINATION_TYPE_INGEST_MELT")
      case False
      with IH show ?thesis unfolding out by simp
    next
      case True
      have len: "length ?out \<le> length emitted + length (smp # rest)"
        using IH True by simp
      have old: "\<forall>k < length emitted. ?out ! k = emitted ! k"
        using IH True by (auto simp: nth_append)
      have here: "?out ! length emitted = st_attrs st'"
        using IH True by (auto simp: nth_append dest: spec [of _ "length emitted"])
      have new: "Q (done @ take k (smp # rest)) ((smp # rest) ! k) (?out ! (length emitted + k))"
        if "length emitted + k < length ?out" for k
      proof (cases k)
        case 0
        with q here show ?thesis by simp
      next
        case (Suc k')
        with that True have "length ?em + k' < length ?out" by simp
        with IH True have "Q ((done @ [smp]) @ take k' rest) (rest ! k')
            (?out ! (length ?em + k'))" by blast
        with Suc True show ?thesis by simp
      qed
      from len old new True show ?thesis unfolding out by blast
    qed
  qed
qed

lemma locations_phase_frame:
  "(\<And>N. k \<noteq> location_key N) \<Longrightarrow>
   clear_stale_locations len prevLoc (write_locations prof ids 0 attrs) k = attrs k"
  by (auto simp: clear_stale_locations_apply write_locations_frame)

lemma recordSamples_invariant:
  assumes step: "\<forall>done smp st st'. Inv done st \<longrightarrow>
      sample_step prof (length done) smp st = Inr st' \<longrightarrow>
      Inv (done @ [smp]) st' \<and> Q done smp (st_attrs st')"
    and init: "Inv [] \<lparr>st_attrs = initial_attrs hseq prof, st_u = Map.empty, st_v = 0,
      st_prevLoc = 0\<rparr>"
    and i: "i < length (fst (recordSamples hseq prof dest))"
  shows "i < length (profile_samples prof) \<and>
    Q (take i (profile_samples prof)) (profile_samples prof ! i)
      (fst (recordSamples hseq prof dest) ! i)"
proof -
  let ?st0 = "\<lparr>st_attrs = initial_attrs hseq prof, st_u = Map.empty, st_v = 0,
      st_prevLoc = 0\<rparr>"
  note loop = samples_loop_invariant [where Inv = Inv and Q = Q and ?done = "[]" and st = ?st0
      and emitted = "[]" and rest = "profile_samples prof" and prof = prof and dest = dest,
      OF step init]
  have melt: "dest = DESTINATION_TYPE_INGEST_MELT"
    using loop i by (auto simp: recordSamples_def)
  from loop i have "i < length (profile_samples prof)"
    by (simp add: recordSamples_def)
  moreover from loop melt i have
    "Q (take i (profile_samples prof)) (profile_samples prof ! i)
      (fst (recordSamples hseq prof dest) ! i)"
    by (simp add: recordSamples_def)
  ultimately show ?thesis by simp
qed

text \<open>
  C4: the \<open>i\<close>-th record emitted by \<open>_recordSamples\<close> is the record of sample \<open>i\<close>,
  and it has no \<open>location.N\<close> key for any \<open>N\<close> from the number of locations of that
  sample on, whatever the samples before it were: the keys a deeper earlier sample left
  on the reused record have been deleted.
\<close>

theorem no_stale_location_keys:
  assumes "i < length (fst (recordSamples hseq prof dest))"
    and "N \<ge> length (locationId (profile_samples prof ! i))"
  shows "i < length (profile_samples prof) \<and>
    (fst (recordSamples hseq prof dest) ! i) (location_key N) = None"
proof -
  let ?Inv = "\<lambda>(done :: pprof_sample list) st.
      \<forall>N \<ge> st_prevLoc st. st_attrs st (location_key N) = None"
  let ?Q = "\<lambda>(done :: pprof_sample list) smp (a :: attrs).
      \<forall>N \<ge> length (locationId smp). a (location_key N) = None"
  have init: "?Inv [] \<lparr>st_attrs = initial_attrs hseq prof, st_u = Map.empty, st_v = 0,
      st_prevLoc = 0\<rparr>"
    by (simp add: initial_attrs_def location_key_def)
  have step: "\<forall>done smp st st'. ?Inv done st \<longrightarrow>
      sample_step prof (length done) smp st = Inr st' \<longrightarrow>
      ?Inv (done @ [smp]) st' \<and> ?Q done smp (st_attrs st')"
    using sample_step_locations by simp
  from recordSamples_invariant [where Inv = ?Inv and Q = ?Q, OF step init assms(1)] assms(2)
  show ?thesis by simp
qed

lemma example_run:
  "length (fst (recordSamples 4 example_pprof_profile DESTINATION_TYPE_INGEST_MELT)) = 2"
  by (simp add: recordSamples_def example_pprof_profile_def sample_step_def
      DESTINATION_TYPE_INGEST_MELT_def cleanupKeys_def sample_key_def)

lemma example_keys:
  "sample_key example_pprof_profile 0 = ''cpu_nanoseconds''"
  "sample_key example_pprof_profile 1 = ''wall_count''"
  by (simp_all add: sample_key_def example_pprof_profile_def value_type_name_def getString_def
      template_str_def normalizeAttrNameFromSampleValueType_def Letter_def White_Space_def)

lemma example_first_record:
  "(fst (recordSamples 4 example_pprof_profile DESTINATION_TYPE_INGEST_MELT) ! 0) (location_key 1) =
     Some (JStr ''work:8'')"
  by (simp add: recordSamples_def example_pprof_profile_def sample_step_def
      DESTINATION_TYPE_INGEST_MELT_def cleanupKeys_def sample_key_def
      clear_stale_locations_def getLocation_def locationFromLine_def getString_def
      template_str_def show_int_def show_nat.simps digit_char_def location_key_def)

text \<open>
  The example profile: the first record has \<open>location.1\<close>, the second sample has one
  location only and its record has no \<open>location.1\<close>.
\<close>

theorem no_stale_location_keys_witness:
  "(fst (recordSamples 4 example_pprof_profile DESTINATION_TYPE_INGEST_MELT) ! 0) (location_key 1) =
     Some (JStr ''work:8'') \<and>
   (fst (recordSamples 4 example_pprof_profile DESTINATION_TYPE_INGEST_MELT) ! 1) (location_key 1) = None"
proof -
  have i: "1 < length (fst (recordSamples 4 example_pprof_profile DESTINATION_TYPE_INGEST_MELT))"
    by (simp add: example_run)
  have n: "1 \<ge> length (locationId (profile_samples example_pprof_profile ! 1))"
    by (simp add: example_pprof_profile_def)
  from no_stale_location_keys [OF i n] example_first_record show ?thesis by simp
qed



















subsection \<open>Harvests of the pprof variant\<close>

lemma collectCpuSamples_frame:
  "harvestSeq (after (collectCpuSamples st env)) = harvestSeq st"
  "destination (after (collectCpuSamples st env)) = destination st"
  "selectedProfiles (after (collectCpuSamples st env)) = selectedProfiles st"
  by (simp_all add: collectCpuSamples_def returns_def throws_def Let_def
      split: sum.splits option.splits prod.splits)

lemma collectHeapSamples_frame:
  "harvestSeq (after (collectHeapSamples st env)) = harvestSeq st"
  "destination (after (collectHeapSamples st env)) = destination st"
  "selectedProfiles (after (collectHeapSamples st env)) = selectedProfiles st"
  by (simp_all add: collectHeapSamples_def returns_def throws_def Let_def
      split: sum.splits option.splits prod.splits)

lemma count_harvest_harvestSeq:
  "harvestSeq (after (count_harvest out)) =
     (if completed (count_harvest out) then harvestSeq (after out) + 1 else harvestSeq (after out))"
  by (simp add: count_harvest_def completed_def split: option.splits)

lemma fire_harvestSeq:
  "harvestSeq (after (fire st t)) =
     (if completed (fire st t) then harvestSeq st + 1 else harvestSeq st)"
  by (cases t)
    (simp_all add: harvestCpuSamples_def harvestHeapSamples_def count_harvest_harvestSeq
      collectCpuSamples_frame collectHeapSamples_frame)

lemma state_after_harvestSeq:
  "harvestSeq (state_after st ts) = harvestSeq st + length (filter completed (run_timers st ts))"
  by (induction ts arbitrary: st) (simp_all add: fire_harvestSeq)

lemma fixed_key_not_location2:
  "''harvest_seq'' \<noteq> location_key N"
  by (simp add: location_key_def)

lemma sample_step_harvest_seq:
  assumes step: "sample_step prof i smp st = Inr st'"
    and keys: "\<forall>j < length (sampleType prof). sample_key prof j \<noteq> ''harvest_seq''"
    and inv: "st_attrs st ''harvest_seq'' = Some x \<and> st_u st ''harvest_seq'' = None"
  shows "st_attrs st' ''harvest_seq'' = Some x \<and> st_u st' ''harvest_seq'' = None"
proof -
  let ?k = "''harvest_seq''"
  let ?a1 = "(st_attrs st)(''sample_seq'' \<mapsto> JNum (Num (int i)))"
  from step obtain attrs2 u2 attrs3 u3 v' where
    wv: "write_values prof (sample_values smp) 0 ?a1 (st_u st) (st_v st) = Inr (attrs2, u2)"
    and cl: "cleanupKeys attrs2 u2 (st_v st) = (attrs3, u3, v')"
    and st': "st' = \<lparr>st_attrs =
                      clear_stale_locations (length (locationId smp)) (st_prevLoc st)
                        (write_locations prof (locationId smp) 0 attrs3),
                    st_u = u3, st_v = v', st_prevLoc = length (locationId smp)\<rparr>"
    by (auto simp: sample_step_def split: sum.splits prod.splits)
  note w = write_values_Inr [OF wv]
  have "?k \<notin> sample_key prof ` {0 ..< 0 + length (sample_values smp)}"
  proof
    assume "?k \<in> sample_key prof ` {0 ..< 0 + length (sample_values smp)}"
    then obtain j where j: "j \<in> {0 ..< 0 + length (sample_values smp)}" and "?k = sample_key prof j"
      by blast
    moreover from w j have "j < length (sampleType prof)" by blast
    ultimately show False using keys by metis
  qed
  with w have "attrs2 ?k = ?a1 ?k" and u2: "u2 ?k = st_u st ?k" by blast+
  then have a2: "attrs2 ?k = Some x" using inv by simp
  from cl u2 inv a2 have a3: "attrs3 ?k = Some x" and u3: "u3 ?k = None"
    by (auto simp: cleanupKeys_def)
  have "st_attrs st' ?k = attrs3 ?k"
    by (simp add: st' locations_phase_frame fixed_key_not_location2)
  with a3 u3 show ?thesis by (simp add: st')
qed

lemma recordSamples_harvest_seq:
  assumes keys: "\<forall>j < length (sampleType prof). sample_key prof j \<noteq> ''harvest_seq''"
    and i: "i < length (fst (recordSamples hseq prof dest))"
  shows "(fst (recordSamples hseq prof dest) ! i) ''harvest_seq'' = Some (JNum (Num hseq))"
proof -
  let ?Inv = "\<lambda>(done :: pprof_sample list) st.
      st_attrs st ''harvest_seq'' = Some (JNum (Num hseq)) \<and> st_u st ''harvest_seq'' = None"
  let ?Q = "\<lambda>(done :: pprof_sample list) (smp :: pprof_sample) (a :: attrs).
      a ''harvest_seq'' = Some (JNum (Num hseq))"
  have init: "?Inv [] \<lparr>st_attrs = initial_attrs hseq prof, st_u = Map.empty, st_v = 0,
      st_prevLoc = 0\<rparr>"
    by (simp add: initial_attrs_def)
  have step: "\<forall>done smp st st'. ?Inv done st \<longrightarrow>
      sample_step prof (length done) smp st = Inr st' \<longrightarrow>
      ?Inv (done @ [smp]) st' \<and> ?Q done smp (st_attrs st')"
    using sample_step_harvest_seq [OF _ keys] by blast
  from recordSamples_invariant [where Inv = ?Inv and Q = ?Q, OF step init i]
  show ?thesis by simp
qed

lemma example_started:
  "example_melt_profiler =
     \<lparr>harvestSeq = 0, selectedProfiles = 3, destination = DESTINATION_TYPE_INGEST_MELT,
      outputDirectory = ''/out'', cpuFile = None, heapFile = None, cpuTimer = True,
      heapTimer = True, time_started = True, heap_started = True\<rparr>"
  by (simp add: example_melt_profiler_def start_def start_cpu_def start_heap_def
      new_profiler_def no_start_errors_def returns_def scheduleHarvests_def
      PROFILING_TYPE_CPU_def PROFILING_TYPE_HEAP_def DESTINATION_TYPE_INGEST_MELT_def
      DESTINATION_TYPE_LOCAL_FILE_def)

lemma example_profile_records:
  "length (fst (recordSamples hseq example_pprof_profile DESTINATION_TYPE_INGEST_MELT)) = 2"
  "snd (recordSamples hseq example_pprof_profile DESTINATION_TYPE_INGEST_MELT) = None"
  by (simp_all add: recordSamples_def example_pprof_profile_def sample_step_def
      DESTINATION_TYPE_INGEST_MELT_def cleanupKeys_def sample_key_def)

lemma example_profile_keys:
  "\<forall>j < length (sampleType example_pprof_profile).
     sample_key example_pprof_profile j \<noteq> ''harvest_seq''"
proof (intro allI impI)
  fix j assume "j < length (sampleType example_pprof_profile)"
  then have "j = 0 \<or> j = 1" by (auto simp: example_pprof_profile_def)
  then show "sample_key example_pprof_profile j \<noteq> ''harvest_seq''"
    using example_keys by auto
qed

lemma recorded_count_harvest: "recorded (count_harvest out) = recorded out"
  by (simp add: count_harvest_def split: option.splits)

lemma no_harvest_seq_metric_keys:
  "no_harvest_seq_metric prof \<Longrightarrow>
   \<forall>j < length (sampleType prof). sample_key prof j \<noteq> ''harvest_seq''"
  unfolding no_harvest_seq_metric_def by force

lemma cpu_records_harvest_seq:
  assumes "env_profile e = Inr prof"
    and "no_harvest_seq_metric prof"
    and "r \<in> set (recorded (fire s (CpuTimer e)))"
  shows "snd r ''harvest_seq'' = Some (JNum (Num (int (harvestSeq s))))"
proof -
  let ?rs = "fst (recordSamples (int (harvestSeq s)) prof (destination s))"
  from assms(3) have "r \<in> set (recorded (collectCpuSamples s e))"
    by (simp add: harvestCpuSamples_def recorded_count_harvest)
  then have "r \<in> set (map (Pair ''ProfileCPU'') ?rs)"
    using assms(1)
    by (auto simp: collectCpuSamples_def returns_def throws_def Let_def
        split: if_splits option.splits prod.splits)
  then obtain i where "i < length ?rs" and "snd r = ?rs ! i"
    by (auto simp: in_set_conv_nth)
  with recordSamples_harvest_seq [OF no_harvest_seq_metric_keys [OF assms(2)], of i
      "int (harvestSeq s)" "destination s"]
  show ?thesis by simp
qed

lemma completed_harvest_has_profile:
  assumes "harvests st t" and "completed (fire st t)"
  shows "\<exists>prof. env_profile (the_env t) = Inr prof"
proof (cases t)
  case (CpuTimer env)
  with assms show ?thesis
    by (cases "env_profile env")
      (auto simp: harvests_def completed_def harvestCpuSamples_def collectCpuSamples_def
        count_harvest_def throws_def)
next
  case (HeapTimer env)
  with assms show ?thesis
    by (cases "env_profile env")
      (auto simp: harvests_def completed_def harvestHeapSamples_def collectHeapSamples_def
        count_harvest_def throws_def)
qed

lemma consecutive_cpu_counter:
  assumes "completed (fire st (CpuTimer e1))"
  shows "harvestSeq (state_after st (CpuTimer e1 # map HeapTimer hs)) =
    harvestSeq st + 1 +
    length (filter completed (run_timers (after (fire st (CpuTimer e1))) (map HeapTimer hs)))"
  using assms fire_harvestSeq [of st "CpuTimer e1"] by (simp add: state_after_harvestSeq)

lemma inspector_fire_harvestSeq:
  "inspector_fire st t = Some out \<Longrightarrow>
   insp_harvestSeq (insp_after out) =
     (if succeeded out then insp_harvestSeq st + 1 else insp_harvestSeq st)"
  by (cases t)
    (auto simp: inspector_collectCpuSamples_def inspector_collectHeapSamples_def succeeded_def
      split: prod.splits option.splits)

lemma inspector_state_after_Cons:
  "inspector_state_after st (out # outs) = inspector_state_after (insp_after out) outs"
  by (simp add: inspector_state_after_def)

lemma inspector_run_harvestSeq:
  "inspector_run_timers st ts = Some outs \<Longrightarrow>
   insp_harvestSeq (inspector_state_after st outs) =
     insp_harvestSeq st + length (filter succeeded outs)"
proof (induction ts arbitrary: st outs)
  case Nil
  then show ?case by (simp add: inspector_state_after_def)
next
  case (Cons t ts)
  from Cons.prems obtain out outs' where f: "inspector_fire st t = Some out"
    and r: "inspector_run_timers (insp_after out) ts = Some outs'" and o: "outs = out # outs'"
    by (auto split: option.splits)
  show ?case
    unfolding o inspector_state_after_Cons
    using Cons.IH [OF r] inspector_fire_harvestSeq [OF f] by simp
qed

lemma inspector_fire_returns:
  assumes "delivers_tree t"
  shows "\<exists>out. inspector_fire st t = Some out"
proof (cases t)
  case (InspectorHeapTimer env)
  then show ?thesis by simp
next
  case (InspectorCpuTimer env)
  obtain err res where reply: "stop_reply env = (err, res)" by (cases "stop_reply env")
  show ?thesis
  proof (cases res)
    case None
    with reply InspectorCpuTimer show ?thesis
      by (simp add: inspector_collectCpuSamples_def split: option.splits)
  next
    case (Some profile)
    with assms reply InspectorCpuTimer have "walks_end profile"
      by (simp add: delivers_tree_def)
    from marshal_events [OF this, of "int (insp_harvestSeq st)"] obtain events where
      "marshalCpuProfileToEvents (int (insp_harvestSeq st)) profile = Some events" by blast
    with reply Some InspectorCpuTimer show ?thesis
      by (simp add: inspector_collectCpuSamples_def split: option.splits)
  qed
qed

lemma inspector_run_returns:
  "\<forall>t \<in> set ts. delivers_tree t \<Longrightarrow> inspector_run_timers st ts \<noteq> None"
proof (induction ts arbitrary: st)
  case Nil
  show ?case by simp
next
  case (Cons t ts)
  from Cons.prems have "delivers_tree t" by simp
  from inspector_fire_returns [OF this, of st] obtain out where
    f: "inspector_fire st t = Some out" by blast
  from Cons.prems have "\<forall>t \<in> set ts. delivers_tree t" by simp
  from Cons.IH [OF this, of "insp_after out"] f show ?case by auto
qed

lemma marshal_cpu_harvest_seq:
  assumes "marshalCpuProfileToEvents h p = Some events" and "e \<in> set events"
  shows "e ''harvest_seq'' = Some (JNum (Num h))"
proof -
  let ?nm = "build_cpu_nodeMap (nodes p)"
  from assms(1) have ev: "cpu_samples_loop h p ?nm 0 (samples p) 0 0 [] = Some events"
    by (simp add: marshalCpuProfileToEvents_def)
  from cpu_samples_loop_some [OF ev] have len: "length events = length (samples p)"
    and each: "\<forall>k < length (samples p).
        addLocation (cpu_event h p k (sample_delta (timeDeltas p) k)) (samples p ! k) ?nm =
          Some (events ! k)"
    by (simp_all add: consumed_deltas_0)
  from assms(2) obtain k where k: "k < length events" and e: "e = events ! k"
    by (auto simp: in_set_conv_nth)
  from each k len have
    "addLocation (cpu_event h p k (sample_delta (timeDeltas p) k)) (samples p ! k) ?nm = Some e"
    by (simp add: e)
  from addLocation_other [OF this, of "''harvest_seq''"] show ?thesis
    by (simp add: fixed_key_not_location cpu_event_def)
qed

lemma inspector_cpu_records:
  assumes "inspector_fire st (InspectorCpuTimer env) = Some out"
    and "r \<in> set (insp_recorded out)"
  shows "snd r ''harvest_seq'' = Some (JNum (Num (int (insp_harvestSeq st))))"
proof -
  from assms obtain profile events where
    "marshalCpuProfileToEvents (int (insp_harvestSeq st)) profile = Some events"
    and "snd r \<in> set events"
    by (auto simp: inspector_collectCpuSamples_def split: prod.splits option.splits)
  then show ?thesis by (rule marshal_cpu_harvest_seq)
qed

lemma inspector_consecutive_cpu:
  assumes o1: "inspector_fire st (InspectorCpuTimer c1) = Some o1" and s1: "succeeded o1"
    and hs: "inspector_run_timers (insp_after o1) (map InspectorHeapTimer hs) = Some houts"
    and o2: "inspector_fire (inspector_state_after (insp_after o1) houts) (InspectorCpuTimer c2) =
        Some o2"
    and r: "r \<in> set (insp_recorded o2)"
  shows "snd r ''harvest_seq'' =
    Some (JNum (Num (int (insp_harvestSeq st + 1 + length (filter succeeded houts)))))"
proof -
  have "insp_harvestSeq (inspector_state_after (insp_after o1) houts) =
      insp_harvestSeq st + 1 + length (filter succeeded houts)"
    using inspector_run_harvestSeq [OF hs] inspector_fire_harvestSeq [OF o1] s1 by simp
  with inspector_cpu_records [OF o2 r] show ?thesis by simp
qed

text \<open>
  C5, for the two variants. In the pprof variant a firing of a timer that harvests (its
  engine is selected and a destination is set) increments the counter by one when the
  collection returns, and then the engine did return a profile; it leaves the counter
  when the collection throws; after a run of such firings the counter has grown by the
  number of completed ones. The records of a CPU harvest carry the counter's value at
  that harvest as \<open>harvest_seq\<close>, when no sample type of the profile is itself named
  \<open>harvest_seq\<close>. The counter is shared by the two engines: after a completed CPU
  harvest and any heap harvests, the records of the next CPU harvest carry the value of
  the first plus one plus the number of completed heap harvests between them.
  In the inspector variant a harvest increments the counter by one when the engine was
  read and resumed, and leaves it otherwise; a run of firings returns when the profiles
  delivered are trees, and then the counter has grown by the number of harvests that
  succeeded; the events of a CPU harvest carry the counter's value at that harvest; and
  the events of the next CPU harvest after a successful one carry that value plus one
  plus the number of successful heap harvests between them.
\<close>

theorem harvest_seq_counts_completed_harvests:
  "(harvests st t \<longrightarrow>
      harvestSeq (after (fire st t)) =
        (if completed (fire st t) then harvestSeq st + 1 else harvestSeq st) \<and>
      (completed (fire st t) \<longrightarrow> (\<exists>prof. env_profile (the_env t) = Inr prof))) \<and>
   ((\<forall>t \<in> set ts. harvests st t) \<longrightarrow>
      harvestSeq (state_after st ts) =
        harvestSeq st + length (filter completed (run_timers st ts))) \<and>
   (env_profile e = Inr prof \<and> no_harvest_seq_metric prof \<longrightarrow>
      (\<forall>r \<in> set (recorded (fire s (CpuTimer e))).
         snd r ''harvest_seq'' = Some (JNum (Num (int (harvestSeq s)))))) \<and>
   ((\<forall>t \<in> set (CpuTimer e1 # map HeapTimer hs). harvests st t) \<and>
    completed (fire st (CpuTimer e1)) \<and>
    env_profile e2 = Inr prof2 \<and> no_harvest_seq_metric prof2 \<longrightarrow>
      (\<forall>r \<in> set (recorded (fire (state_after st (CpuTimer e1 # map HeapTimer hs)) (CpuTimer e2))).
         snd r ''harvest_seq'' =
           Some (JNum (Num (int (harvestSeq st + 1 +
             length (filter completed
               (run_timers (after (fire st (CpuTimer e1))) (map HeapTimer hs))))))))) \<and>
   (inspector_fire ist it = Some out \<longrightarrow>
      insp_harvestSeq (insp_after out) =
        (if succeeded out then insp_harvestSeq ist + 1 else insp_harvestSeq ist)) \<and>
   ((\<forall>t \<in> set its. delivers_tree t) \<longrightarrow> inspector_run_timers ist its \<noteq> None) \<and>
   (inspector_run_timers ist its = Some outs \<longrightarrow>
      insp_harvestSeq (inspector_state_after ist outs) =
        insp_harvestSeq ist + length (filter succeeded outs)) \<and>
   (inspector_fire ist (InspectorCpuTimer c) = Some cout \<longrightarrow>
      (\<forall>r \<in> set (insp_recorded cout).
         snd r ''harvest_seq'' = Some (JNum (Num (int (insp_harvestSeq ist)))))) \<and>
   (inspector_fire ist (InspectorCpuTimer c1) = Some o1 \<and> succeeded o1 \<and>
    inspector_run_timers (insp_after o1) (map InspectorHeapTimer ihs) = Some houts \<and>
    inspector_fire (inspector_state_after (insp_after o1) houts) (InspectorCpuTimer c2) = Some o2
    \<longrightarrow>
      (\<forall>r \<in> set (insp_recorded o2).
         snd r ''harvest_seq'' =
           Some (JNum (Num (int (insp_harvestSeq ist + 1 + length (filter succeeded houts)))))))"
proof (intro conjI impI ballI)
  show "harvestSeq (after (fire st t)) =
     (if completed (fire st t) then harvestSeq st + 1 else harvestSeq st)"
    by (rule fire_harvestSeq)
  show "harvestSeq (state_after st ts) =
     harvestSeq st + length (filter completed (run_timers st ts))"
    by (rule state_after_harvestSeq)
next
  assume "harvests st t" and "completed (fire st t)"
  then show "\<exists>prof. env_profile (the_env t) = Inr prof"
    by (rule completed_harvest_has_profile)
next
  fix r
  assume "env_profile e = Inr prof \<and> no_harvest_seq_metric prof"
    and "r \<in> set (recorded (fire s (CpuTimer e)))"
  then show "snd r ''harvest_seq'' = Some (JNum (Num (int (harvestSeq s))))"
    using cpu_records_harvest_seq by blast
next
  fix r
  let ?s = "state_after st (CpuTimer e1 # map HeapTimer hs)"
  assume a: "(\<forall>t \<in> set (CpuTimer e1 # map HeapTimer hs). harvests st t) \<and>
    completed (fire st (CpuTimer e1)) \<and>
    env_profile e2 = Inr prof2 \<and> no_harvest_seq_metric prof2"
    and r: "r \<in> set (recorded (fire ?s (CpuTimer e2)))"
  from a have c: "completed (fire st (CpuTimer e1))" and p: "env_profile e2 = Inr prof2"
    and k: "no_harvest_seq_metric prof2"
    by simp_all
  from cpu_records_harvest_seq [OF p k r]
  show "snd r ''harvest_seq'' =
      Some (JNum (Num (int (harvestSeq st + 1 +
        length (filter completed
          (run_timers (after (fire st (CpuTimer e1))) (map HeapTimer hs)))))))"
    by (simp only: consecutive_cpu_counter [OF c])
next
  assume "inspector_fire ist it = Some out"
  then show "insp_harvestSeq (insp_after out) =
      (if succeeded out then insp_harvestSeq ist + 1 else insp_harvestSeq ist)"
    by (rule inspector_fire_harvestSeq)
next
  assume "\<forall>t \<in> set its. delivers_tree t"
  then show "inspector_run_timers ist its \<noteq> None"
    by (rule inspector_run_returns)
next
  assume "inspector_run_timers ist its = Some outs"
  then show "insp_harvestSeq (inspector_state_after ist outs) =
      insp_harvestSeq ist + length (filter succeeded outs)"
    by (rule inspector_run_harvestSeq)
next
  fix r
  assume "inspector_fire ist (InspectorCpuTimer c) = Some cout" and "r \<in> set (insp_recorded cout)"
  then show "snd r ''harvest_seq'' = Some (JNum (Num (int (insp_harvestSeq ist))))"
    by (rule inspector_cpu_records)
next
  fix r
  assume a: "inspector_fire ist (InspectorCpuTimer c1) = Some o1 \<and> succeeded o1 \<and>
    inspector_run_timers (insp_after o1) (map InspectorHeapTimer ihs) = Some houts \<and>
    inspector_fire (inspector_state_after (insp_after o1) houts) (InspectorCpuTimer c2) = Some o2"
    and r: "r \<in> set (insp_recorded o2)"
  from a have o1: "inspector_fire ist (InspectorCpuTimer c1) = Some o1" and s1: "succeeded o1"
    and hs: "inspector_run_timers (insp_after o1) (map InspectorHeapTimer ihs) = Some houts"
    and o2: "inspector_fire (inspector_state_after (insp_after o1) houts) (InspectorCpuTimer c2) =
        Some o2"
    by simp_all
  show "snd r ''harvest_seq'' =
      Some (JNum (Num (int (insp_harvestSeq ist + 1 + length (filter succeeded houts)))))"
    by (rule inspector_consecutive_cpu [OF o1 s1 hs o2 r])
qed

lemma example_cpu_fire:
  "destination s = DESTINATION_TYPE_INGEST_MELT \<Longrightarrow> selectedProfiles s = 3 \<Longrightarrow>
   thrown (fire s (CpuTimer example_env)) = None \<and>
   length (recorded (fire s (CpuTimer example_env))) = 2 \<and>
   after (fire s (CpuTimer example_env)) = s\<lparr>harvestSeq := harvestSeq s + 1\<rparr>"
  using example_profile_records [of "int (harvestSeq s)"]
  by (auto simp: harvestCpuSamples_def collectCpuSamples_def example_env_def count_harvest_def
      PROFILING_TYPE_CPU_def DESTINATION_TYPE_INGEST_MELT_def DESTINATION_TYPE_NIL_def
      DESTINATION_TYPE_LOCAL_FILE_def split: prod.splits)

lemma example_heap_fire:
  "destination s = DESTINATION_TYPE_INGEST_MELT \<Longrightarrow> selectedProfiles s = 3 \<Longrightarrow>
   thrown (fire s (HeapTimer example_env)) = None \<and>
   after (fire s (HeapTimer example_env)) = s\<lparr>harvestSeq := harvestSeq s + 1\<rparr>"
  using example_profile_records [of "int (harvestSeq s)"]
  by (auto simp: harvestHeapSamples_def collectHeapSamples_def example_env_def count_harvest_def
      PROFILING_TYPE_HEAP_def DESTINATION_TYPE_INGEST_MELT_def DESTINATION_TYPE_NIL_def
      DESTINATION_TYPE_LOCAL_FILE_def split: prod.splits)

lemma example_failing_fire:
  "destination s = DESTINATION_TYPE_INGEST_MELT \<Longrightarrow> selectedProfiles s = 3 \<Longrightarrow>
   fire s (CpuTimer example_failing_env) = throws EngineError s"
  by (simp add: harvestCpuSamples_def collectCpuSamples_def example_failing_env_def
      count_harvest_def throws_def PROFILING_TYPE_CPU_def DESTINATION_TYPE_INGEST_MELT_def
      DESTINATION_TYPE_NIL_def)

lemma example_harvests:
  "destination s = DESTINATION_TYPE_INGEST_MELT \<Longrightarrow> selectedProfiles s = 3 \<Longrightarrow> harvests s t"
  by (cases t)
    (simp_all add: harvests_def DESTINATION_TYPE_INGEST_MELT_def DESTINATION_TYPE_NIL_def
      PROFILING_TYPE_CPU_def PROFILING_TYPE_HEAP_def)

lemma example_melt_fields:
  "destination example_melt_profiler = DESTINATION_TYPE_INGEST_MELT"
  "selectedProfiles example_melt_profiler = 3"
  "harvestSeq example_melt_profiler = 0"
  by (simp_all add: example_started)

lemma example_env_profile: "env_profile example_env = Inr example_pprof_profile"
  by (simp add: example_env_def)

lemma example_no_harvest_seq_metric: "no_harvest_seq_metric example_pprof_profile"
  using example_profile_keys unfolding no_harvest_seq_metric_def by auto

lemma first_record_harvest_seq:
  assumes "destination s = DESTINATION_TYPE_INGEST_MELT" and "selectedProfiles s = 3"
  shows "snd (recorded (fire s (CpuTimer example_env)) ! 0) ''harvest_seq'' =
    Some (JNum (Num (int (harvestSeq s))))"
proof -
  have "recorded (fire s (CpuTimer example_env)) ! 0 \<in> set (recorded (fire s (CpuTimer example_env)))"
    using example_cpu_fire [OF assms] by (intro nth_mem) simp
  then show ?thesis
    by (rule cpu_records_harvest_seq [OF example_env_profile example_no_harvest_seq_metric])
qed

lemma example_cpu_harvest_fire:
  "\<exists>events. length events = 1 \<and>
     inspector_fire st (InspectorCpuTimer example_cpu_harvest) =
       Some \<lparr>insp_end = Resumed, insp_after = st\<lparr>insp_harvestSeq := insp_harvestSeq st + 1\<rparr>,
             insp_recorded = map (Pair ''ProfileCPU'') events\<rparr>"
proof -
  from marshal_events [OF example_walks_end, of "int (insp_harvestSeq st)"] obtain events where
    "marshalCpuProfileToEvents (int (insp_harvestSeq st)) example_cpu_profile = Some events"
    and "length events = length (samples example_cpu_profile)"
    by blast
  then show ?thesis
    by (intro exI [of _ events])
      (simp add: inspector_collectCpuSamples_def example_cpu_harvest_def example_cpu_profile_def)
qed

lemma example_cpu_harvest_no_restart_fire:
  "\<exists>events. length events = 1 \<and>
     inspector_fire st (InspectorCpuTimer example_cpu_harvest_no_restart) =
       Some \<lparr>insp_end = Rejected ''Profiler.start'', insp_after = st,
             insp_recorded = map (Pair ''ProfileCPU'') events\<rparr>"
proof -
  from marshal_events [OF example_walks_end, of "int (insp_harvestSeq st)"] obtain events where
    "marshalCpuProfileToEvents (int (insp_harvestSeq st)) example_cpu_profile = Some events"
    and "length events = length (samples example_cpu_profile)"
    by blast
  then show ?thesis
    by (intro exI [of _ events])
      (simp add: inspector_collectCpuSamples_def example_cpu_harvest_no_restart_def
        example_cpu_harvest_def example_cpu_profile_def)
qed

lemma example_heap_harvest_fire:
  "inspector_fire st (InspectorHeapTimer example_heap_harvest) =
     Some \<lparr>insp_end = Resumed,
           insp_after = \<lparr>insp_harvestSeq = insp_harvestSeq st + 1, insp_heapSampleStartTime = 2000\<rparr>,
           insp_recorded =
             map (Pair ''ProfileHeap'')
               (marshalHeapSamplingProfileToEvents (int (insp_harvestSeq st))
                  (insp_heapSampleStartTime st) (\<lambda>i. 2000) example_heap_profile)\<rparr>"
  by (simp add: inspector_collectHeapSamples_def example_heap_harvest_def)

lemma example_delivers_tree:
  "delivers_tree (InspectorCpuTimer example_cpu_harvest)"
  "delivers_tree (InspectorCpuTimer example_cpu_harvest_no_restart)"
  "delivers_tree (InspectorHeapTimer env)"
  by (simp_all add: delivers_tree_def example_cpu_harvest_def example_cpu_harvest_no_restart_def
      example_walks_end)

text \<open>
  The example profilers. In the pprof variant the first CPU harvest emits
  \<open>harvest_seq = 0\<close> and, with no heap harvest between them, the next one emits 1; a
  harvest in which the engine throws leaves the counter at 0. In the inspector variant
  a CPU harvest whose restart is rejected leaves the counter at 0 and the next one takes
  it to 1; two CPU harvests in a row emit \<open>harvest_seq\<close> 0 and 1.
\<close>

theorem harvest_seq_counts_completed_harvests_witness:
  "harvestSeq (after (fire example_melt_profiler (CpuTimer example_env))) = 1 \<and>
   harvestSeq (after (fire example_melt_profiler (CpuTimer example_failing_env))) = 0 \<and>
   harvestSeq (state_after example_melt_profiler
                 [CpuTimer example_failing_env, CpuTimer example_env]) = 1 \<and>
   snd (recorded (fire example_melt_profiler (CpuTimer example_env)) ! 0) ''harvest_seq'' =
     Some (JNum (Num 0)) \<and>
   snd (recorded (fire (state_after example_melt_profiler [CpuTimer example_env])
                    (CpuTimer example_env)) ! 0) ''harvest_seq'' =
     Some (JNum (Num 1)) \<and>
   (\<exists>a b. inspector_run_timers new_inspector_harvests
             [InspectorCpuTimer example_cpu_harvest_no_restart,
              InspectorCpuTimer example_cpu_harvest] = Some [a, b] \<and>
          insp_end a = Rejected ''Profiler.start'' \<and> insp_harvestSeq (insp_after a) = 0 \<and>
          insp_end b = Resumed \<and> insp_harvestSeq (insp_after b) = 1) \<and>
   (\<exists>o1 o2. inspector_run_timers new_inspector_harvests
               [InspectorCpuTimer example_cpu_harvest, InspectorCpuTimer example_cpu_harvest] =
               Some [o1, o2] \<and>
            snd (insp_recorded o1 ! 0) ''harvest_seq'' = Some (JNum (Num 0)) \<and>
            snd (insp_recorded o2 ! 0) ''harvest_seq'' = Some (JNum (Num 1)))"
proof -
  let ?st = example_melt_profiler
  let ?ok = "CpuTimer example_env"
  let ?bad = "CpuTimer example_failing_env"
  let ?s = "state_after ?st [?ok]"
  let ?N = new_inspector_harvests
  let ?cpu = "InspectorCpuTimer example_cpu_harvest"
  let ?nr = "InspectorCpuTimer example_cpu_harvest_no_restart"
  note f = example_cpu_fire [OF example_melt_fields(1,2)]
  note g = example_failing_fire [OF example_melt_fields(1,2)]
  note h = example_harvests [OF example_melt_fields(1,2)]
  have c: "completed (fire ?st ?ok)"
    using f by (simp add: completed_def)
  have nc: "\<not> completed (fire ?st ?bad)"
    unfolding g by (simp add: completed_def throws_def)
  have s: "?s = ?st\<lparr>harvestSeq := 1\<rparr>"
    using f by (simp add: example_melt_fields)
  have m0: "recorded (fire ?st ?ok) ! 0 \<in> set (recorded (fire ?st ?ok))"
    using f by (intro nth_mem) simp
  have k: "env_profile example_env = Inr example_pprof_profile \<and>
      no_harvest_seq_metric example_pprof_profile"
    using example_env_profile example_no_harvest_seq_metric by simp

  txt \<open>The pprof variant: one firing.\<close>
  note p1 = harvest_seq_counts_completed_harvests [where st = ?st and t = ?ok, THEN conjunct1]
  from p1 h c have a1: "harvestSeq (after (fire ?st ?ok)) = 1"
    by (simp add: example_melt_fields)
  note p1' = harvest_seq_counts_completed_harvests [where st = ?st and t = ?bad, THEN conjunct1]
  from p1' h nc have a2: "harvestSeq (after (fire ?st ?bad)) = 0"
    by (simp add: example_melt_fields)

  txt \<open>A run of firings.\<close>
  note p2 = harvest_seq_counts_completed_harvests
    [where st = ?st and ts = "[?bad, ?ok]", THEN conjunct2, THEN conjunct1]
  have hs: "\<forall>t \<in> set [?bad, ?ok]. harvests ?st t"
    using h by simp
  have ab: "after (fire ?st ?bad) = ?st"
    unfolding g by (simp add: throws_def)
  have run: "filter completed (run_timers ?st [?bad, ?ok]) = [fire ?st ?ok]"
    using c nc by (simp only: run_timers.simps ab filter.simps if_True if_False)
  from p2 hs have a3: "harvestSeq (state_after ?st [?bad, ?ok]) = 1"
    by (simp only: run) (simp add: example_melt_fields)

  txt \<open>The records of a CPU harvest.\<close>
  note p3 = harvest_seq_counts_completed_harvests
    [where e = example_env and prof = example_pprof_profile and s = ?st,
     THEN conjunct2, THEN conjunct2, THEN conjunct1]
  from p3 k m0 have "snd (recorded (fire ?st ?ok) ! 0) ''harvest_seq'' =
      Some (JNum (Num (int (harvestSeq ?st))))"
    by blast
  then have a4: "snd (recorded (fire ?st ?ok) ! 0) ''harvest_seq'' = Some (JNum (Num 0))"
    by (simp add: example_melt_fields)

  txt \<open>Two CPU harvests with no heap harvest between them.\<close>
  note p4 = harvest_seq_counts_completed_harvests
    [where st = ?st and ?e1.0 = example_env and hs = "[]" and ?e2.0 = example_env
       and ?prof2.0 = example_pprof_profile,
     THEN conjunct2, THEN conjunct2, THEN conjunct2, THEN conjunct1]
  have ds: "destination ?s = DESTINATION_TYPE_INGEST_MELT" "selectedProfiles ?s = 3"
    unfolding s by (simp_all add: example_melt_fields)
  have m1: "recorded (fire ?s ?ok) ! 0 \<in> set (recorded (fire ?s ?ok))"
    using example_cpu_fire [OF ds] by (intro nth_mem) simp
  have hyp4: "(\<forall>t \<in> set (?ok # map HeapTimer []). harvests ?st t) \<and>
      completed (fire ?st ?ok) \<and>
      env_profile example_env = Inr example_pprof_profile \<and>
      no_harvest_seq_metric example_pprof_profile"
    using h c k by simp
  have m1': "recorded (fire ?s ?ok) ! 0 \<in>
      set (recorded (fire (state_after ?st (?ok # map HeapTimer [])) ?ok))"
    using m1 by simp
  from p4 hyp4 m1' have "snd (recorded (fire ?s ?ok) ! 0) ''harvest_seq'' =
      Some (JNum (Num (int (harvestSeq ?st + 1 +
        length (filter completed (run_timers (after (fire ?st ?ok)) (map HeapTimer [])))))))"
    by blast
  then have a5: "snd (recorded (fire ?s ?ok) ! 0) ''harvest_seq'' = Some (JNum (Num 1))"
    by (simp add: example_melt_fields)

  txt \<open>The inspector variant: a rejected restart, then a harvest that succeeds.\<close>
  obtain ev1 where a: "inspector_fire ?N ?nr =
      Some \<lparr>insp_end = Rejected ''Profiler.start'', insp_after = ?N,
            insp_recorded = map (Pair ''ProfileCPU'') ev1\<rparr>"
    using example_cpu_harvest_no_restart_fire [of ?N] by blast
  obtain ev2 where b: "inspector_fire ?N ?cpu =
      Some \<lparr>insp_end = Resumed, insp_after = ?N\<lparr>insp_harvestSeq := insp_harvestSeq ?N + 1\<rparr>,
            insp_recorded = map (Pair ''ProfileCPU'') ev2\<rparr>"
    and l2: "length ev2 = 1"
    using example_cpu_harvest_fire [of ?N] by blast
  let ?a = "\<lparr>insp_end = Rejected ''Profiler.start'', insp_after = ?N,
            insp_recorded = map (Pair ''ProfileCPU'') ev1\<rparr>"
  let ?b = "\<lparr>insp_end = Resumed, insp_after = ?N\<lparr>insp_harvestSeq := insp_harvestSeq ?N + 1\<rparr>,
            insp_recorded = map (Pair ''ProfileCPU'') ev2\<rparr>"
  note i1a = harvest_seq_counts_completed_harvests
    [where ist = ?N and it = ?nr and out = ?a,
     THEN conjunct2, THEN conjunct2, THEN conjunct2, THEN conjunct2, THEN conjunct1]
  from i1a a have a6: "insp_harvestSeq (insp_after ?a) = 0"
    by (simp add: succeeded_def new_inspector_harvests_def)
  note i3 = harvest_seq_counts_completed_harvests
    [where ist = ?N and its = "[?nr, ?cpu]",
     THEN conjunct2, THEN conjunct2, THEN conjunct2, THEN conjunct2, THEN conjunct2,
     THEN conjunct1]
  have "\<forall>t \<in> set [?nr, ?cpu]. delivers_tree t"
    by (simp add: example_delivers_tree)
  with i3 have "inspector_run_timers ?N [?nr, ?cpu] \<noteq> None" by blast
  have runab: "inspector_run_timers ?N [?nr, ?cpu] = Some [?a, ?b]"
    using a b by simp
  note i2 = harvest_seq_counts_completed_harvests
    [where ist = ?N and its = "[?nr, ?cpu]" and outs = "[?a, ?b]",
     THEN conjunct2, THEN conjunct2, THEN conjunct2, THEN conjunct2, THEN conjunct2,
     THEN conjunct2, THEN conjunct1]
  from i2 runab have "insp_harvestSeq (inspector_state_after ?N [?a, ?b]) =
      insp_harvestSeq ?N + length (filter succeeded [?a, ?b])"
    by blast
  then have a7: "insp_harvestSeq (insp_after ?b) = 1"
    by (simp add: inspector_state_after_def succeeded_def new_inspector_harvests_def)
  have A: "\<exists>a b. inspector_run_timers ?N [?nr, ?cpu] = Some [a, b] \<and>
      insp_end a = Rejected ''Profiler.start'' \<and> insp_harvestSeq (insp_after a) = 0 \<and>
      insp_end b = Resumed \<and> insp_harvestSeq (insp_after b) = 1"
    using runab a6 a7 by (intro exI [of _ ?a] exI [of _ ?b]) simp

  txt \<open>Two CPU harvests in a row.\<close>
  let ?N1 = "?N\<lparr>insp_harvestSeq := insp_harvestSeq ?N + 1\<rparr>"
  obtain ev3 where b2: "inspector_fire ?N1 ?cpu =
      Some \<lparr>insp_end = Resumed, insp_after = ?N1\<lparr>insp_harvestSeq := insp_harvestSeq ?N1 + 1\<rparr>,
            insp_recorded = map (Pair ''ProfileCPU'') ev3\<rparr>"
    and l3: "length ev3 = 1"
    using example_cpu_harvest_fire [of ?N1] by blast
  let ?c = "\<lparr>insp_end = Resumed, insp_after = ?N1\<lparr>insp_harvestSeq := insp_harvestSeq ?N1 + 1\<rparr>,
            insp_recorded = map (Pair ''ProfileCPU'') ev3\<rparr>"
  note i4 = harvest_seq_counts_completed_harvests
    [where ist = ?N and c = example_cpu_harvest and cout = ?b,
     THEN conjunct2, THEN conjunct2, THEN conjunct2, THEN conjunct2, THEN conjunct2,
     THEN conjunct2, THEN conjunct2, THEN conjunct1]
  have mb: "insp_recorded ?b ! 0 \<in> set (insp_recorded ?b)"
    using l2 by (intro nth_mem) simp
  from i4 b mb have "snd (insp_recorded ?b ! 0) ''harvest_seq'' =
      Some (JNum (Num (int (insp_harvestSeq ?N))))"
    by blast
  then have a8: "snd (insp_recorded ?b ! 0) ''harvest_seq'' = Some (JNum (Num 0))"
    by (simp add: new_inspector_harvests_def)
  note i5 = harvest_seq_counts_completed_harvests
    [where ist = ?N and ?c1.0 = example_cpu_harvest and ?o1.0 = ?b and ihs = "[]"
       and houts = "[]" and ?c2.0 = example_cpu_harvest and ?o2.0 = ?c,
     THEN conjunct2, THEN conjunct2, THEN conjunct2, THEN conjunct2, THEN conjunct2,
     THEN conjunct2, THEN conjunct2, THEN conjunct2]
  have hyp5: "inspector_fire ?N ?cpu = Some ?b \<and> succeeded ?b \<and>
      inspector_run_timers (insp_after ?b) (map InspectorHeapTimer []) = Some [] \<and>
      inspector_fire (inspector_state_after (insp_after ?b) []) ?cpu = Some ?c"
    using b b2 by (simp add: succeeded_def inspector_state_after_def)
  have mc: "insp_recorded ?c ! 0 \<in> set (insp_recorded ?c)"
    using l3 by (intro nth_mem) simp
  from i5 hyp5 mc have "snd (insp_recorded ?c ! 0) ''harvest_seq'' =
      Some (JNum (Num (int (insp_harvestSeq ?N + 1 + length (filter succeeded [])))))"
    by blast
  then have a9: "snd (insp_recorded ?c ! 0) ''harvest_seq'' = Some (JNum (Num 1))"
    by (simp add: new_inspector_harvests_def)
  have runbc: "inspector_run_timers ?N [?cpu, ?cpu] = Some [?b, ?c]"
    using b b2 by simp
  have B: "\<exists>o1 o2. inspector_run_timers ?N [?cpu, ?cpu] = Some [o1, o2] \<and>
      snd (insp_recorded o1 ! 0) ''harvest_seq'' = Some (JNum (Num 0)) \<and>
      snd (insp_recorded o2 ! 0) ''harvest_seq'' = Some (JNum (Num 1))"
    using runbc a8 a9 by (intro exI [of _ ?b] exI [of _ ?c]) (intro conjI)
  from a1 a2 a3 a4 a5 A B show ?thesis by (intro conjI)
qed

lemma melt_cpu_fire_recorded:
  assumes "destination s = DESTINATION_TYPE_INGEST_MELT" and "selectedProfiles s = 3"
    and "env_profile e = Inr p"
  shows "recorded (fire s (CpuTimer e)) =
    map (Pair ''ProfileCPU'')
      (fst (recordSamples (int (harvestSeq s)) p DESTINATION_TYPE_INGEST_MELT))"
  using assms
  by (simp add: harvestCpuSamples_def recorded_count_harvest collectCpuSamples_def
      PROFILING_TYPE_CPU_def DESTINATION_TYPE_INGEST_MELT_def DESTINATION_TYPE_NIL_def
      DESTINATION_TYPE_LOCAL_FILE_def split: prod.splits)

lemma example_harvest_seq_records:
  "length (fst (recordSamples 0 example_harvest_seq_profile DESTINATION_TYPE_INGEST_MELT)) = 2"
  "(fst (recordSamples 0 example_harvest_seq_profile DESTINATION_TYPE_INGEST_MELT) ! 0)
     ''harvest_seq'' = Some (JNum (Num 5))"
  by (simp_all add: recordSamples_def example_harvest_seq_profile_def example_pprof_profile_def
      sample_step_def DESTINATION_TYPE_INGEST_MELT_def cleanupKeys_def sample_key_def
      clear_stale_locations_def getLocation_def location_key_def delete_location_def
      value_type_name_def getString_def template_str_def set_property_def
      normalizeAttrNameFromSampleValueType_def Letter_def White_Space_def)

lemma example_nil_started:
  "example_nil_profiler =
     \<lparr>harvestSeq = 0, selectedProfiles = 3, destination = DESTINATION_TYPE_NIL,
      outputDirectory = ''/out'', cpuFile = None, heapFile = None, cpuTimer = True,
      heapTimer = True, time_started = True, heap_started = True\<rparr>"
  by (simp add: example_nil_profiler_def start_def start_cpu_def start_heap_def
      new_profiler_def no_start_errors_def returns_def scheduleHarvests_def
      PROFILING_TYPE_CPU_def PROFILING_TYPE_HEAP_def DESTINATION_TYPE_NIL_def
      DESTINATION_TYPE_LOCAL_FILE_def)

lemma example_nil_fire:
  "fire example_nil_profiler (CpuTimer env) =
     \<lparr>thrown = None, after = example_nil_profiler\<lparr>harvestSeq := 1\<rparr>, recorded = [],
      wrote = [], opened = []\<rparr>"
  by (simp add: example_nil_started harvestCpuSamples_def collectCpuSamples_def
      count_harvest_def returns_def PROFILING_TYPE_CPU_def)

text \<open>
  C5 as stated fails on three counts. The counter is shared: with a completed heap
  harvest between them, two consecutive completed CPU harvests emit the \<open>harvest_seq\<close>
  values 0 and 2, in the pprof variant and in the inspector variant. In the pprof
  variant, with no destination set, a firing of the CPU timer asks the engine for
  nothing and records nothing, and the counter still goes from 0 to 1. And in the pprof
  variant the value of a sample type named \<open>harvest/seq\<close> replaces the counter's value
  on the record: the first record of the first harvest holds 5 where the counter is 0.
\<close>

theorem harvest_counter_is_shared_and_unguarded:
  "completed (run_timers example_melt_profiler example_timers ! 0) \<and>
   completed (run_timers example_melt_profiler example_timers ! 1) \<and>
   completed (run_timers example_melt_profiler example_timers ! 2) \<and>
   snd (recorded (run_timers example_melt_profiler example_timers ! 0) ! 0) ''harvest_seq'' =
     Some (JNum (Num 0)) \<and>
   snd (recorded (run_timers example_melt_profiler example_timers ! 2) ! 0) ''harvest_seq'' =
     Some (JNum (Num 2)) \<and>
   (\<exists>o1 h o2.
      inspector_run_timers new_inspector_harvests
        [InspectorCpuTimer example_cpu_harvest, InspectorHeapTimer example_heap_harvest,
         InspectorCpuTimer example_cpu_harvest] = Some [o1, h, o2] \<and>
      succeeded o1 \<and> succeeded h \<and> succeeded o2 \<and>
      snd (insp_recorded o1 ! 0) ''harvest_seq'' = Some (JNum (Num 0)) \<and>
      snd (insp_recorded o2 ! 0) ''harvest_seq'' = Some (JNum (Num 2))) \<and>
   harvestSeq example_nil_profiler = 0 \<and>
   fire example_nil_profiler (CpuTimer example_failing_env) =
     \<lparr>thrown = None, after = example_nil_profiler\<lparr>harvestSeq := 1\<rparr>, recorded = [],
      wrote = [], opened = []\<rparr> \<and>
   harvestSeq example_melt_profiler = 0 \<and>
   snd (recorded (fire example_melt_profiler (CpuTimer example_harvest_seq_env)) ! 0)
     ''harvest_seq'' = Some (JNum (Num 5))"
proof -
  let ?st = example_melt_profiler
  let ?s1 = "?st\<lparr>harvestSeq := 1\<rparr>"
  let ?s2 = "?st\<lparr>harvestSeq := 2\<rparr>"
  note f0 = example_cpu_fire [OF example_melt_fields(1,2)]
  have a1: "after (fire ?st (CpuTimer example_env)) = ?s1"
    using f0 by (simp add: example_melt_fields)
  have f1: "thrown (fire ?s1 (HeapTimer example_env)) = None \<and>
      after (fire ?s1 (HeapTimer example_env)) = ?s2"
    using example_heap_fire [of ?s1] by (simp add: example_melt_fields)
  have f2: "thrown (fire ?s2 (CpuTimer example_env)) = None"
    using example_cpu_fire [of ?s2] by (simp add: example_melt_fields)
  have run: "run_timers ?st example_timers =
      [fire ?st (CpuTimer example_env), fire ?s1 (HeapTimer example_env),
       fire ?s2 (CpuTimer example_env)]"
    using a1 f1 by (simp add: example_timers_def)
  have r0: "snd (recorded (fire ?st (CpuTimer example_env)) ! 0) ''harvest_seq'' =
      Some (JNum (Num 0))"
    using first_record_harvest_seq [OF example_melt_fields(1,2)] by (simp add: example_melt_fields)
  have r2: "snd (recorded (fire ?s2 (CpuTimer example_env)) ! 0) ''harvest_seq'' =
      Some (JNum (Num 2))"
    using first_record_harvest_seq [of ?s2] by (simp add: example_melt_fields)
  from f0 f1 f2 r0 r2 have P:
    "completed (run_timers ?st example_timers ! 0) \<and>
     completed (run_timers ?st example_timers ! 1) \<and>
     completed (run_timers ?st example_timers ! 2) \<and>
     snd (recorded (run_timers ?st example_timers ! 0) ! 0) ''harvest_seq'' = Some (JNum (Num 0)) \<and>
     snd (recorded (run_timers ?st example_timers ! 2) ! 0) ''harvest_seq'' = Some (JNum (Num 2))"
    unfolding run by (simp add: completed_def)

  let ?N = new_inspector_harvests
  let ?cpu = "InspectorCpuTimer example_cpu_harvest"
  let ?heap = "InspectorHeapTimer example_heap_harvest"
  let ?N1 = "?N\<lparr>insp_harvestSeq := insp_harvestSeq ?N + 1\<rparr>"
  let ?N2 = "\<lparr>insp_harvestSeq = insp_harvestSeq ?N1 + 1, insp_heapSampleStartTime = 2000\<rparr>"
  let ?N3 = "?N2\<lparr>insp_harvestSeq := insp_harvestSeq ?N2 + 1\<rparr>"
  obtain ev1 where o1: "inspector_fire ?N ?cpu =
      Some \<lparr>insp_end = Resumed, insp_after = ?N1, insp_recorded = map (Pair ''ProfileCPU'') ev1\<rparr>"
    and l1: "length ev1 = 1"
    using example_cpu_harvest_fire [of ?N] by blast
  obtain ev2 where o2: "inspector_fire ?N2 ?cpu =
      Some \<lparr>insp_end = Resumed, insp_after = ?N3, insp_recorded = map (Pair ''ProfileCPU'') ev2\<rparr>"
    and l2: "length ev2 = 1"
    using example_cpu_harvest_fire [of ?N2] by blast
  let ?o1 = "\<lparr>insp_end = Resumed, insp_after = ?N1,
      insp_recorded = map (Pair ''ProfileCPU'') ev1\<rparr>"
  let ?o2 = "\<lparr>insp_end = Resumed, insp_after = ?N3,
      insp_recorded = map (Pair ''ProfileCPU'') ev2\<rparr>"
  let ?h = "\<lparr>insp_end = Resumed, insp_after = ?N2,
      insp_recorded =
        map (Pair ''ProfileHeap'')
          (marshalHeapSamplingProfileToEvents (int (insp_harvestSeq ?N1))
             (insp_heapSampleStartTime ?N1) (\<lambda>i. 2000) example_heap_profile)\<rparr>"
  have h: "inspector_fire ?N1 ?heap = Some ?h"
    by (rule example_heap_harvest_fire)
  have irun: "inspector_run_timers ?N [?cpu, ?heap, ?cpu] = Some [?o1, ?h, ?o2]"
    by (simp only: inspector_run_timers.simps o1 h o2 option.case inspector_outcome.simps)
  have m1: "insp_recorded ?o1 ! 0 \<in> set (insp_recorded ?o1)"
    using l1 by (intro nth_mem) simp
  have m2: "insp_recorded ?o2 ! 0 \<in> set (insp_recorded ?o2)"
    using l2 by (intro nth_mem) simp
  have i0: "snd (insp_recorded ?o1 ! 0) ''harvest_seq'' = Some (JNum (Num 0))"
    using inspector_cpu_records [OF o1 m1] by (simp add: new_inspector_harvests_def)
  have i2: "snd (insp_recorded ?o2 ! 0) ''harvest_seq'' = Some (JNum (Num 2))"
    using inspector_cpu_records [OF o2 m2] by (simp add: new_inspector_harvests_def)
  have I: "\<exists>o1 h o2.
      inspector_run_timers ?N [?cpu, ?heap, ?cpu] = Some [o1, h, o2] \<and>
      succeeded o1 \<and> succeeded h \<and> succeeded o2 \<and>
      snd (insp_recorded o1 ! 0) ''harvest_seq'' = Some (JNum (Num 0)) \<and>
      snd (insp_recorded o2 ! 0) ''harvest_seq'' = Some (JNum (Num 2))"
    using irun i0 i2
    by (intro exI [of _ ?o1] exI [of _ ?h] exI [of _ ?o2]) (simp add: succeeded_def)

  have n0: "harvestSeq example_nil_profiler = 0"
    by (simp add: example_nil_started)
  note n1 = example_nil_fire [of example_failing_env]

  have e: "env_profile example_harvest_seq_env = Inr example_harvest_seq_profile"
    by (simp add: example_harvest_seq_env_def)
  have "recorded (fire ?st (CpuTimer example_harvest_seq_env)) ! 0 =
      (''ProfileCPU'',
       fst (recordSamples 0 example_harvest_seq_profile DESTINATION_TYPE_INGEST_MELT) ! 0)"
    unfolding melt_cpu_fire_recorded [OF example_melt_fields(1,2) e]
    by (simp add: example_melt_fields(3) example_harvest_seq_records(1))
  then have q: "snd (recorded (fire ?st (CpuTimer example_harvest_seq_env)) ! 0) ''harvest_seq'' =
      Some (JNum (Num 5))"
    by (simp add: example_harvest_seq_records(2))
  from P I n0 n1 example_melt_fields(3) q show ?thesis by (intro conjI) simp_all
qed

lemma cpu_harvest_rotates:
  assumes "destination s = DESTINATION_TYPE_LOCAL_FILE"
    and "selectedProfiles s AND PROFILING_TYPE_CPU \<noteq> 0"
    and "cpuFile s = Some f" and "harvest_succeeds env"
  shows "fire s (CpuTimer env) =
    \<lparr>thrown = None,
     after = s\<lparr>cpuFile := Some (outputDirectory s, ''cpu.pprof'' @ show_nat (harvestSeq s)),
               harvestSeq := harvestSeq s + 1\<rparr>,
     recorded = [], wrote = [f],
     opened = [(outputDirectory s, ''cpu.pprof'' @ show_nat (harvestSeq s))]\<rparr>"
  using assms
  by (auto simp: harvestCpuSamples_def collectCpuSamples_def count_harvest_def harvest_succeeds_def
      DESTINATION_TYPE_LOCAL_FILE_def DESTINATION_TYPE_NIL_def Let_def split: sum.splits)

lemma heap_harvest_rotates:
  assumes "destination s = DESTINATION_TYPE_LOCAL_FILE"
    and "selectedProfiles s AND PROFILING_TYPE_HEAP \<noteq> 0"
    and "heapFile s = Some f" and "harvest_succeeds env"
  shows "fire s (HeapTimer env) =
    \<lparr>thrown = None,
     after = s\<lparr>heapFile := Some (outputDirectory s, ''heap.pprof'' @ show_nat (harvestSeq s)),
               harvestSeq := harvestSeq s + 1\<rparr>,
     recorded = [], wrote = [f],
     opened = [(outputDirectory s, ''heap.pprof'' @ show_nat (harvestSeq s))]\<rparr>"
  using assms
  by (auto simp: harvestHeapSamples_def collectHeapSamples_def count_harvest_def harvest_succeeds_def
      DESTINATION_TYPE_LOCAL_FILE_def DESTINATION_TYPE_NIL_def Let_def split: sum.splits)

lemma start_opens_base_names:
  assumes "destination st = DESTINATION_TYPE_LOCAL_FILE" and "thrown (start st env) = None"
  shows "(selectedProfiles st AND PROFILING_TYPE_CPU \<noteq> 0 \<longrightarrow>
      cpuFile (after (start st env)) = Some (outputDirectory st, ''cpu.pprof'')) \<and>
    (selectedProfiles st AND PROFILING_TYPE_HEAP \<noteq> 0 \<longrightarrow>
      heapFile (after (start st env)) = Some (outputDirectory st, ''heap.pprof''))"
proof -
  have z: "selectedProfiles st = 0 \<Longrightarrow> selectedProfiles st AND PROFILING_TYPE_CPU = 0 \<and>
      selectedProfiles st AND PROFILING_TYPE_HEAP = 0"
    by simp
  show ?thesis
    using assms z
    by (auto simp: start_def start_cpu_def start_heap_def openLocalFiles_def returns_def throws_def
        scheduleHarvests_def Let_def split: if_splits option.splits sum.splits)
qed

lemma cpu_rotation_series:
  "\<forall>e \<in> set envs. harvest_succeeds e \<Longrightarrow>
   destination s = DESTINATION_TYPE_LOCAL_FILE \<Longrightarrow>
   selectedProfiles s AND PROFILING_TYPE_CPU \<noteq> 0 \<Longrightarrow> cpuFile s = Some f \<Longrightarrow>
   concat (map opened (run_timers s (map CpuTimer envs))) =
     map (\<lambda>k. (outputDirectory s, ''cpu.pprof'' @ show_nat (harvestSeq s + k))) [0 ..< length envs]"
proof (induction envs arbitrary: s f)
  case Nil
  show ?case by simp
next
  case (Cons e envs)
  let ?next = "(outputDirectory s, ''cpu.pprof'' @ show_nat (harvestSeq s))"
  let ?s' = "s\<lparr>cpuFile := Some ?next, harvestSeq := harvestSeq s + 1\<rparr>"
  have e: "harvest_succeeds e" and rest: "\<forall>e \<in> set envs. harvest_succeeds e"
    using Cons.prems(1) by simp_all
  note r = cpu_harvest_rotates [OF Cons.prems(2,3,4) e]
  have a: "after (fire s (CpuTimer e)) = ?s'" and o: "opened (fire s (CpuTimer e)) = [?next]"
    by (simp_all only: r harvest_outcome.simps)
  have IH: "concat (map opened (run_timers ?s' (map CpuTimer envs))) =
     map (\<lambda>k. (outputDirectory ?s', ''cpu.pprof'' @ show_nat (harvestSeq ?s' + k)))
       [0 ..< length envs]"
    using Cons.prems(2,3) by (intro Cons.IH [OF rest, of ?s' ?next]) simp_all
  have "concat (map opened (run_timers s (map CpuTimer (e # envs)))) =
      ?next # concat (map opened (run_timers ?s' (map CpuTimer envs)))"
    by (simp only: list.map run_timers.simps concat.simps a o append.simps)
  also have "\<dots> = ?next #
      map (\<lambda>k. (outputDirectory s, ''cpu.pprof'' @ show_nat (harvestSeq s + Suc k)))
        [0 ..< length envs]"
    unfolding IH by simp
  also have "\<dots> =
      map (\<lambda>k. (outputDirectory s, ''cpu.pprof'' @ show_nat (harvestSeq s + k)))
        [0 ..< length (e # envs)]"
    by (simp add: upt_conv_Cons map_Suc_upt [symmetric] del: upt_Suc)
  finally show ?case .
qed

text \<open>
  C8, as the code has it: \<open>start\<close> opens the unsuffixed \<open>cpu.pprof\<close> and
  \<open>heap.pprof\<close>; a completed harvest writes the profile to the engine's current file
  and opens the next one, named with the value the harvest counter has during that
  harvest. When only CPU harvests run, all of them completing, the files opened are
  \<open>cpu.pprof\<close> followed by the counter values from the first harvest on.
\<close>

theorem rotated_file_names:
  "(destination st = DESTINATION_TYPE_LOCAL_FILE \<and> thrown (start st env) = None \<longrightarrow>
      (selectedProfiles st AND PROFILING_TYPE_CPU \<noteq> 0 \<longrightarrow>
         cpuFile (after (start st env)) = Some (outputDirectory st, ''cpu.pprof'')) \<and>
      (selectedProfiles st AND PROFILING_TYPE_HEAP \<noteq> 0 \<longrightarrow>
         heapFile (after (start st env)) = Some (outputDirectory st, ''heap.pprof''))) \<and>
   (destination s = DESTINATION_TYPE_LOCAL_FILE \<and> selectedProfiles s AND PROFILING_TYPE_CPU \<noteq> 0 \<and>
    cpuFile s = Some f \<and> harvest_succeeds e \<longrightarrow>
      wrote (fire s (CpuTimer e)) = [f] \<and>
      opened (fire s (CpuTimer e)) =
        [(outputDirectory s, ''cpu.pprof'' @ show_nat (harvestSeq s))] \<and>
      cpuFile (after (fire s (CpuTimer e))) =
        Some (outputDirectory s, ''cpu.pprof'' @ show_nat (harvestSeq s))) \<and>
   (destination sh = DESTINATION_TYPE_LOCAL_FILE \<and> selectedProfiles sh AND PROFILING_TYPE_HEAP \<noteq> 0 \<and>
    heapFile sh = Some fh \<and> harvest_succeeds eh \<longrightarrow>
      wrote (fire sh (HeapTimer eh)) = [fh] \<and>
      opened (fire sh (HeapTimer eh)) =
        [(outputDirectory sh, ''heap.pprof'' @ show_nat (harvestSeq sh))] \<and>
      heapFile (after (fire sh (HeapTimer eh))) =
        Some (outputDirectory sh, ''heap.pprof'' @ show_nat (harvestSeq sh))) \<and>
   (destination s = DESTINATION_TYPE_LOCAL_FILE \<and> selectedProfiles s AND PROFILING_TYPE_CPU \<noteq> 0 \<and>
    cpuFile s = Some f \<and> (\<forall>e \<in> set envs. harvest_succeeds e) \<longrightarrow>
      concat (map opened (run_timers s (map CpuTimer envs))) =
        map (\<lambda>k. (outputDirectory s, ''cpu.pprof'' @ show_nat (harvestSeq s + k)))
          [0 ..< length envs])"
proof (intro conjI impI)
  assume "destination st = DESTINATION_TYPE_LOCAL_FILE \<and> thrown (start st env) = None"
  then have a: "destination st = DESTINATION_TYPE_LOCAL_FILE" and b: "thrown (start st env) = None"
    by simp_all
  note t = start_opens_base_names [OF a b]
  {
    assume "selectedProfiles st AND PROFILING_TYPE_CPU \<noteq> 0"
    with t show "cpuFile (after (start st env)) = Some (outputDirectory st, ''cpu.pprof'')"
      by blast
  }
  {
    assume "selectedProfiles st AND PROFILING_TYPE_HEAP \<noteq> 0"
    with t show "heapFile (after (start st env)) = Some (outputDirectory st, ''heap.pprof'')"
      by blast
  }
next
  assume h: "destination s = DESTINATION_TYPE_LOCAL_FILE \<and>
    selectedProfiles s AND PROFILING_TYPE_CPU \<noteq> 0 \<and> cpuFile s = Some f \<and> harvest_succeeds e"
  then have r: "fire s (CpuTimer e) =
    \<lparr>thrown = None,
     after = s\<lparr>cpuFile := Some (outputDirectory s, ''cpu.pprof'' @ show_nat (harvestSeq s)),
               harvestSeq := harvestSeq s + 1\<rparr>,
     recorded = [], wrote = [f],
     opened = [(outputDirectory s, ''cpu.pprof'' @ show_nat (harvestSeq s))]\<rparr>"
    by (intro cpu_harvest_rotates) simp_all
  show "wrote (fire s (CpuTimer e)) = [f]" by (simp only: r harvest_outcome.simps)
  show "opened (fire s (CpuTimer e)) =
        [(outputDirectory s, ''cpu.pprof'' @ show_nat (harvestSeq s))]"
    by (simp only: r harvest_outcome.simps)
  show "cpuFile (after (fire s (CpuTimer e))) =
        Some (outputDirectory s, ''cpu.pprof'' @ show_nat (harvestSeq s))"
    by (simp only: r harvest_outcome.simps) simp
next
  assume h: "destination sh = DESTINATION_TYPE_LOCAL_FILE \<and>
    selectedProfiles sh AND PROFILING_TYPE_HEAP \<noteq> 0 \<and> heapFile sh = Some fh \<and> harvest_succeeds eh"
  then have r: "fire sh (HeapTimer eh) =
    \<lparr>thrown = None,
     after = sh\<lparr>heapFile := Some (outputDirectory sh, ''heap.pprof'' @ show_nat (harvestSeq sh)),
               harvestSeq := harvestSeq sh + 1\<rparr>,
     recorded = [], wrote = [fh],
     opened = [(outputDirectory sh, ''heap.pprof'' @ show_nat (harvestSeq sh))]\<rparr>"
    by (intro heap_harvest_rotates) simp_all
  show "wrote (fire sh (HeapTimer eh)) = [fh]" by (simp only: r harvest_outcome.simps)
  show "opened (fire sh (HeapTimer eh)) =
        [(outputDirectory sh, ''heap.pprof'' @ show_nat (harvestSeq sh))]"
    by (simp only: r harvest_outcome.simps)
  show "heapFile (after (fire sh (HeapTimer eh))) =
        Some (outputDirectory sh, ''heap.pprof'' @ show_nat (harvestSeq sh))"
    by (simp only: r harvest_outcome.simps) simp
next
  assume "destination s = DESTINATION_TYPE_LOCAL_FILE \<and>
    selectedProfiles s AND PROFILING_TYPE_CPU \<noteq> 0 \<and> cpuFile s = Some f \<and>
    (\<forall>e \<in> set envs. harvest_succeeds e)"
  then show "concat (map opened (run_timers s (map CpuTimer envs))) =
        map (\<lambda>k. (outputDirectory s, ''cpu.pprof'' @ show_nat (harvestSeq s + k)))
          [0 ..< length envs]"
    by (intro cpu_rotation_series [of envs s f]) simp_all
qed

lemma example_file_started:
  "example_file_start =
     \<lparr>thrown = None,
      after = \<lparr>harvestSeq = 0, selectedProfiles = 1, destination = DESTINATION_TYPE_LOCAL_FILE,
               outputDirectory = ''/out'', cpuFile = Some (''/out'', ''cpu.pprof''),
               heapFile = None, cpuTimer = True, heapTimer = False, time_started = True,
               heap_started = False\<rparr>,
      recorded = [], wrote = [], opened = [(''/out'', ''cpu.pprof'')]\<rparr>"
  by (simp add: example_file_start_def start_def start_cpu_def start_heap_def
      new_profiler_def no_start_errors_def returns_def scheduleHarvests_def openLocalFiles_def
      PROFILING_TYPE_CPU_def PROFILING_TYPE_HEAP_def Let_def)

lemma example_env_succeeds: "harvest_succeeds example_env"
  by (simp add: harvest_succeeds_def example_env_def)

lemma show_nat_digits: "show_nat 0 = ''0''" "show_nat 1 = ''1''" "show_nat (Suc 0) = ''1''"
  by (simp_all add: show_nat.simps digit_char_def)

text \<open>
  C8 as stated fails: the counter starts at 0, so with the CPU engine only the series of
  files is \<open>cpu.pprof\<close>, \<open>cpu.pprof0\<close>, \<open>cpu.pprof1\<close>, not
  \<open>cpu.pprof\<close>, \<open>cpu.pprof1\<close>, \<open>cpu.pprof2\<close>.
\<close>

theorem first_rotated_file_has_suffix_zero:
  "map snd (opened example_file_start @
            concat (map opened (run_timers (after example_file_start)
                                  [CpuTimer example_env, CpuTimer example_env]))) =
     [''cpu.pprof'', ''cpu.pprof0'', ''cpu.pprof1''] \<and>
   map snd (opened example_file_start @
            concat (map opened (run_timers (after example_file_start)
                                  [CpuTimer example_env, CpuTimer example_env]))) \<noteq>
     [''cpu.pprof'', ''cpu.pprof1'', ''cpu.pprof2'']"
proof -
  let ?s = "after example_file_start"
  have s: "destination ?s = DESTINATION_TYPE_LOCAL_FILE"
    "selectedProfiles ?s AND PROFILING_TYPE_CPU \<noteq> 0"
    "cpuFile ?s = Some (''/out'', ''cpu.pprof'')"
    "harvestSeq ?s = 0" "outputDirectory ?s = ''/out''"
    by (simp_all add: example_file_started PROFILING_TYPE_CPU_def)
  have all: "\<forall>e \<in> set [example_env, example_env]. harvest_succeeds e"
    by (simp add: example_env_succeeds)
  have "concat (map opened (run_timers ?s (map CpuTimer [example_env, example_env]))) =
      [(''/out'', ''cpu.pprof0''), (''/out'', ''cpu.pprof1'')]"
    unfolding cpu_rotation_series [OF all s(1,2,3)] s
    by (simp add: show_nat_digits upt_conv_Cons)
  then have "concat (map opened (run_timers ?s [CpuTimer example_env, CpuTimer example_env])) =
      [(''/out'', ''cpu.pprof0''), (''/out'', ''cpu.pprof1'')]"
    by (simp only: list.map)
  moreover have "opened example_file_start = [(''/out'', ''cpu.pprof'')]"
    by (simp add: example_file_started)
  ultimately show ?thesis by (simp only: map_append list.map snd_conv append.simps) simp
qed

text \<open>The example profilers, started with the local file destination.\<close>

theorem rotated_file_names_witness:
  "cpuFile (after example_file_start) = Some (''/out'', ''cpu.pprof'') \<and>
   heapFile (after (start (new_profiler 3 DESTINATION_TYPE_LOCAL_FILE ''/out'') no_start_errors)) =
     Some (''/out'', ''heap.pprof'') \<and>
   wrote (fire (after example_file_start) (CpuTimer example_env)) = [(''/out'', ''cpu.pprof'')] \<and>
   opened (fire (after example_file_start) (CpuTimer example_env)) = [(''/out'', ''cpu.pprof0'')] \<and>
   opened (fire (after (start (new_profiler 3 DESTINATION_TYPE_LOCAL_FILE ''/out'') no_start_errors))
             (HeapTimer example_env)) = [(''/out'', ''heap.pprof0'')] \<and>
   concat (map opened (run_timers (after example_file_start)
                         (map CpuTimer [example_env, example_env]))) =
     [(''/out'', ''cpu.pprof0''), (''/out'', ''cpu.pprof1'')]"
proof -
  let ?st1 = "new_profiler 1 DESTINATION_TYPE_LOCAL_FILE ''/out''"
  let ?st3 = "new_profiler 3 DESTINATION_TYPE_LOCAL_FILE ''/out''"
  let ?s = "after example_file_start"
  let ?sh = "after (start ?st3 no_start_errors)"
  have sh: "?sh = \<lparr>harvestSeq = 0, selectedProfiles = 3, destination = DESTINATION_TYPE_LOCAL_FILE,
               outputDirectory = ''/out'', cpuFile = Some (''/out'', ''cpu.pprof''),
               heapFile = Some (''/out'', ''heap.pprof''), cpuTimer = True, heapTimer = True,
               time_started = True, heap_started = True\<rparr>"
    and th: "thrown (start ?st3 no_start_errors) = None"
    by (simp_all add: start_def start_cpu_def start_heap_def
      new_profiler_def no_start_errors_def returns_def scheduleHarvests_def openLocalFiles_def
      PROFILING_TYPE_CPU_def PROFILING_TYPE_HEAP_def Let_def)
  have st: "destination ?st3 = DESTINATION_TYPE_LOCAL_FILE \<and> thrown (start ?st3 no_start_errors) = None"
    using th by (simp add: new_profiler_def)
  have st3: "selectedProfiles ?st3 AND PROFILING_TYPE_CPU \<noteq> 0"
    "selectedProfiles ?st3 AND PROFILING_TYPE_HEAP \<noteq> 0" "outputDirectory ?st3 = ''/out''"
    by (simp_all add: new_profiler_def PROFILING_TYPE_CPU_def PROFILING_TYPE_HEAP_def)
  have s: "destination ?s = DESTINATION_TYPE_LOCAL_FILE \<and>
      selectedProfiles ?s AND PROFILING_TYPE_CPU \<noteq> 0 \<and>
      cpuFile ?s = Some (''/out'', ''cpu.pprof'') \<and> harvest_succeeds example_env"
    by (simp add: example_file_started PROFILING_TYPE_CPU_def example_env_succeeds)
  have h: "destination ?sh = DESTINATION_TYPE_LOCAL_FILE \<and>
      selectedProfiles ?sh AND PROFILING_TYPE_HEAP \<noteq> 0 \<and>
      heapFile ?sh = Some (''/out'', ''heap.pprof'') \<and> harvest_succeeds example_env"
    unfolding sh by (simp add: PROFILING_TYPE_HEAP_def example_env_succeeds)
  have all: "destination ?s = DESTINATION_TYPE_LOCAL_FILE \<and>
      selectedProfiles ?s AND PROFILING_TYPE_CPU \<noteq> 0 \<and>
      cpuFile ?s = Some (''/out'', ''cpu.pprof'') \<and>
      (\<forall>e \<in> set [example_env, example_env]. harvest_succeeds e)"
    using s by simp
  have f: "harvestSeq ?s = 0" "outputDirectory ?s = ''/out''"
    "harvestSeq ?sh = 0" "outputDirectory ?sh = ''/out''"
    unfolding sh by (simp_all add: example_file_started)
  note t = rotated_file_names [of ?st3 no_start_errors ?s "(''/out'', ''cpu.pprof'')" example_env
      ?sh "(''/out'', ''heap.pprof'')" example_env "[example_env, example_env]"]
  note t1 = t [THEN conjunct1] and t2 = t [THEN conjunct2, THEN conjunct1]
    and t3 = t [THEN conjunct2, THEN conjunct2, THEN conjunct1]
    and t4 = t [THEN conjunct2, THEN conjunct2, THEN conjunct2]
  from t1 st st3(2) have "heapFile ?sh = Some (outputDirectory ?st3, ''heap.pprof'')" by blast
  then have c1: "heapFile ?sh = Some (''/out'', ''heap.pprof'')" by (simp only: st3(3))
  from t2 s have c2: "wrote (fire ?s (CpuTimer example_env)) = [(''/out'', ''cpu.pprof'')]"
    and c3: "opened (fire ?s (CpuTimer example_env)) =
        [(outputDirectory ?s, ''cpu.pprof'' @ show_nat (harvestSeq ?s))]" by blast+
  from t3 h have c4: "opened (fire ?sh (HeapTimer example_env)) =
        [(outputDirectory ?sh, ''heap.pprof'' @ show_nat (harvestSeq ?sh))]" by blast
  from t4 all have c5: "concat (map opened (run_timers ?s (map CpuTimer [example_env, example_env]))) =
        map (\<lambda>k. (outputDirectory ?s, ''cpu.pprof'' @ show_nat (harvestSeq ?s + k)))
          [0 ..< length [example_env, example_env]]" by blast
  have c0: "cpuFile ?s = Some (''/out'', ''cpu.pprof'')" using s by simp
  have c3': "opened (fire ?s (CpuTimer example_env)) = [(''/out'', ''cpu.pprof0'')]"
    unfolding c3 f by (simp add: show_nat_digits)
  have c4': "opened (fire ?sh (HeapTimer example_env)) = [(''/out'', ''heap.pprof0'')]"
    unfolding c4 f by (simp add: show_nat_digits)
  have c5': "concat (map opened (run_timers ?s (map CpuTimer [example_env, example_env]))) =
      [(''/out'', ''cpu.pprof0''), (''/out'', ''cpu.pprof1'')]"
    unfolding c5 f by (simp add: show_nat_digits upt_conv_Cons)
  from c0 c1 c2 c3' c4' c5' show ?thesis by (intro conjI)
qed

subsection \<open>Starting the profiler\<close>

lemma and_bits: "(3::nat) AND 1 = 1" "(3::nat) AND 2 = 2" "(1::nat) AND 1 = 1" "(1::nat) AND 2 = 0"
  by simp_all

text \<open>
  C6: the claim is that a failed heap start stops the CPU engine before the error
  reaches the caller. In the pprof variant \<open>start\<close> throws the error of \<open>heap.start\<close>
  and the CPU engine stays started. In the inspector variant the callback gets the error
  while the CPU profiler is still running; \<open>stop\<close> runs only afterwards, and, called
  without a callback, ends in an uncaught \<open>TypeError\<close>.
\<close>

theorem heap_start_failure_leaves_cpu_running:
  "thrown (start (new_profiler 3 DESTINATION_TYPE_INGEST_MELT ''/out'') heap_start_fails) =
     Some EngineError \<and>
   time_started (after (start (new_profiler 3 DESTINATION_TYPE_INGEST_MELT ''/out'') heap_start_fails)) \<and>
   trace (inspector_start (\<lambda>m. m = ''HeapProfiler.startSampling'') (new_inspector_profiler 3)) =
     [Connect, Post ''Profiler.setSamplingInterval'', Post ''Profiler.enable'',
      Post ''Profiler.start'', Post ''HeapProfiler.enable'', Post ''HeapProfiler.startSampling'',
      Surfaced (Some ''HeapProfiler.startSampling'') True,
      Post ''Profiler.stop'', Post ''Profiler.disable'', ClearCpuTimer,
      Post ''HeapProfiler.stopSampling'', Post ''HeapProfiler.disable'', ClearHeapTimer,
      Disconnect, Uncaught TypeError]"
  by (simp add: start_def start_cpu_def start_heap_def new_profiler_def heap_start_fails_def
      no_start_errors_def throws_def PROFILING_TYPE_CPU_def PROFILING_TYPE_HEAP_def
      inspector_start_def new_inspector_profiler_def maybeStartCpuProfiler_def
      maybeStartHeapProfiler_def maybeStopCpuProfiler_def maybeStopHeapProfiler_def
      inspector_stop_def post_def did_def engine_effect_def)

end
